(* ===== verification/Go_Prelude.thy ===== *)
theory Go_Prelude
  imports Main "HOL-Library.Word" "HOL-Library.AList" "HOL-Library.Char_ord" "HOL-Library.List_Lexorder"
begin

text \<open>
  Shared vocabulary of the development: Go's machine integers, errors and maps, and the
  generic facts about association lists, prefixes of results and words that the component
  theories use.

  Go maps are association lists with distinct keys (\<open>gomap_ok\<close>): lookup is \<^const>\<open>map_of\<close>,
  assignment \<open>AList.update\<close>, \<open>delete\<close> is \<open>AList.delete\<close> and \<open>len\<close> is \<^const>\<open>length\<close>. Go iterates over
  a map in an unspecified order; the statements about code that ranges over a map are
  about lookups, so they do not depend on the order of the association list.
\<close>

type_synonym u64 = "64 word"
type_synonym i64 = "64 word"  \<comment> \<open>read with \<^const>\<open>sint\<close>\<close>
type_synonym i32 = "32 word"  \<comment> \<open>read with \<^const>\<open>sint\<close>\<close>
type_synonym bytes = string
type_synonym ('k, 'v) gomap = "('k \<times> 'v) list"

text \<open>
  Error values. \<open>Errorf msg\<close> is \<open>fmt.Errorf\<close> without a wrapped error, \<open>Wrap msg e\<close> is
  \<open>fmt.Errorf("msg: %w", e)\<close>; \<open>ErrNotExist\<close> is \<open>os.ErrNotExist\<close> (and what \<open>os.IsNotExist\<close>
  recognises), \<open>ErrIO\<close> every other failure of a system call, \<open>ErrJSON\<close> an error of
  \<open>encoding/json\<close>, \<open>ErrLib n\<close> an error value handed over by a library outside the repository.
\<close>

datatype goerr =
    ErrNotExist
  | ErrIO
  | ErrClosed
  | ErrJSON
  | ErrDeadline
  | ErrLib nat
  | Errorf string
  | Wrap string goerr

type_synonym 'a res = "goerr + 'a"

definition IsNotExist :: "goerr \<Rightarrow> bool" where
  "IsNotExist e \<longleftrightarrow> e = ErrNotExist"

definition gomap_ok :: "('k, 'v) gomap \<Rightarrow> bool" where
  "gomap_ok m \<longleftrightarrow> distinct (map fst m)"

text \<open>Running a fallible operation over a list; the first failure ends the run.\<close>

fun fold_opt :: "('a \<Rightarrow> 's \<Rightarrow> 's option) \<Rightarrow> 'a list \<Rightarrow> 's \<Rightarrow> 's option" where
  "fold_opt f [] s = Some s"
| "fold_opt f (x # xs) s = (case f x s of None \<Rightarrow> None | Some t \<Rightarrow> fold_opt f xs t)"

named_theorems inv_intros \<open>operations preserve the invariant of their component\<close>

section \<open>Go maps\<close>

lemma gomap_ok_Nil [simp, intro]: "gomap_ok []"
  by (simp add: gomap_ok_def)

lemma gomap_ok_update [simp, intro]: "gomap_ok m \<Longrightarrow> gomap_ok (AList.update k v m)"
  by (simp add: gomap_ok_def distinct_update)

lemma gomap_ok_delete [simp, intro]: "gomap_ok m \<Longrightarrow> gomap_ok (AList.delete k m)"
  by (simp add: gomap_ok_def distinct_delete)

lemma gomap_update_idem: "map_of m k = Some v \<Longrightarrow> map_of (AList.update k v m) = map_of m"
  by (auto simp: update_conv')

section \<open>Lists\<close>

lemma map_filter_total:
  assumes "\<And>x. x \<in> set xs \<Longrightarrow> f x = Some (g x)"
  shows "List.map_filter f xs = map g xs"
  using assms by (induction xs) (simp_all add: List.map_filter_simps)

section \<open>Sums\<close>

lemma case_sum_Inr_eq:
  "(case r of Inl e \<Rightarrow> Inl (f e) | Inr x \<Rightarrow> g x) = Inr y \<longleftrightarrow> (\<exists>x. r = Inr x \<and> g x = Inr y)"
  by (cases r) auto

section \<open>Words\<close>

lemma unat_u64_less: "unat (x :: u64) < 18446744073709551616"
  using unsigned_less [of x, where ?'a = nat] by simp

lemma u64_diff_ge_iff:
  fixes a b n :: u64
  assumes "b \<le> a"
  shows "n \<le> a - b \<longleftrightarrow> unat b + unat n \<le> unat a"
  using assms by (simp add: word_le_nat_alt unat_sub_if' le_diff_conv2 add.commute)

lemma u64_add_no_wrap:
  fixes a b :: u64
  assumes "unat a + unat b < 2 ^ 64"
  shows "unat (a + b) = unat a + unat b"
  using assms by (simp add: unat_word_ariths)

section \<open>Sequences of events\<close>

text \<open>
  A state machine whose steps keep an invariant, and one that also winds down: of each of its parts (a goroutine) some
  turns are left, and every turn of the part uses one up.
\<close>

locale stepping =
  fixes step :: "'e \<Rightarrow> 's \<Rightarrow> 's" and inv :: "'s \<Rightarrow> bool"
  assumes step_inv: "inv s \<Longrightarrow> inv (step e s)"
begin

lemma run_inv: "inv s \<Longrightarrow> inv (fold step es s)"
  by (induction es arbitrary: s) (simp_all add: step_inv)

end

locale winding_down = stepping step inv for step :: "'e \<Rightarrow> 's \<Rightarrow> 's" and inv +
  fixes left :: "'i \<Rightarrow> 's \<Rightarrow> nat" and turn :: "'i \<Rightarrow> 'e \<Rightarrow> nat"
  assumes step_left: "inv s \<Longrightarrow> left i (step e s) \<le> left i s - turn i e"
begin

lemma run_left: "inv s \<Longrightarrow> left i (fold step es s) \<le> left i s - sum_list (map (turn i) es)"
proof (induction es arbitrary: s)
  case (Cons e es)
  show ?case
    using Cons.IH [OF step_inv [OF Cons.prems, of e]] step_left [OF Cons.prems, of i e] by simp
qed simp

lemma run_stops: "inv s \<Longrightarrow> left i s \<le> sum_list (map (turn i) es) \<Longrightarrow> left i (fold step es s) = 0"
  using run_left [of s i es] by simp

end

end
