(* ===== verification/Go_Strings.thy ===== *)
theory Go_Strings
  imports Go_Prelude
begin

text \<open>
  What the repository uses of Go's strings and of the packages \<open>unicode/utf8\<close>, \<open>strings\<close> and
  \<open>strconv\<close>. A Go string is a sequence of bytes (\<^typ>\<open>string\<close>: one \<^typ>\<open>char\<close> per byte); ranging over
  it decodes UTF-8, and every invalid byte yields the replacement rune U+FFFD of width 1.
\<close>

section \<open>UTF-8\<close>

definition byte_val :: "char \<Rightarrow> nat" where
  "byte_val c = of_char c"

definition RuneError :: nat where
  "RuneError = 0xFFFD"

text \<open>Width of a sequence with this first byte and the range of its second byte.\<close>

definition utf8_first :: "nat \<Rightarrow> (nat \<times> nat \<times> nat) option" where
  "utf8_first b =
     (if 0xC2 \<le> b \<and> b \<le> 0xDF then Some (2, 0x80, 0xBF)
      else if b = 0xE0 then Some (3, 0xA0, 0xBF)
      else if b = 0xED then Some (3, 0x80, 0x9F)
      else if 0xE1 \<le> b \<and> b \<le> 0xEF then Some (3, 0x80, 0xBF)
      else if b = 0xF0 then Some (4, 0x90, 0xBF)
      else if b = 0xF4 then Some (4, 0x80, 0x8F)
      else if 0xF1 \<le> b \<and> b \<le> 0xF3 then Some (4, 0x80, 0xBF)
      else None)"

definition cont_byte :: "nat \<Rightarrow> bool" where
  "cont_byte b \<longleftrightarrow> 0x80 \<le> b \<and> b \<le> 0xBF"

text \<open>\<open>utf8.DecodeRuneInString\<close>: the first rune and its width in bytes.\<close>

definition decode_multi :: "nat \<Rightarrow> string \<Rightarrow> nat \<times> nat" where
  "decode_multi b0 s =
     (case utf8_first b0 of
        None \<Rightarrow> (RuneError, 1)
      | Some (sz, lo, hi) \<Rightarrow>
          (case s of
             [] \<Rightarrow> (RuneError, 1)
           | c1 # s1 \<Rightarrow>
               if \<not> (lo \<le> byte_val c1 \<and> byte_val c1 \<le> hi) then (RuneError, 1)
               else if sz = 2 then ((b0 mod 32) * 64 + byte_val c1 mod 64, 2)
               else
                 (case s1 of
                    [] \<Rightarrow> (RuneError, 1)
                  | c2 # s2 \<Rightarrow>
                      if \<not> cont_byte (byte_val c2) then (RuneError, 1)
                      else if sz = 3
                        then ((b0 mod 16) * 4096 + (byte_val c1 mod 64) * 64 + byte_val c2 mod 64, 3)
                      else
                        (case s2 of
                           [] \<Rightarrow> (RuneError, 1)
                         | c3 # s3 \<Rightarrow>
                             if \<not> cont_byte (byte_val c3) then (RuneError, 1)
                             else ((b0 mod 8) * 262144 + (byte_val c1 mod 64) * 4096
                                     + (byte_val c2 mod 64) * 64 + byte_val c3 mod 64, 4)))))"

fun decode_rune :: "string \<Rightarrow> nat \<times> nat" where
  "decode_rune [] = (RuneError, 0)"
| "decode_rune (c # s) =
     (if byte_val c < 0x80 then (byte_val c, 1) else decode_multi (byte_val c) s)"

text \<open>\<open>for _, c := range s\<close>: the runes of a string, each with the bytes it was read from.\<close>

fun runes :: "string \<Rightarrow> (nat \<times> string) list" where
  "runes [] = []"
| "runes (c # s) =
     (let (r, n) = decode_rune (c # s)
      in (r, take n (c # s)) # runes (drop (n - 1) s))"

definition ascii_str :: "string \<Rightarrow> bool" where
  "ascii_str s \<longleftrightarrow> list_all (\<lambda>c. byte_val c < 0x80) s"

text \<open>\<open>utf8.EncodeRune\<close>, and the strings that hold no invalid byte.\<close>

definition encode_rune :: "nat \<Rightarrow> string" where
  "encode_rune r =
     (if r < 0x80 then [char_of r]
      else if r < 0x800 then [char_of (192 + r div 64), char_of (128 + r mod 64)]
      else if r < 0x10000
        then [char_of (224 + r div 4096), char_of (128 + r div 64 mod 64), char_of (128 + r mod 64)]
      else [char_of (240 + r div 262144), char_of (128 + r div 4096 mod 64),
            char_of (128 + r div 64 mod 64), char_of (128 + r mod 64)])"

definition valid_utf8 :: "string \<Rightarrow> bool" where
  "valid_utf8 s \<longleftrightarrow> list_all (\<lambda>p. \<not> (fst p = RuneError \<and> length (snd p) = 1)) (runes s)"

section \<open>Package strings\<close>

definition IsSpace :: "nat \<Rightarrow> bool" where
  "IsSpace r \<longleftrightarrow>
     (9 \<le> r \<and> r \<le> 13) \<or> r = 0x20 \<or> r = 0x85 \<or> r = 0xA0 \<or> r = 0x1680
     \<or> (0x2000 \<le> r \<and> r \<le> 0x200A) \<or> r = 0x2028 \<or> r = 0x2029 \<or> r = 0x202F
     \<or> r = 0x205F \<or> r = 0x3000"

definition TrimSpace :: "string \<Rightarrow> string" where
  "TrimSpace s =
     (let sp = (\<lambda>p. IsSpace (fst p))
      in concat (map snd (rev (dropWhile sp (rev (dropWhile sp (runes s)))))))"

definition HasPrefix :: "string \<Rightarrow> string \<Rightarrow> bool" where
  "HasPrefix s p \<longleftrightarrow> take (length p) s = p"

definition HasSuffix :: "string \<Rightarrow> string \<Rightarrow> bool" where
  "HasSuffix s p \<longleftrightarrow> length p \<le> length s \<and> drop (length s - length p) s = p"

definition TrimPrefix :: "string \<Rightarrow> string \<Rightarrow> string" where
  "TrimPrefix s p = (if HasPrefix s p then drop (length p) s else s)"

definition TrimSuffix :: "string \<Rightarrow> string \<Rightarrow> string" where
  "TrimSuffix s p = (if HasSuffix s p then take (length s - length p) s else s)"

text \<open>
  \<open>strings.Split\<close>, \<open>strings.Index\<close> and \<open>strings.SplitN(s, sep, 2)\<close> for a separator of one byte;
  \<open>Index\<close> gives \<open>None\<close> for Go's -1.
\<close>

fun Split :: "char \<Rightarrow> string \<Rightarrow> string list" where
  "Split sep [] = [[]]"
| "Split sep (c # s) =
     (if c = sep then [] # Split sep s
      else (case Split sep s of [] \<Rightarrow> [[c]] | p # ps \<Rightarrow> (c # p) # ps))"

fun Index :: "string \<Rightarrow> char \<Rightarrow> nat option" where
  "Index [] sep = None"
| "Index (c # s) sep = (if c = sep then Some 0 else map_option Suc (Index s sep))"

definition SplitN2 :: "string \<Rightarrow> char \<Rightarrow> string list" where
  "SplitN2 s sep = (case Index s sep of None \<Rightarrow> [s] | Some i \<Rightarrow> [take i s, drop (Suc i) s])"

text \<open>The comma-separated list that code builds by appending to a string.\<close>

fun join_with :: "char \<Rightarrow> string list \<Rightarrow> string" where
  "join_with sep [] = []"
| "join_with sep [p] = p"
| "join_with sep (p # q # ps) = p @ sep # join_with sep (q # ps)"

section \<open>Decimal numbers\<close>

definition digit_char :: "nat \<Rightarrow> char" where
  "digit_char d = char_of (48 + d)"

definition is_digit :: "char \<Rightarrow> bool" where
  "is_digit c \<longleftrightarrow> 48 \<le> byte_val c \<and> byte_val c \<le> 57"

text \<open>\<open>%d\<close> of a non-negative integer.\<close>

fun dec :: "nat \<Rightarrow> string" where
  "dec n = (if n < 10 then [digit_char n] else dec (n div 10) @ [digit_char (n mod 10)])"

declare dec.simps [simp del]

text \<open>\<open>%d\<close> of a signed integer.\<close>

definition show_int :: "int \<Rightarrow> string" where
  "show_int n = (if n < 0 then CHR ''-'' # dec (nat (- n)) else dec (nat n))"

fun digits_val :: "nat \<Rightarrow> string \<Rightarrow> nat option" where
  "digits_val acc [] = Some acc"
| "digits_val acc (c # s) =
     (if is_digit c then digits_val (10 * acc + (byte_val c - 48)) s else None)"

text \<open>\<open>strconv.ParseUint(s, 10, 64)\<close>; the kind of error does not matter to the callers.\<close>

definition ParseUint :: "string \<Rightarrow> u64 res" where
  "ParseUint s =
     (if s = [] then Inl (Errorf ''invalid syntax'')
      else case digits_val 0 s of
             None \<Rightarrow> Inl (Errorf ''invalid syntax'')
           | Some n \<Rightarrow> if n < 2 ^ 64 then Inr (of_nat n) else Inl (Errorf ''value out of range''))"

text \<open>\<open>strconv.Atoi\<close>: a 64-bit signed integer in decimal with an optional sign.\<close>

definition Atoi :: "string \<Rightarrow> i64 res" where
  "Atoi s =
     (let neg = (case s of [] \<Rightarrow> False | c # _ \<Rightarrow> c = CHR ''-'');
          t = (case s of [] \<Rightarrow> [] | c # r \<Rightarrow> if c = CHR ''-'' \<or> c = CHR ''+'' then r else s) in
      if t = [] then Inl (Errorf ''invalid syntax'')
      else case digits_val 0 t of
             None \<Rightarrow> Inl (Errorf ''invalid syntax'')
           | Some n \<Rightarrow>
               if n < 2 ^ 63 \<or> neg \<and> n = 2 ^ 63 then Inr (if neg then - of_nat n else of_nat n)
               else Inl (Errorf ''value out of range''))"

section \<open>Lemmas: runes\<close>

lemma byte_val_less [simp]: "byte_val c < 256"
  by (simp add: byte_val_def)

lemma byte_val_inj [simp]: "byte_val c = byte_val d \<longleftrightarrow> c = d"
  by (simp add: byte_val_def)

lemma decode_multi_width: "decode_multi b s = (r, n) \<Longrightarrow> 1 \<le> n \<and> n \<le> Suc (length s)"
  by (auto simp: decode_multi_def split: option.splits prod.splits list.splits if_splits)

lemma decode_rune_width:
  "decode_rune (c # s) = (r, n) \<Longrightarrow> 1 \<le> n \<and> n \<le> Suc (length s)"
  by (auto split: if_splits dest: decode_multi_width)

lemma runes_concat: "concat (map snd (runes s)) = s"
proof (induction s rule: runes.induct)
  case 1
  show ?case by simp
next
  case (2 c s)
  obtain r n where d: "decode_rune (c # s) = (r, n)" by (cases "decode_rune (c # s)")
  from decode_rune_width [OF d] obtain m where n: "n = Suc m" by (cases n) auto
  have "concat (map snd (runes (drop (n - 1) s))) = drop (n - 1) s"
    using 2 [OF refl d [symmetric]] by simp
  then show ?case using n by (simp add: d Let_def del: decode_rune.simps)
qed

lemma ascii_str_Nil [simp]: "ascii_str []"
  by (simp add: ascii_str_def)

lemma ascii_str_Cons [simp]: "ascii_str (c # s) \<longleftrightarrow> byte_val c < 0x80 \<and> ascii_str s"
  by (simp add: ascii_str_def)

lemma ascii_str_append [simp]: "ascii_str (s @ t) \<longleftrightarrow> ascii_str s \<and> ascii_str t"
  by (simp add: ascii_str_def)

lemma runes_ascii: "ascii_str s \<Longrightarrow> runes s = map (\<lambda>c. (byte_val c, [c])) s"
  by (induction s) simp_all

lemma dropWhile_no: "list_all (\<lambda>x. \<not> P x) xs \<Longrightarrow> dropWhile P xs = xs"
  by (cases xs) auto

lemma TrimSpace_id:
  assumes "ascii_str s" and "list_all (\<lambda>c. \<not> IsSpace (byte_val c)) s"
  shows "TrimSpace s = s"
proof -
  have no: "list_all (\<lambda>p. \<not> IsSpace (fst p)) (runes s)"
    using assms by (simp add: runes_ascii list_all_iff)
  then have "list_all (\<lambda>p. \<not> IsSpace (fst p)) (rev (runes s))" by simp
  with no show ?thesis
    by (simp add: TrimSpace_def Let_def dropWhile_no runes_concat)
qed

section \<open>Lemmas: encoding inverts decoding\<close>

lemma char_of_byte_val [simp]: "char_of (byte_val c) = c"
  by (simp add: byte_val_def)

lemma div_block: "n * q \<le> b \<Longrightarrow> b < n * Suc q \<Longrightarrow> b div n = (q :: nat)"
  by (rule div_nat_eqI)

lemma mod_block: "n * q \<le> b \<Longrightarrow> b < n * Suc q \<Longrightarrow> n * q + b mod n = (b :: nat)"
  using div_block [of n q b] mult_div_mod_eq [of n b] by simp

lemma split64_3:
  fixes x y z :: nat
  assumes "y < 64" "z < 64"
  shows "(x * 4096 + y * 64 + z) div 4096 = x" "(x * 4096 + y * 64 + z) div 64 mod 64 = y"
    "(x * 4096 + y * 64 + z) mod 64 = z"
proof -
  show "(x * 4096 + y * 64 + z) div 4096 = x" using assms by (intro div_block) simp_all
  have "(x * 4096 + y * 64 + z) div 64 = x * 64 + y" using assms by (intro div_block) simp_all
  then show "(x * 4096 + y * 64 + z) div 64 mod 64 = y" using assms by simp
  have "x * 4096 + y * 64 + z = z + (x * 64 + y) * 64" by simp
  then show "(x * 4096 + y * 64 + z) mod 64 = z" using assms by (simp only: mod_mult_self1) simp
qed

lemma split64_4:
  fixes w x y z :: nat
  assumes "x < 64" "y < 64" "z < 64"
  shows "(w * 262144 + x * 4096 + y * 64 + z) div 262144 = w"
    "(w * 262144 + x * 4096 + y * 64 + z) div 4096 mod 64 = x"
    "(w * 262144 + x * 4096 + y * 64 + z) div 64 mod 64 = y"
    "(w * 262144 + x * 4096 + y * 64 + z) mod 64 = z"
proof -
  let ?r = "w * 262144 + x * 4096 + y * 64 + z"
  have r: "?r = (w * 64 + x) * 4096 + y * 64 + z" by simp
  show "?r div 262144 = w" using assms by (intro div_block) simp_all
  show "?r div 4096 mod 64 = x" unfolding r split64_3(1) [OF assms(2,3)] using assms by simp
  show "?r div 64 mod 64 = y" unfolding r by (rule split64_3(2) [OF assms(2,3)])
  show "?r mod 64 = z" unfolding r by (rule split64_3(3) [OF assms(2,3)])
qed

lemma cont_byte_shift: "128 \<le> b \<Longrightarrow> b \<le> 191 \<Longrightarrow> 128 + b mod 64 = (b :: nat)"
  using mod_block [of 64 2 b] by simp

lemma lead2_shift: "194 \<le> b \<Longrightarrow> b \<le> 223 \<Longrightarrow> 192 + b mod 32 = (b :: nat) \<and> 2 \<le> b mod 32"
  using mod_block [of 32 6 b] by simp

lemma lead3_shift: "224 \<le> b \<Longrightarrow> b \<le> 239 \<Longrightarrow> 224 + b mod 16 = (b :: nat)"
  using mod_block [of 16 14 b] by simp

lemma lead4_shift: "240 \<le> b \<Longrightarrow> b \<le> 244 \<Longrightarrow> 240 + b mod 8 = (b :: nat)"
  using mod_block [of 8 30 b] by simp

lemma utf8_first_SomeD:
  assumes "utf8_first b = Some (sz, lo, hi)"
  shows "128 \<le> lo \<and> hi \<le> 191"
    and "sz = 2 \<and> 194 \<le> b \<and> b \<le> 223
       \<or> sz = 3 \<and> 224 \<le> b \<and> b \<le> 239 \<and> (b = 224 \<longrightarrow> lo = 160)
       \<or> sz = 4 \<and> 240 \<le> b \<and> b \<le> 244 \<and> (b = 240 \<longrightarrow> lo = 144)"
  using assms by (auto simp: utf8_first_def split: if_splits)

lemma encode_rune2:
  assumes "194 \<le> b0" "b0 \<le> 223" "128 \<le> b1" "b1 \<le> 191"
  shows "encode_rune ((b0 mod 32) * 64 + b1 mod 64) = [char_of b0, char_of b1]"
    and "0x80 \<le> (b0 mod 32) * 64 + b1 mod 64"
proof -
  from lead2_shift [OF assms(1,2)] have b0: "192 + b0 mod 32 = b0" "2 \<le> b0 mod 32" by auto
  from cont_byte_shift [OF assms(3,4)] have b1: "128 + b1 mod 64 = b1" .
  show "0x80 \<le> (b0 mod 32) * 64 + b1 mod 64" using b0 by simp
  moreover have "(b0 mod 32) * 64 + b1 mod 64 < 0x800"
    using mod_less_divisor [of 32 b0] mod_less_divisor [of 64 b1] by linarith
  ultimately show "encode_rune ((b0 mod 32) * 64 + b1 mod 64) = [char_of b0, char_of b1]"
    using b0 b1 by (simp add: encode_rune_def)
qed

lemma encode_rune3:
  assumes "224 \<le> b0" "b0 \<le> 239" "128 \<le> b1" "b1 \<le> 191" "128 \<le> b2" "b2 \<le> 191"
    and lo: "b0 = 224 \<Longrightarrow> 160 \<le> b1"
  defines "r \<equiv> (b0 mod 16) * 4096 + (b1 mod 64) * 64 + b2 mod 64"
  shows "encode_rune r = [char_of b0, char_of b1, char_of b2]" and "0x80 \<le> r"
proof -
  have sh: "224 + b0 mod 16 = b0" "128 + b1 mod 64 = b1" "128 + b2 mod 64 = b2"
    using assms by (auto intro: lead3_shift cont_byte_shift)
  have "b0 mod 16 = 0 \<Longrightarrow> 32 \<le> b1 mod 64" using lo sh by linarith
  then have ge: "0x800 \<le> r" unfolding r_def by (cases "b0 mod 16") auto
  then show "0x80 \<le> r" by simp
  have lt: "r < 0x10000"
    unfolding r_def
    using mod_less_divisor [of 16 b0] mod_less_divisor [of 64 b1] mod_less_divisor [of 64 b2]
    by linarith
  have "r div 4096 = b0 mod 16" "r div 64 mod 64 = b1 mod 64" "r mod 64 = b2 mod 64"
    unfolding r_def by (intro split64_3; simp)+
  with sh ge lt show "encode_rune r = [char_of b0, char_of b1, char_of b2]"
    by (simp add: encode_rune_def)
qed

lemma encode_rune4:
  assumes "240 \<le> b0" "b0 \<le> 244" "128 \<le> b1" "b1 \<le> 191" "128 \<le> b2" "b2 \<le> 191"
    "128 \<le> b3" "b3 \<le> 191" and lo: "b0 = 240 \<Longrightarrow> 144 \<le> b1"
  defines "r \<equiv> (b0 mod 8) * 262144 + (b1 mod 64) * 4096 + (b2 mod 64) * 64 + b3 mod 64"
  shows "encode_rune r = [char_of b0, char_of b1, char_of b2, char_of b3]" and "0x80 \<le> r"
proof -
  have sh: "240 + b0 mod 8 = b0" "128 + b1 mod 64 = b1" "128 + b2 mod 64 = b2" "128 + b3 mod 64 = b3"
    using assms by (auto intro: lead4_shift cont_byte_shift)
  have "b0 mod 8 = 0 \<Longrightarrow> 16 \<le> b1 mod 64" using lo sh by linarith
  then have ge: "0x10000 \<le> r" unfolding r_def by (cases "b0 mod 8") auto
  then show "0x80 \<le> r" by simp
  have "r div 262144 = b0 mod 8" "r div 4096 mod 64 = b1 mod 64" "r div 64 mod 64 = b2 mod 64"
    "r mod 64 = b3 mod 64"
    unfolding r_def by (intro split64_4; simp)+
  with sh ge show "encode_rune r = [char_of b0, char_of b1, char_of b2, char_of b3]"
    by (simp add: encode_rune_def)
qed

lemma decode_multi_valid:
  assumes "decode_multi (byte_val c) s = (r, n)" and "n \<noteq> 1"
  shows "encode_rune r = take n (c # s)" and "0x80 \<le> r" and "2 \<le> n" and "n \<le> Suc (length s)"
    and "decode_multi (byte_val c) (take (n - 1) s @ t) = (r, n)"
proof -
  from assms obtain sz lo hi where f: "utf8_first (byte_val c) = Some (sz, lo, hi)"
    by (auto simp: decode_multi_def split: option.splits)
  note range = utf8_first_SomeD [OF f]
  from assms f obtain c1 s1 where s: "s = c1 # s1" and c1: "lo \<le> byte_val c1" "byte_val c1 \<le> hi"
    by (auto simp: decode_multi_def split: list.splits if_splits)
  from c1 range(1) have b1: "128 \<le> byte_val c1" "byte_val c1 \<le> 191" by auto
  consider "sz = 2" "194 \<le> byte_val c" "byte_val c \<le> 223"
    | "sz = 3" "224 \<le> byte_val c" "byte_val c \<le> 239" "byte_val c = 224 \<Longrightarrow> lo = 160"
    | "sz = 4" "240 \<le> byte_val c" "byte_val c \<le> 244" "byte_val c = 240 \<Longrightarrow> lo = 144"
    using range(2) by blast
  then have "encode_rune r = take n (c # s) \<and> 0x80 \<le> r \<and> 2 \<le> n \<and> n \<le> Suc (length s)
    \<and> decode_multi (byte_val c) (take (n - 1) s @ t) = (r, n)"
  proof cases
    case 1
    with assms f s c1 have "n = 2" "r = (byte_val c mod 32) * 64 + byte_val c1 mod 64"
      by (auto simp: decode_multi_def)
    with 1 b1 f s c1 encode_rune2 [of "byte_val c" "byte_val c1"] show ?thesis
      by (simp add: decode_multi_def)
  next
    case 2
    with assms f s c1 obtain c2 s2 where s1: "s1 = c2 # s2" and c2: "cont_byte (byte_val c2)"
      by (auto simp: decode_multi_def split: list.splits if_splits)
    with 2 assms f s c1 have "n = 3"
      "r = (byte_val c mod 16) * 4096 + (byte_val c1 mod 64) * 64 + byte_val c2 mod 64"
      by (auto simp: decode_multi_def)
    with 2 b1 f s s1 c1 c2 encode_rune3 [of "byte_val c" "byte_val c1" "byte_val c2"] show ?thesis
      by (auto simp: decode_multi_def cont_byte_def)
  next
    case 3
    with assms f s c1 obtain c2 c3 s3 where s1: "s1 = c2 # c3 # s3"
      and c23: "cont_byte (byte_val c2)" "cont_byte (byte_val c3)"
      by (auto simp: decode_multi_def split: list.splits if_splits)
    with 3 assms f s c1 have "n = 4"
      "r = (byte_val c mod 8) * 262144 + (byte_val c1 mod 64) * 4096
             + (byte_val c2 mod 64) * 64 + byte_val c3 mod 64"
      by (auto simp: decode_multi_def)
    with 3 b1 f s s1 c1 c23
      encode_rune4 [of "byte_val c" "byte_val c1" "byte_val c2" "byte_val c3"] show ?thesis
      by (auto simp: decode_multi_def cont_byte_def)
  qed
  then show "encode_rune r = take n (c # s)" and "0x80 \<le> r" and "2 \<le> n" and "n \<le> Suc (length s)"
    and "decode_multi (byte_val c) (take (n - 1) s @ t) = (r, n)" by auto
qed

section \<open>Lemmas: splitting and joining\<close>

lemma Split_not_Nil [simp]: "Split sep s \<noteq> []"
  by (induction s) (auto split: list.splits)

lemma Split_no_sep: "sep \<notin> set s \<Longrightarrow> Split sep s = [s]"
  by (induction s) auto

lemma Split_append: "sep \<notin> set p \<Longrightarrow> Split sep (p @ sep # s) = p # Split sep s"
  by (induction p) auto

lemma Split_join_with:
  "ps \<noteq> [] \<Longrightarrow> \<forall>p \<in> set ps. sep \<notin> set p \<Longrightarrow> Split sep (join_with sep ps) = ps"
  by (induction sep ps rule: join_with.induct) (simp_all add: Split_no_sep Split_append)

lemma Index_None_iff [simp]: "Index s sep = None \<longleftrightarrow> sep \<notin> set s"
  by (induction s) auto

lemma Index_append: "sep \<notin> set p \<Longrightarrow> Index (p @ sep # s) sep = Some (length p)"
  by (induction p) auto

lemma SplitN2_append: "sep \<notin> set p \<Longrightarrow> SplitN2 (p @ sep # s) sep = [p, s]"
  by (simp add: SplitN2_def Index_append)

lemma Index_SomeD:
  "Index s sep = Some i \<Longrightarrow> i < length s \<and> sep \<notin> set (take i s) \<and> s = take i s @ sep # drop (Suc i) s"
  by (induction s arbitrary: i) (auto split: if_splits)

section \<open>Lemmas: prefixes and suffixes\<close>

lemma HasPrefix_append [simp]: "HasPrefix (p @ s) p"
  by (simp add: HasPrefix_def)

lemma TrimPrefix_append [simp]: "TrimPrefix (p @ s) p = s"
  by (simp add: TrimPrefix_def)

lemma HasSuffix_append [simp]: "HasSuffix (s @ p) p"
  by (simp add: HasSuffix_def)

lemma TrimSuffix_append [simp]: "TrimSuffix (s @ p) p = s"
  by (simp add: TrimSuffix_def)

section \<open>Lemmas: decimal numbers\<close>

lemma byte_val_digit_char [simp]: "d < 10 \<Longrightarrow> byte_val (digit_char d) = 48 + d"
  by (simp add: byte_val_def digit_char_def)

lemma is_digit_digit_char [simp]: "d < 10 \<Longrightarrow> is_digit (digit_char d)"
  by (simp add: is_digit_def)

lemma dec_not_Nil [simp]: "dec n \<noteq> []"
  by (subst dec.simps) simp

lemma dec_digits: "list_all is_digit (dec n)"
  by (induction n rule: dec.induct) (subst dec.simps, simp)

lemma digits_val_append:
  "digits_val acc (s @ t) = Option.bind (digits_val acc s) (\<lambda>a. digits_val a t)"
  by (induction s arbitrary: acc) auto

lemma digits_val_dec: "digits_val 0 (dec n) = Some n"
proof (induction n rule: dec.induct)
  case (1 n)
  show ?case
  proof (cases "n < 10")
    case True
    then show ?thesis by (subst dec.simps) simp
  next
    case False
    with 1 have "digits_val 0 (dec (n div 10)) = Some (n div 10)" by simp
    with False show ?thesis by (subst dec.simps) (simp add: digits_val_append)
  qed
qed

lemma dec_inj: "dec m = dec n \<longleftrightarrow> m = n"
  by (metis digits_val_dec option.inject)

lemma ParseUint_dec: "n < 2 ^ 64 \<Longrightarrow> ParseUint (dec n) = Inr (of_nat n)"
  by (simp add: ParseUint_def digits_val_dec)

lemma ParseUint_dec_unat [simp]: "ParseUint (dec (unat (x :: u64))) = Inr x"
  using ParseUint_dec [of "unat x"] unat_u64_less [of x] by simp

lemma digit_props:
  "is_digit c \<Longrightarrow> byte_val c < 0x80 \<and> \<not> IsSpace (byte_val c) \<and> c \<noteq> CHR '','' \<and> c \<noteq> CHR ''=''"
  by (auto simp: is_digit_def IsSpace_def byte_val_def)

end
