(* ===== verification/Config.thy ===== *)
theory Config
  imports Go_Strings
begin

text \<open>
  \<open>server/pkg/config/config.go\<close>: the server's configuration and the parser of its peer list. The
  result is a Go map, so a later declaration of a node replaces an earlier one.
\<close>

record Config =
  cf_NodeID :: string
  cf_RaftAddr :: string
  cf_APIAddr :: string
  cf_AdminAddr :: string
  cf_DataDir :: string
  cf_InitialPeers :: string
  cf_SafetyMode :: string
  cf_SnapshotInterval :: string
  cf_ElectionTimeoutMs :: int

text \<open>\<open>host[:i]\<close> up to the first separator, when there is one.\<close>

definition cut_at :: "char \<Rightarrow> string \<Rightarrow> string" where
  "cut_at sep s = (case Index s sep of Some i \<Rightarrow> take i s | None \<Rightarrow> s)"

definition parsePeerEntry :: "string \<Rightarrow> string \<times> string" where
  "parsePeerEntry entry =
     (if CHR ''='' \<in> set entry then
        (case SplitN2 entry CHR ''='' of
           [a, b] \<Rightarrow> (TrimSpace a, TrimSpace b)
         | _ \<Rightarrow> ([], []))
      else (TrimSpace (cut_at CHR ''.'' (cut_at CHR '':'' entry)), entry))"

text \<open>One turn of the loop of \<open>GetPeers\<close>.\<close>

definition add_peer_entry :: "string \<Rightarrow> (string, string) gomap \<Rightarrow> (string, string) gomap" where
  "add_peer_entry p peers =
     (let peer = TrimSpace p in
      if peer = [] then peers
      else let (nodeID, addr) = parsePeerEntry peer in
           if nodeID = [] \<or> addr = [] then peers
           else AList.update nodeID addr peers)"

definition GetPeers :: "Config \<Rightarrow> (string, string) gomap" where
  "GetPeers c =
     (if cf_InitialPeers c = [] then []
      else fold add_peer_entry (Split CHR '','' (cf_InitialPeers c)) [])"

definition IsSafeMode :: "Config \<Rightarrow> bool" where
  "IsSafeMode c \<longleftrightarrow> cf_SafetyMode c = ''safe''"

definition IsUnsafeEarlyVote :: "Config \<Rightarrow> bool" where
  "IsUnsafeEarlyVote c \<longleftrightarrow> cf_SafetyMode c = ''unsafe-early-vote''"

definition IsUnsafeNoJoint :: "Config \<Rightarrow> bool" where
  "IsUnsafeNoJoint c \<longleftrightarrow> cf_SafetyMode c = ''unsafe-no-joint''"

text \<open>A declaration \<open>nodeID=addr\<close> as the operator writes it, and text without white space or separators.\<close>

definition peer_decl :: "string \<times> string \<Rightarrow> string" where
  "peer_decl d = fst d @ CHR ''='' # snd d"

definition plain_text :: "string \<Rightarrow> bool" where
  "plain_text s \<longleftrightarrow>
     s \<noteq> [] \<and> list_all (\<lambda>c. byte_val c < 0x80 \<and> \<not> IsSpace (byte_val c) \<and> c \<noteq> CHR '','' \<and> c \<noteq> CHR ''='') s"

text \<open>What the parser guarantees of its result.\<close>

definition peers_ok :: "(string, string) gomap \<Rightarrow> bool" where
  "peers_ok m \<longleftrightarrow> gomap_ok m \<and> list_all (\<lambda>p. fst p \<noteq> [] \<and> snd p \<noteq> []) m"

section \<open>Lemmas\<close>

lemma plain_text_not_Nil: "plain_text s \<Longrightarrow> s \<noteq> []"
  by (simp add: plain_text_def)

lemma plain_text_props:
  assumes "plain_text s"
  shows "TrimSpace s = s" and "CHR '','' \<notin> set s" and "CHR ''='' \<notin> set s"
proof -
  show "TrimSpace s = s"
    using assms by (intro TrimSpace_id) (auto simp: plain_text_def ascii_str_def list_all_iff)
  show "CHR '','' \<notin> set s" "CHR ''='' \<notin> set s"
    using assms by (auto simp: plain_text_def list_all_iff)
qed

lemma plain_text_append: "plain_text s \<Longrightarrow> plain_text t \<Longrightarrow> plain_text (s @ t)"
  by (simp add: plain_text_def)

lemma TrimSpace_peer_decl:
  assumes "plain_text a" and "plain_text b"
  shows "TrimSpace (peer_decl (a, b)) = peer_decl (a, b)"
  using assms
  by (intro TrimSpace_id) (auto simp: peer_decl_def plain_text_def ascii_str_def list_all_iff IsSpace_def byte_val_def)

lemma parsePeerEntry_decl:
  assumes "plain_text a" and "plain_text b"
  shows "parsePeerEntry (peer_decl (a, b)) = (a, b)"
  using plain_text_props [OF assms(1)] plain_text_props [OF assms(2)]
  by (simp add: parsePeerEntry_def peer_decl_def SplitN2_append)

lemma add_peer_entry_decl:
  assumes "plain_text a" and "plain_text b"
  shows "add_peer_entry (peer_decl (a, b)) m = AList.update a b m"
proof -
  have "peer_decl (a, b) \<noteq> []" by (simp add: peer_decl_def)
  with assms TrimSpace_peer_decl [OF assms] parsePeerEntry_decl [OF assms] show ?thesis
    by (simp add: add_peer_entry_def plain_text_not_Nil)
qed

lemma fold_add_decl:
  "\<forall>d \<in> set ds. plain_text (fst d) \<and> plain_text (snd d) \<Longrightarrow>
   map_of (fold add_peer_entry (map peer_decl ds) m) = map_of m ++ map_of (rev ds)"
proof (induction ds arbitrary: m)
  case (Cons d ds)
  obtain a b where "d = (a, b)" by (cases d)
  with Cons show ?case by (simp add: add_peer_entry_decl update_conv')
qed simp

lemma peer_decl_no_comma:
  "plain_text (fst d) \<Longrightarrow> plain_text (snd d) \<Longrightarrow> CHR '','' \<notin> set (peer_decl d)"
  using plain_text_props(2) by (auto simp: peer_decl_def)

lemma peers_ok_update: "peers_ok m \<Longrightarrow> a \<noteq> [] \<Longrightarrow> b \<noteq> [] \<Longrightarrow> peers_ok (AList.update a b m)"
proof -
  assume "peers_ok m" "a \<noteq> []" "b \<noteq> []"
  then have "list_all (\<lambda>p. fst p \<noteq> [] \<and> snd p \<noteq> []) (AList.update a b m)"
    by (induction m) (auto simp: peers_ok_def gomap_ok_def)
  with \<open>peers_ok m\<close> show ?thesis by (simp add: peers_ok_def)
qed

lemma add_peer_entry_ok: "peers_ok m \<Longrightarrow> peers_ok (add_peer_entry e m)"
  by (simp add: add_peer_entry_def Let_def peers_ok_update split: prod.splits)

lemma fold_add_peer_ok: "peers_ok m \<Longrightarrow> peers_ok (fold add_peer_entry es m)"
  by (induction es arbitrary: m) (simp_all add: add_peer_entry_ok)

lemma peers_ok_Nil [simp]: "peers_ok []"
  by (simp add: peers_ok_def gomap_ok_def)

lemma GetPeers_ok: "peers_ok (GetPeers c)"
  by (simp add: GetPeers_def fold_add_peer_ok)

lemma GetPeers_decls:
  assumes "\<forall>d \<in> set ds. plain_text (fst d) \<and> plain_text (snd d)"
    and "cf_InitialPeers c = join_with CHR '','' (map peer_decl ds)"
  shows "map_of (GetPeers c) = map_of (rev ds)"
proof (cases ds)
  case Nil
  with assms show ?thesis by (simp add: GetPeers_def)
next
  case (Cons d ds')
  have "Split CHR '','' (cf_InitialPeers c) = map peer_decl ds"
    unfolding assms(2) using assms(1) Cons peer_decl_no_comma by (intro Split_join_with) auto
  moreover have "cf_InitialPeers c \<noteq> []"
    unfolding assms(2) Cons by (cases ds') (simp_all add: peer_decl_def)
  ultimately show ?thesis using fold_add_decl [OF assms(1), of "[]"] by (simp add: GetPeers_def)
qed

section \<open>Properties\<close>

text \<open>Whatever the peer list holds, the parsed peers form a map in which no node identifier and no address
  is empty.\<close>

theorem GetPeers_wellformed:
  "gomap_ok (GetPeers c) \<and> [] \<notin> dom (map_of (GetPeers c)) \<and> [] \<notin> ran (map_of (GetPeers c))"
  using GetPeers_ok [of c]
  by (auto simp: peers_ok_def list_all_iff ran_def dest!: map_of_SomeD)

end
