(* ===== verification/Go_JSON.thy ===== *)
theory Go_JSON
  imports Go_Strings
begin

text \<open>
  The part of \<open>encoding/json\<close> the repository relies on, at the level of bytes: the compact
  encoder with its HTML-safe escaping, the scanner and value decoder (\<open>Unmarshal\<close> and the
  streaming \<open>Decoder\<close>), and the matching of object keys against struct fields. JSON values are
  a datatype; a number keeps its literal text, as the decoder does.

  The parser carries the nesting budget of the Go scanner (\<open>maxNestingDepth\<close>, 10000) and a
  fuel that every step spends. At most two steps are made per byte, so twice the length of the
  input is enough fuel: \<open>parse_fuel\<close> shows that more never changes the result.
\<close>

datatype json =
    JNull
  | JBool bool
  | JNum string
  | JStr string
  | JArr "json list"
  | JObj "(string \<times> json) list"

section \<open>Encoder\<close>

definition quote_char :: char where "quote_char = CHR 0x22"
definition backslash :: char where "backslash = CHR 0x5C"

definition hex_char :: "nat \<Rightarrow> char" where
  "hex_char d = (if d < 10 then char_of (48 + d) else char_of (87 + d))"

definition u_escape :: "nat \<Rightarrow> string" where
  "u_escape r =
     [backslash, CHR ''u'', hex_char (r div 4096 mod 16), hex_char (r div 256 mod 16),
      hex_char (r div 16 mod 16), hex_char (r mod 16)]"

definition esc_ascii :: "char \<Rightarrow> string" where
  "esc_ascii c =
     (let b = byte_val c in
      if b = 34 \<or> b = 92 then [backslash, c]
      else if b = 8 then [backslash, CHR ''b'']
      else if b = 12 then [backslash, CHR ''f'']
      else if b = 10 then [backslash, CHR ''n'']
      else if b = 13 then [backslash, CHR ''r'']
      else if b = 9 then [backslash, CHR ''t'']
      else if b < 32 \<or> c = CHR ''<'' \<or> c = CHR ''>'' \<or> c = CHR ''&'' then u_escape b
      else [c])"

text \<open>One rune with the bytes it was decoded from, as \<open>appendString\<close> writes it.\<close>

definition esc_rune :: "nat \<times> string \<Rightarrow> string" where
  "esc_rune p =
     (let (r, bs) = p in
      if r < 0x80 then concat (map esc_ascii bs)
      else if r = RuneError \<and> length bs = 1 then u_escape RuneError
      else if r = 0x2028 \<or> r = 0x2029 then u_escape r
      else bs)"

definition json_quote :: "string \<Rightarrow> string" where
  "json_quote s = quote_char # concat (map esc_rune (runes s)) @ [quote_char]"

lemma size_member [termination_simp]:
  "kv \<in> set kvs \<Longrightarrow> size (snd kv) < Suc (size_list (size_prod (\<lambda>_. 0) size) kvs)"
  by (induction kvs) auto

fun json_text :: "json \<Rightarrow> string" where
  "json_text JNull = ''null''"
| "json_text (JBool b) = (if b then ''true'' else ''false'')"
| "json_text (JNum l) = l"
| "json_text (JStr s) = json_quote s"
| "json_text (JArr vs) = CHR ''['' # join_with (CHR '','') (map json_text vs) @ '']''"
| "json_text (JObj kvs) =
     CHR ''{'' # join_with (CHR '','')
       (map (\<lambda>kv. json_quote (fst kv) @ CHR '':'' # json_text (snd kv)) kvs) @ ''}''"

section \<open>Scanner and decoder\<close>

definition is_ws :: "char \<Rightarrow> bool" where
  "is_ws c \<longleftrightarrow> c = CHR '' '' \<or> byte_val c = 9 \<or> byte_val c = 10 \<or> byte_val c = 13"

definition skip_ws :: "string \<Rightarrow> string" where
  "skip_ws s = dropWhile is_ws s"

definition begins_with :: "char \<Rightarrow> string \<Rightarrow> bool" where
  "begins_with c s \<longleftrightarrow> s \<noteq> [] \<and> hd s = c"

definition hex_val :: "char \<Rightarrow> nat option" where
  "hex_val c =
     (let b = byte_val c in
      if 48 \<le> b \<and> b \<le> 57 then Some (b - 48)
      else if 97 \<le> b \<and> b \<le> 102 then Some (b - 87)
      else if 65 \<le> b \<and> b \<le> 70 then Some (b - 55)
      else None)"

fun hex4 :: "string \<Rightarrow> nat option" where
  "hex4 (a # b # c # d # s) =
     (case (hex_val a, hex_val b, hex_val c, hex_val d) of
        (Some w, Some x, Some y, Some z) \<Rightarrow> Some (w * 4096 + x * 256 + y * 16 + z)
      | _ \<Rightarrow> None)"
| "hex4 s = None"

definition simple_escape :: "char \<Rightarrow> char option" where
  "simple_escape e =
     (if e = quote_char \<or> e = backslash \<or> e = CHR ''/'' then Some e
      else if e = CHR ''b'' then Some (CHR 0x08)
      else if e = CHR ''f'' then Some (CHR 0x0C)
      else if e = CHR ''n'' then Some (CHR 0x0A)
      else if e = CHR ''r'' then Some (CHR 0x0D)
      else if e = CHR ''t'' then Some (CHR 0x09)
      else None)"

text \<open>The low half of a surrogate pair, when the text goes on with one.\<close>

definition low_surrogate :: "string \<Rightarrow> nat option" where
  "low_surrogate s =
     (if take 2 s = [backslash, CHR ''u'']
      then (case hex4 (drop 2 s) of
              Some l \<Rightarrow> if 0xDC00 \<le> l \<and> l \<le> 0xDFFF then Some l else None
            | None \<Rightarrow> None)
      else None)"

text \<open>A string literal after its opening quote: its value and the rest of the input.\<close>

fun parse_str :: "string \<Rightarrow> (string \<times> string) option" where
  "parse_str [] = None"
| "parse_str (c # s) =
     (if c = quote_char then Some ([], s)
      else if c = backslash then
        (case s of
           [] \<Rightarrow> None
         | e # s1 \<Rightarrow>
             (case simple_escape e of
                Some b \<Rightarrow> map_option (apfst ((#) b)) (parse_str s1)
              | None \<Rightarrow>
                  if e \<noteq> CHR ''u'' then None
                  else (case hex4 s1 of
                          None \<Rightarrow> None
                        | Some u \<Rightarrow>
                            if 0xD800 \<le> u \<and> u \<le> 0xDFFF then
                              (case (if u \<le> 0xDBFF then low_surrogate (drop 4 s1) else None) of
                                 Some l \<Rightarrow>
                                   map_option (apfst ((@) (encode_rune
                                       (0x10000 + (u - 0xD800) * 1024 + (l - 0xDC00)))))
                                     (parse_str (drop 10 s1))
                               | None \<Rightarrow>
                                   map_option (apfst ((@) (encode_rune RuneError)))
                                     (parse_str (drop 4 s1)))
                            else map_option (apfst ((@) (encode_rune u))) (parse_str (drop 4 s1)))))
      else if byte_val c < 32 then None
      else if byte_val c < 0x80 then map_option (apfst ((#) c)) (parse_str s)
      else (let (r, n) = decode_rune (c # s)
            in map_option (apfst ((@) (encode_rune r))) (parse_str (drop (n - 1) s))))"

text \<open>Number literals: sign, integer part, fraction and exponent.\<close>

definition take_digits :: "string \<Rightarrow> string \<times> string" where
  "take_digits s = (takeWhile is_digit s, dropWhile is_digit s)"

definition num_exp :: "string \<Rightarrow> (string \<times> string) option" where
  "num_exp s =
     (case s of
        [] \<Rightarrow> Some ([], [])
      | c # r \<Rightarrow>
          if c = CHR ''e'' \<or> c = CHR ''E'' then
            (let sg = (if begins_with (CHR ''+'') r \<or> begins_with (CHR ''-'') r then [hd r] else []);
                 (ds, r2) = take_digits (drop (length sg) r)
             in if ds = [] then None else Some (c # sg @ ds, r2))
          else Some ([], s))"

definition num_frac :: "string \<Rightarrow> (string \<times> string) option" where
  "num_frac s =
     (if begins_with (CHR ''.'') s then
        (let (ds, r) = take_digits (tl s) in if ds = [] then None else Some (CHR ''.'' # ds, r))
      else Some ([], s))"

definition num_int :: "string \<Rightarrow> (string \<times> string) option" where
  "num_int s =
     (if begins_with (CHR ''0'') s then Some (''0'', tl s)
      else (let (ds, r) = take_digits s in if ds = [] then None else Some (ds, r)))"

definition parse_num :: "string \<Rightarrow> (json \<times> string) option" where
  "parse_num s =
     (let sg = (if begins_with (CHR ''-'') s then ''-'' else [])
      in case num_int (drop (length sg) s) of
           None \<Rightarrow> None
         | Some (i, r1) \<Rightarrow>
             (case num_frac r1 of
                None \<Rightarrow> None
              | Some (f, r2) \<Rightarrow>
                  (case num_exp r2 of
                     None \<Rightarrow> None
                   | Some (e, r3) \<Rightarrow> Some (JNum (sg @ i @ f @ e), r3))))"

definition parse_lit :: "string \<Rightarrow> (json \<times> string) option" where
  "parse_lit s =
     (if take 4 s = ''null'' then Some (JNull, drop 4 s)
      else if take 4 s = ''true'' then Some (JBool True, drop 4 s)
      else if take 5 s = ''false'' then Some (JBool False, drop 5 s)
      else parse_num s)"

fun parse_val :: "nat \<Rightarrow> nat \<Rightarrow> string \<Rightarrow> (json \<times> string) option"
  and parse_elems :: "nat \<Rightarrow> nat \<Rightarrow> string \<Rightarrow> (json list \<times> string) option"
  and parse_members :: "nat \<Rightarrow> nat \<Rightarrow> string \<Rightarrow> ((string \<times> json) list \<times> string) option"
where
  "parse_val d 0 s = None"
| "parse_val d (Suc n) s =
     (case skip_ws s of
        [] \<Rightarrow> None
      | c # r \<Rightarrow>
          if c = CHR ''{'' then
            (if d = 0 then None
             else if begins_with (CHR ''}'') (skip_ws r) then Some (JObj [], tl (skip_ws r))
             else map_option (apfst JObj) (parse_members (d - 1) n r))
          else if c = CHR ''['' then
            (if d = 0 then None
             else if begins_with (CHR '']'') (skip_ws r) then Some (JArr [], tl (skip_ws r))
             else map_option (apfst JArr) (parse_elems (d - 1) n r))
          else if c = quote_char then map_option (apfst JStr) (parse_str r)
          else parse_lit (c # r))"
| "parse_elems d 0 s = None"
| "parse_elems d (Suc n) s =
     (case parse_val d n s of
        None \<Rightarrow> None
      | Some (v, r) \<Rightarrow>
          (case skip_ws r of
             [] \<Rightarrow> None
           | c # r2 \<Rightarrow>
               if c = CHR '','' then map_option (apfst ((#) v)) (parse_elems d n r2)
               else if c = CHR '']'' then Some ([v], r2)
               else None))"
| "parse_members d 0 s = None"
| "parse_members d (Suc n) s =
     (case skip_ws s of
        [] \<Rightarrow> None
      | q # r0 \<Rightarrow>
          if q \<noteq> quote_char then None
          else
            (case parse_str r0 of
               None \<Rightarrow> None
             | Some (k, r1) \<Rightarrow>
                 if \<not> begins_with (CHR '':'') (skip_ws r1) then None
                 else
                   (case parse_val d n (tl (skip_ws r1)) of
                      None \<Rightarrow> None
                    | Some (v, r) \<Rightarrow>
                        (case skip_ws r of
                           [] \<Rightarrow> None
                         | c # r2 \<Rightarrow>
                             if c = CHR '','' then map_option (apfst ((#) (k, v))) (parse_members d n r2)
                             else if c = CHR ''}'' then Some ([(k, v)], r2)
                             else None))))"

definition maxNestingDepth :: nat where
  "maxNestingDepth = 10000"

text \<open>\<open>Decoder.Decode\<close> on a byte stream: one value and the unread rest.\<close>

definition json_decode :: "string \<Rightarrow> (json \<times> string) option" where
  "json_decode s = parse_val maxNestingDepth (Suc (2 * length s)) s"

text \<open>\<open>Decoder.More\<close>.\<close>

definition json_more :: "string \<Rightarrow> bool" where
  "json_more s \<longleftrightarrow>
     (case skip_ws s of [] \<Rightarrow> False | c # _ \<Rightarrow> c \<noteq> CHR '']'' \<and> c \<noteq> CHR ''}'')"

text \<open>\<open>json.Unmarshal\<close> up to the value tree: the whole input must be one value.\<close>

definition json_unmarshal :: "string \<Rightarrow> json option" where
  "json_unmarshal s =
     (case json_decode s of
        None \<Rightarrow> None
      | Some (v, r) \<Rightarrow> if skip_ws r = [] then Some v else None)"

section \<open>Struct fields\<close>

text \<open>
  Keys match a field exactly or up to case folding; U+017F and U+212A are the only
  non-ASCII runes that fold to an ASCII letter.
\<close>

definition fold_rune :: "nat \<Rightarrow> nat" where
  "fold_rune r =
     (if 97 \<le> r \<and> r \<le> 122 then r - 32 else if r = 0x17F then 83 else if r = 0x212A then 75 else r)"

definition fold_name :: "string \<Rightarrow> nat list" where
  "fold_name s = map (fold_rune \<circ> fst) (runes s)"

definition field_match :: "string \<Rightarrow> string \<Rightarrow> bool" where
  "field_match field key \<longleftrightarrow> key = field \<or> fold_name key = fold_name field"

text \<open>Decoding into a \<open>string\<close> and into a \<open>uint8\<close> that currently hold a value; \<open>None\<close> is a type error.\<close>

fun into_string :: "string \<Rightarrow> json \<Rightarrow> string option" where
  "into_string cur (JStr s) = Some s"
| "into_string cur JNull = Some cur"
| "into_string cur _ = None"

fun into_uint8 :: "8 word \<Rightarrow> json \<Rightarrow> (8 word) option" where
  "into_uint8 cur (JNum l) =
     (case ParseUint l of
        Inl _ \<Rightarrow> None
      | Inr n \<Rightarrow> if unat n < 256 then Some (of_nat (unat n)) else None)"
| "into_uint8 cur JNull = Some cur"
| "into_uint8 cur _ = None"

section \<open>The values the encoder writes\<close>

text \<open>
  Values whose text reads back to themselves: valid UTF-8 strings and non-negative integer
  literals without leading zeros.
\<close>

definition int_lit :: "string \<Rightarrow> bool" where
  "int_lit l \<longleftrightarrow> l \<noteq> [] \<and> list_all is_digit l \<and> (hd l = CHR ''0'' \<longrightarrow> l = ''0'')"

fun json_ok :: "json \<Rightarrow> bool" where
  "json_ok (JNum l) = int_lit l"
| "json_ok (JStr s) = valid_utf8 s"
| "json_ok (JArr vs) = list_all json_ok vs"
| "json_ok (JObj kvs) = list_all (\<lambda>kv. valid_utf8 (fst kv) \<and> json_ok (snd kv)) kvs"
| "json_ok _ = True"

fun json_depth :: "json \<Rightarrow> nat" where
  "json_depth (JArr vs) = Suc (foldr max (map json_depth vs) 0)"
| "json_depth (JObj kvs) = Suc (foldr max (map (\<lambda>kv. json_depth (snd kv)) kvs) 0)"
| "json_depth _ = 0"

definition num_end :: "string \<Rightarrow> bool" where
  "num_end r \<longleftrightarrow>
     (case r of
        [] \<Rightarrow> True
      | c # _ \<Rightarrow> \<not> is_digit c \<and> c \<noteq> CHR ''.'' \<and> c \<noteq> CHR ''e'' \<and> c \<noteq> CHR ''E'')"

text \<open>The text of one object member, and what it means for a value to read back.\<close>

definition member_text :: "string \<times> json \<Rightarrow> string" where
  "member_text kv = json_quote (fst kv) @ CHR '':'' # json_text (snd kv)"

definition reads_back :: "json \<Rightarrow> bool" where
  "reads_back v \<longleftrightarrow>
     (\<forall>d n r. json_depth v \<le> d \<longrightarrow> length (json_text v) \<le> n \<longrightarrow> num_end r
        \<longrightarrow> parse_val d n (json_text v @ r) = Some (v, r))"

section \<open>Lemmas: string literals\<close>

lemma byte_val_of_nat [simp]: "n < 256 \<Longrightarrow> byte_val (char_of n) = n"
  by (simp add: byte_val_def)

lemma byte_val_consts [simp]: "byte_val quote_char = 34" "byte_val backslash = 92"
  by (simp_all add: quote_char_def backslash_def byte_val_def)

lemma quote_neq_backslash [simp]: "quote_char \<noteq> backslash" "backslash \<noteq> quote_char"
  by (simp_all add: quote_char_def backslash_def)

lemma hex_val_hex_char [simp]: "d < 16 \<Longrightarrow> hex_val (hex_char d) = Some d"
  by (auto simp: hex_val_def hex_char_def Let_def)

lemma hex4_u_escape:
  assumes "r < 65536"
  shows "hex4 (drop 2 (u_escape r) @ t) = Some r"
proof -
  have d: "r div 256 = r div 16 div 16" "r div 4096 = r div 16 div 16 div 16"
    by (simp_all flip: div_mult2_eq)
  have lt: "r div 4096 < 16" using assms by (simp add: less_mult_imp_div_less)
  then have m: "r div 4096 mod 16 = r div 4096" by simp
  have "r div 4096 * 16 + r div 256 mod 16 = r div 256" "r div 256 * 16 + r div 16 mod 16 = r div 16"
    "r div 16 * 16 + r mod 16 = r"
    unfolding d by (rule div_mult_mod_eq)+
  then have "r div 4096 * 4096 + r div 256 mod 16 * 256 + r div 16 mod 16 * 16 + r mod 16 = r"
    by linarith
  with m lt show ?thesis by (simp add: u_escape_def)
qed

lemma byte_val_lit_iff:
  "byte_val c = 8 \<longleftrightarrow> c = CHR 0x08" "byte_val c = 12 \<longleftrightarrow> c = CHR 0x0C"
  "byte_val c = 10 \<longleftrightarrow> c = CHR 0x0A" "byte_val c = 13 \<longleftrightarrow> c = CHR 0x0D"
  "byte_val c = 9 \<longleftrightarrow> c = CHR 0x09"
  using byte_val_inj [of c "CHR 0x08"] byte_val_inj [of c "CHR 0x0C"]
    byte_val_inj [of c "CHR 0x0A"] byte_val_inj [of c "CHR 0x0D"] byte_val_inj [of c "CHR 0x09"]
  by (simp_all add: byte_val_def)

lemma esc_control:
  "esc_ascii (CHR 0x08) = [backslash, CHR ''b''] \<and> simple_escape (CHR ''b'') = Some (CHR 0x08)"
  "esc_ascii (CHR 0x0C) = [backslash, CHR ''f''] \<and> simple_escape (CHR ''f'') = Some (CHR 0x0C)"
  "esc_ascii (CHR 0x0A) = [backslash, CHR ''n''] \<and> simple_escape (CHR ''n'') = Some (CHR 0x0A)"
  "esc_ascii (CHR 0x0D) = [backslash, CHR ''r''] \<and> simple_escape (CHR ''r'') = Some (CHR 0x0D)"
  "esc_ascii (CHR 0x09) = [backslash, CHR ''t''] \<and> simple_escape (CHR ''t'') = Some (CHR 0x09)"
  by (simp_all add: esc_ascii_def simple_escape_def byte_val_def quote_char_def backslash_def)

lemma parse_str_quote [simp]: "parse_str (quote_char # t) = Some ([], t)"
  by simp

lemma simple_escape_u [simp]: "simple_escape (CHR ''u'') = None"
  by (simp add: simple_escape_def quote_char_def backslash_def)

lemma parse_str_u_escape:
  assumes "r < 0xD800 \<or> 0xDFFF < r \<and> r < 0x10000"
  shows "parse_str (u_escape r @ t) = map_option (apfst ((@) (encode_rune r))) (parse_str t)"
proof -
  obtain a b c d where u: "u_escape r = backslash # CHR ''u'' # [a, b, c, d]"
    by (simp add: u_escape_def)
  have "hex4 ([a, b, c, d] @ t) = Some r"
    using hex4_u_escape [of r t] assms u by auto
  with u assms show ?thesis by (auto simp del: hex4.simps)
qed

lemma char_neq_byte: "byte_val c \<noteq> byte_val d \<Longrightarrow> c \<noteq> d"
  by auto

lemma parse_str_plain:
  "32 \<le> byte_val c \<Longrightarrow> byte_val c < 128 \<Longrightarrow> byte_val c \<noteq> 34 \<Longrightarrow> byte_val c \<noteq> 92 \<Longrightarrow>
   parse_str (c # t) = map_option (apfst ((#) c)) (parse_str t)"
  using char_neq_byte [of c quote_char] char_neq_byte [of c backslash] by simp

lemma parse_str_simple_escape:
  "simple_escape e = Some b \<Longrightarrow>
   parse_str (backslash # e # t) = map_option (apfst ((#) b)) (parse_str t)"
  by simp

lemma append_single [simp]: "(@) [c] = (#) c"
  by auto

lemma parse_str_esc_ascii:
  assumes "byte_val c < 0x80"
  shows "parse_str (esc_ascii c @ t) = map_option (apfst ((#) c)) (parse_str t)"
proof -
  consider (q) "byte_val c = 34 \<or> byte_val c = 92"
    | (e) "byte_val c \<in> {8, 12, 10, 13, 9}"
    | (u) "byte_val c \<notin> {34, 92, 8, 12, 10, 13, 9}"
          "byte_val c < 32 \<or> c = CHR ''<'' \<or> c = CHR ''>'' \<or> c = CHR ''&''"
    | (p) "32 \<le> byte_val c" "byte_val c \<noteq> 34" "byte_val c \<noteq> 92"
          "c \<noteq> CHR ''<''" "c \<noteq> CHR ''>''" "c \<noteq> CHR ''&''"
    by fastforce
  then show ?thesis
  proof cases
    case q
    then have "c = quote_char \<or> c = backslash"
      using byte_val_inj [of c quote_char] byte_val_inj [of c backslash] by auto
    then have "simple_escape c = Some c" by (auto simp: simple_escape_def)
    moreover have "esc_ascii c = [backslash, c]" using q by (simp add: esc_ascii_def Let_def)
    ultimately show ?thesis using parse_str_simple_escape [of c c t] by simp
  next
    case e
    then have "c = CHR 0x08 \<or> c = CHR 0x0C \<or> c = CHR 0x0A \<or> c = CHR 0x0D \<or> c = CHR 0x09"
      by (auto simp: byte_val_lit_iff)
    then have "\<exists>x. esc_ascii c = [backslash, x] \<and> simple_escape x = Some c"
      using esc_control by blast
    then obtain x where "esc_ascii c = [backslash, x]" "simple_escape x = Some c" by blast
    then show ?thesis using parse_str_simple_escape [of x c t] by simp
  next
    case u
    then have "esc_ascii c = u_escape (byte_val c)" by (auto simp: esc_ascii_def Let_def)
    moreover have "encode_rune (byte_val c) = [c]" using assms by (simp add: encode_rune_def)
    ultimately show ?thesis using parse_str_u_escape [of "byte_val c" t] assms by simp
  next
    case p
    then have "esc_ascii c = [c]" by (auto simp: esc_ascii_def Let_def)
    then show ?thesis using p assms parse_str_plain [of c t] by simp
  qed
qed

lemma decode_rune_high: "0x80 \<le> byte_val c \<Longrightarrow> decode_rune (c # s) = decode_multi (byte_val c) s"
  by simp

lemma parse_str_high:
  assumes "0x80 \<le> byte_val c" and "decode_multi (byte_val c) s = (r, n)"
  shows "parse_str (c # s) = map_option (apfst ((@) (encode_rune r))) (parse_str (drop (n - 1) s))"
  using assms char_neq_byte [of c quote_char] char_neq_byte [of c backslash]
  by simp

lemma parse_str_esc_multi:
  assumes c: "0x80 \<le> byte_val c" and d: "decode_multi (byte_val c) s = (r, n)" and n: "n \<noteq> 1"
  shows "parse_str (esc_rune (r, take n (c # s)) @ t)
       = map_option (apfst ((@) (take n (c # s)))) (parse_str t)"
proof -
  note v = decode_multi_valid [OF d n]
  have len: "length (take n (c # s)) = n" using v(4) by simp
  show ?thesis
  proof (cases "r = 0x2028 \<or> r = 0x2029")
    case True
    then have "esc_rune (r, take n (c # s)) = u_escape r"
      using len by (auto simp: esc_rune_def RuneError_def)
    then show ?thesis using True parse_str_u_escape [of r t] v(1) by auto
  next
    case False
    then have e: "esc_rune (r, take n (c # s)) = take n (c # s)"
      using v(2,3) len by (simp add: esc_rune_def)
    have split: "take n (c # s) @ t = c # take (n - 1) s @ t"
      using v(3) by (cases n) auto
    have "drop (n - 1) (take (n - 1) s @ t) = t" using v(4) by simp
    with parse_str_high [OF c v(5) [of t]] show ?thesis
      unfolding e split by (simp add: v(1))
  qed
qed

lemma runes_Cons_ascii: "byte_val c < 0x80 \<Longrightarrow> runes (c # s) = (byte_val c, [c]) # runes s"
  by simp

lemma runes_Cons_multi:
  "0x80 \<le> byte_val c \<Longrightarrow> decode_multi (byte_val c) s = (r, n) \<Longrightarrow>
   runes (c # s) = (r, take n (c # s)) # runes (drop (n - 1) s)"
  by simp

lemma parse_str_json_quote:
  "valid_utf8 s \<Longrightarrow> parse_str (concat (map esc_rune (runes s)) @ quote_char # rest) = Some (s, rest)"
proof (induction s rule: runes.induct)
  case 1
  then show ?case by simp
next
  case (2 c s)
  show ?case
  proof (cases "byte_val c < 0x80")
    case True
    with 2 have "parse_str (concat (map esc_rune (runes s)) @ quote_char # rest) = Some (s, rest)"
      by (simp add: valid_utf8_def runes_Cons_ascii del: runes.simps)
    moreover have "esc_rune (byte_val c, [c]) = esc_ascii c" using True by (simp add: esc_rune_def)
    ultimately show ?thesis using True parse_str_esc_ascii [of c]
      by (simp add: runes_Cons_ascii del: runes.simps parse_str.simps)
  next
    case False
    then have c: "0x80 \<le> byte_val c" by simp
    obtain r n where d: "decode_multi (byte_val c) s = (r, n)"
      by (cases "decode_multi (byte_val c) s")
    note rs = runes_Cons_multi [OF c d]
    have w: "1 \<le> n" "n \<le> Suc (length s)" using decode_multi_width [OF d] by auto
    have "n \<noteq> 1"
    proof
      assume "n = 1"
      with d have "r = RuneError"
        by (auto simp: decode_multi_def split: option.splits prod.splits list.splits if_splits)
      with \<open>n = 1\<close> 2(2) rs show False by (simp add: valid_utf8_def del: runes.simps)
    qed
    have "valid_utf8 (drop (n - 1) s)" using 2(2) rs by (simp add: valid_utf8_def del: runes.simps)
    with 2(1) c d have "parse_str (concat (map esc_rune (runes (drop (n - 1) s))) @ quote_char # rest)
        = Some (drop (n - 1) s, rest)"
      by (simp del: parse_str.simps)
    moreover have "take n (c # s) @ drop (n - 1) s = c # s" using w by (cases n) auto
    ultimately show ?thesis
      unfolding rs using parse_str_esc_multi [OF c d \<open>n \<noteq> 1\<close>]
      by (simp del: runes.simps parse_str.simps)
  qed
qed

lemma ascii_valid_utf8 [simp]: "ascii_str s \<Longrightarrow> valid_utf8 s"
  by (auto simp: valid_utf8_def runes_ascii list_all_iff RuneError_def ascii_str_def)


section \<open>Lemmas: values\<close>

lemma foldr_max_le_iff: "foldr max xs (0 :: nat) \<le> d \<longleftrightarrow> (\<forall>x \<in> set xs. x \<le> d)"
  by (induction xs) auto

lemma take_digits_append:
  "list_all is_digit l \<Longrightarrow> num_end r \<Longrightarrow> take_digits (l @ r) = (l, r)"
  by (cases r) (auto simp: take_digits_def num_end_def takeWhile_append dropWhile_append list_all_iff)

lemma num_end_frac_exp: "num_end r \<Longrightarrow> num_frac r = Some ([], r) \<and> num_exp r = Some ([], r)"
  by (cases r) (auto simp: num_end_def num_frac_def num_exp_def begins_with_def)

lemma is_digit_lits [simp]: "is_digit (CHR ''0'')" "\<not> is_digit (CHR ''-'')" "\<not> is_digit (CHR ''.'')"
  "\<not> is_digit (CHR '','')" "\<not> is_digit (CHR '']'')" "\<not> is_digit (CHR ''}'')"
  "\<not> is_digit (CHR 0x0A)" "\<not> is_digit (CHR ''n'')" "\<not> is_digit (CHR ''t'')"
  "\<not> is_digit (CHR ''f'')" "\<not> is_digit (CHR ''{'')" "\<not> is_digit (CHR ''['')" "\<not> is_digit quote_char"
  by (simp_all add: is_digit_def byte_val_def quote_char_def)

lemma parse_num_int_lit:
  assumes "int_lit l" and "num_end r"
  shows "parse_num (l @ r) = Some (JNum l, r)"
proof -
  from assms(1) obtain c l' where l: "l = c # l'" "is_digit c" by (cases l) (auto simp: int_lit_def)
  then have "c \<noteq> CHR ''-''" by auto
  moreover have "num_int (l @ r) = Some (l, r)"
    using assms l take_digits_append [of l r]
    by (auto simp: num_int_def begins_with_def int_lit_def)
  ultimately show ?thesis
    using l num_end_frac_exp [OF assms(2)] by (simp add: parse_num_def begins_with_def)
qed

lemma digit_not_lit:
  assumes "is_digit c"
  shows "c \<noteq> CHR ''n''" "c \<noteq> CHR ''t''" "c \<noteq> CHR ''f''" "c \<noteq> CHR ''{''" "c \<noteq> CHR ''[''"
    "c \<noteq> quote_char" "c \<noteq> CHR '']''" "\<not> is_ws c"
  using assms by (auto simp: is_ws_def is_digit_def byte_val_def quote_char_def)

lemma parse_lit_int:
  assumes "int_lit l" and "num_end r"
  shows "parse_lit (l @ r) = Some (JNum l, r)"
proof -
  from assms(1) obtain c l' where l: "l = c # l'" "is_digit c" by (cases l) (auto simp: int_lit_def)
  then show ?thesis
    using parse_num_int_lit [OF assms] digit_not_lit [OF l(2)] by (simp add: parse_lit_def)
qed

lemma is_ws_lits [simp]: "\<not> is_ws (CHR ''['')" "\<not> is_ws (CHR ''{'')" "\<not> is_ws quote_char"
  "\<not> is_ws (CHR ''n'')" "\<not> is_ws (CHR ''t'')" "\<not> is_ws (CHR ''f'')" "\<not> is_ws (CHR '','')"
  "\<not> is_ws (CHR '']'')" "\<not> is_ws (CHR ''}'')" "\<not> is_ws (CHR '':'')" "is_ws (CHR 0x0A)"
  by (simp_all add: is_ws_def byte_val_def quote_char_def)

lemma quote_neq_lits [simp]: "quote_char \<noteq> CHR '']''" "quote_char \<noteq> CHR ''}''"
  "quote_char \<noteq> CHR ''{''" "quote_char \<noteq> CHR ''[''" "CHR ''n'' \<noteq> quote_char"
  "CHR ''t'' \<noteq> quote_char" "CHR ''f'' \<noteq> quote_char" "CHR '']'' \<noteq> quote_char" "CHR ''}'' \<noteq> quote_char"
  by (simp_all add: quote_char_def)

lemma json_text_head:
  assumes "json_ok v"
  shows "\<exists>c t. json_text v = c # t \<and> \<not> is_ws c \<and> c \<noteq> CHR '']''"
proof (cases v)
  case (JNum l)
  with assms obtain c l' where "l = c # l'" "is_digit c" by (cases l) (auto simp: int_lit_def)
  with JNum digit_not_lit [of c] show ?thesis by simp
qed (auto simp: json_quote_def)

lemma skip_ws_Cons: "skip_ws (c # s) = (if is_ws c then skip_ws s else c # s)"
  by (simp add: skip_ws_def)

lemma skip_ws_Nil [simp]: "skip_ws [] = []"
  by (simp add: skip_ws_def)

lemma skip_ws_json_text: "json_ok v \<Longrightarrow> skip_ws (json_text v @ r) = json_text v @ r"
  using json_text_head [of v] by (auto simp: skip_ws_Cons)

lemma num_end_lits [simp]: "num_end []" "num_end (CHR '','' # r)" "num_end (CHR '']'' # r)"
  "num_end (CHR ''}'' # r)" "num_end (CHR 0x0A # r)"
  by (simp_all add: num_end_def)

lemma parse_elems_text:
  assumes "vs \<noteq> []" and "\<forall>v \<in> set vs. reads_back v \<and> json_depth v \<le> d"
    and "length (join_with (CHR '','') (map json_text vs)) < n"
  shows "parse_elems d n (join_with (CHR '','') (map json_text vs) @ CHR '']'' # r) = Some (vs, r)"
  using assms
proof (induction vs arbitrary: n rule: list_nonempty_induct)
  case (single v)
  then obtain m where n: "n = Suc m" "length (json_text v) \<le> m" by (cases n) auto
  with single have "parse_val d m (json_text v @ CHR '']'' # r) = Some (v, CHR '']'' # r)"
    by (auto simp: reads_back_def)
  with n show ?case by (simp add: skip_ws_Cons)
next
  case (cons v vs)
  then obtain w ws where vs: "vs = w # ws" by (cases vs) auto
  let ?t = "join_with (CHR '','') (map json_text vs) @ CHR '']'' # r"
  from cons vs obtain m where n: "n = Suc m" "length (json_text v) \<le> m"
    "length (join_with (CHR '','') (map json_text vs)) < m" by (cases n) auto
  with cons have "parse_val d m (json_text v @ CHR '','' # ?t) = Some (v, CHR '','' # ?t)"
    by (auto simp: reads_back_def)
  moreover have "parse_elems d m ?t = Some (vs, r)" using cons n by simp
  ultimately show ?case using n vs by (simp add: skip_ws_Cons)
qed

lemma member_text_pair:
  "member_text (k, v) = quote_char # concat (map esc_rune (runes k)) @ quote_char # CHR '':'' # json_text v"
  by (simp add: member_text_def json_quote_def)

lemma parse_members_text:
  assumes "kvs \<noteq> []"
    and "\<forall>kv \<in> set kvs. valid_utf8 (fst kv) \<and> reads_back (snd kv) \<and> json_depth (snd kv) \<le> d"
    and "length (join_with (CHR '','') (map member_text kvs)) < n"
  shows "parse_members d n (join_with (CHR '','') (map member_text kvs) @ CHR ''}'' # r) = Some (kvs, r)"
  using assms
proof (induction kvs arbitrary: n rule: list_nonempty_induct)
  case (single kv)
  obtain k v where kv: "kv = (k, v)" by (cases kv)
  with single obtain m where n: "n = Suc m" "length (json_text v) \<le> m"
    by (cases n) (auto simp: member_text_pair)
  with single kv have "parse_val d m (json_text v @ CHR ''}'' # r) = Some (v, CHR ''}'' # r)"
    by (auto simp: reads_back_def)
  with n kv single show ?case
    by (simp add: skip_ws_Cons member_text_pair parse_str_json_quote begins_with_def)
next
  case (cons kv kvs)
  obtain k v where kv: "kv = (k, v)" by (cases kv)
  from cons obtain w ws where kvs: "kvs = w # ws" by (cases kvs) auto
  let ?t = "join_with (CHR '','') (map member_text kvs) @ CHR ''}'' # r"
  from cons kv kvs obtain m where n: "n = Suc m" "length (json_text v) \<le> m"
    "length (join_with (CHR '','') (map member_text kvs)) < m"
    by (cases n) (auto simp: member_text_pair)
  with cons kv have "parse_val d m (json_text v @ CHR '','' # ?t) = Some (v, CHR '','' # ?t)"
    by (auto simp: reads_back_def)
  moreover have "parse_members d m ?t = Some (kvs, r)" using cons n by simp
  ultimately show ?case using n kv kvs cons
    by (simp add: skip_ws_Cons member_text_pair parse_str_json_quote begins_with_def)
qed

lemma json_text_JObj:
  "json_text (JObj kvs) = CHR ''{'' # join_with (CHR '','') (map member_text kvs) @ ''}''"
  by (simp add: member_text_def [abs_def])

lemma join_with_head:
  "ps \<noteq> [] \<Longrightarrow> hd ps = c # p \<Longrightarrow> \<exists>t. join_with sep ps = c # t"
  by (cases ps; cases "tl ps") auto

lemma reads_back_JArr:
  assumes "json_ok (JArr vs)" and "\<And>v. v \<in> set vs \<Longrightarrow> reads_back v"
  shows "reads_back (JArr vs)"
  unfolding reads_back_def
proof (intro allI impI)
  fix d n r
  assume d: "json_depth (JArr vs) \<le> d" and n: "length (json_text (JArr vs)) \<le> n" and "num_end r"
  then obtain d' m where dm: "d = Suc d'" "n = Suc m" by (auto dest!: Suc_le_D)
  show "parse_val d n (json_text (JArr vs) @ r) = Some (JArr vs, r)"
  proof (cases "vs = []")
    case True
    with dm show ?thesis by (simp add: skip_ws_Cons begins_with_def)
  next
    case False
    then obtain v vs' where vs: "vs = v # vs'" by (cases vs) auto
    from assms vs obtain c t where "json_text v = c # t" "\<not> is_ws c" "c \<noteq> CHR '']''"
      using json_text_head [of v] by auto
    moreover from this vs obtain t' where "join_with (CHR '','') (map json_text vs) = c # t'"
      using join_with_head [of "map json_text vs" c t "CHR '',''"] by auto
    moreover have "parse_elems d' m (join_with (CHR '','') (map json_text vs) @ CHR '']'' # r) = Some (vs, r)"
      using assms d n dm False by (intro parse_elems_text) (auto simp: foldr_max_le_iff list_all_iff)
    ultimately show ?thesis using dm by (simp add: skip_ws_Cons begins_with_def)
  qed
qed

lemma reads_back_JObj:
  assumes "json_ok (JObj kvs)" and "\<And>kv. kv \<in> set kvs \<Longrightarrow> reads_back (snd kv)"
  shows "reads_back (JObj kvs)"
  unfolding reads_back_def json_text_JObj
proof (intro allI impI)
  fix d n r
  assume d: "json_depth (JObj kvs) \<le> d"
    and n: "length (CHR ''{'' # join_with (CHR '','') (map member_text kvs) @ ''}'') \<le> n" and "num_end r"
  then obtain d' m where dm: "d = Suc d'" "n = Suc m" by (auto dest!: Suc_le_D)
  show "parse_val d n ((CHR ''{'' # join_with (CHR '','') (map member_text kvs) @ ''}'') @ r) = Some (JObj kvs, r)"
  proof (cases "kvs = []")
    case True
    with dm show ?thesis by (simp add: skip_ws_Cons begins_with_def)
  next
    case False
    then obtain t' where "join_with (CHR '','') (map member_text kvs) = quote_char # t'"
      using join_with_head [of "map member_text kvs" quote_char _ "CHR '',''"]
      by (auto simp: hd_map member_text_def json_quote_def)
    moreover have "parse_members d' m (join_with (CHR '','') (map member_text kvs) @ CHR ''}'' # r) = Some (kvs, r)"
      using assms d n dm False by (intro parse_members_text) (auto simp: foldr_max_le_iff list_all_iff)
    ultimately show ?thesis using dm by (simp add: skip_ws_Cons begins_with_def)
  qed
qed

lemma parse_val_text: "json_ok v \<Longrightarrow> reads_back v"
proof (induction v rule: json_text.induct)
  case 1
  then show ?case by (auto simp: reads_back_def skip_ws_Cons parse_lit_def dest!: Suc_le_D)
next
  case (2 b)
  then show ?case by (auto simp: reads_back_def skip_ws_Cons parse_lit_def dest!: Suc_le_D)
next
  case (3 l)
  then obtain c l' where l: "l = c # l'" "is_digit c" by (cases l) (auto simp: int_lit_def)
  with 3 parse_lit_int [of l] digit_not_lit [OF l(2)] show ?case
    by (auto simp: reads_back_def skip_ws_Cons dest!: Suc_le_D)
next
  case (4 s)
  then show ?case
    by (auto simp: reads_back_def skip_ws_Cons json_quote_def parse_str_json_quote dest!: Suc_le_D)
next
  case (5 vs)
  then show ?case by (intro reads_back_JArr) (auto simp: list_all_iff)
next
  case (6 kvs)
  then show ?case by (intro reads_back_JObj) (auto simp: list_all_iff)
qed

lemma json_decode_text:
  "json_ok v \<Longrightarrow> json_depth v \<le> maxNestingDepth \<Longrightarrow> num_end r \<Longrightarrow>
   json_decode (json_text v @ r) = Some (v, r)"
  using parse_val_text [of v] by (simp add: json_decode_def reads_back_def del: parse_val.simps)

lemma json_unmarshal_text:
  "json_ok v \<Longrightarrow> json_depth v \<le> maxNestingDepth \<Longrightarrow> json_unmarshal (json_text v) = Some v"
  using json_decode_text [of v "[]"] by (simp add: json_unmarshal_def)


section \<open>Lemmas: the parser consumes input and has enough fuel\<close>

lemma skip_ws_length: "length (skip_ws s) \<le> length s"
  by (simp add: skip_ws_def length_dropWhile_le)

lemma skip_ws_Cons_length: "skip_ws s = c # r \<Longrightarrow> length r < length s"
  using skip_ws_length [of s] by simp

lemma parse_str_length: "parse_str s = Some (x, r) \<Longrightarrow> length r < length s"
proof (induction s arbitrary: x rule: parse_str.induct)
  case 1
  then show ?case by simp
next
  case (2 c s)
  consider "c = quote_char" | "c = backslash" | "c \<noteq> quote_char" "c \<noteq> backslash" "byte_val c < 128"
    | "c \<noteq> quote_char" "c \<noteq> backslash" "0x80 \<le> byte_val c" by fastforce
  then show ?case
  proof cases
    case 1
    with 2 show ?thesis by simp
  next
    case 2
    with "2.prems" show ?thesis
      by (force split: list.splits option.splits if_splits dest: "2.IH"(1,2,3,4)[rotated -1])
  next
    case 3
    with 2 show ?thesis by (force split: if_splits)
  next
    case 4
    with 2 show ?thesis by (force split: if_splits prod.splits)
  qed
qed

lemma take_digits_length: "take_digits s = (ds, r) \<Longrightarrow> length s = length ds + length r"
  by (auto simp: take_digits_def) (metis length_append takeWhile_dropWhile_id)

lemma num_int_length: "num_int s = Some (i, r) \<Longrightarrow> length r < length s"
  by (cases s) (auto simp: num_int_def begins_with_def split: if_splits prod.splits
      dest: take_digits_length)

lemma num_frac_length: "num_frac s = Some (f, r) \<Longrightarrow> length r \<le> length s"
  by (cases s) (auto simp: num_frac_def begins_with_def split: if_splits prod.splits
      dest: take_digits_length)

lemma num_exp_length: "num_exp s = Some (e, r) \<Longrightarrow> length r \<le> length s"
  by (cases s) (auto simp: num_exp_def Let_def split: if_splits prod.splits dest!: take_digits_length)

lemma parse_num_length:
  assumes "parse_num s = Some (v, r)"
  shows "length r < length s"
proof -
  from assms obtain k i f e r1 r2 where "num_int (drop k s) = Some (i, r1)"
    "num_frac r1 = Some (f, r2)" "num_exp r2 = Some (e, r)"
    by (auto simp: parse_num_def Let_def split: option.splits prod.splits)
  then show ?thesis
    by (auto dest!: num_int_length num_frac_length num_exp_length)
qed

lemma take_eq_length: "take n s = p \<Longrightarrow> length p = n \<Longrightarrow> n \<le> length s"
  by auto

lemma parse_lit_length: "parse_lit s = Some (v, r) \<Longrightarrow> length r < length s"
  by (auto simp: parse_lit_def split: if_splits dest: parse_num_length dest!: take_eq_length)

lemma tl_skip_ws_length: "begins_with c (skip_ws r) \<Longrightarrow> length (tl (skip_ws r)) < length r"
  using skip_ws_Cons_length [of r] by (cases "skip_ws r") (auto simp: begins_with_def)

lemma parse_length:
  "parse_val d n s = Some (v, r) \<Longrightarrow> length r < length s"
  "parse_elems d n s = Some (vs, r) \<Longrightarrow> length r < length s"
  "parse_members d n s = Some (kvs, r) \<Longrightarrow> length r < length s"
proof (induction d n s and d n s and d n s arbitrary: v r and vs r and kvs r
    rule: parse_val_parse_elems_parse_members.induct)
  case (2 d n s)
  then obtain c t where s: "skip_ws s = c # t" by (auto split: list.splits)
  from skip_ws_Cons_length [OF s] have "length t < length s" .
  moreover have "length r \<le> length t"
    using "2.prems" "2.IH"(1)[OF s] "2.IH"(2)[OF s] s
    by (auto split: if_splits dest!: tl_skip_ws_length parse_str_length parse_lit_length
        dest: less_imp_le)
  ultimately show ?case by simp
next
  case (4 d n s)
  then obtain v r1 c r2 where v: "parse_val d n s = Some (v, r1)" and r1: "skip_ws r1 = c # r2"
    by (auto split: option.splits list.splits)
  have "length r1 < length s" by (rule "4.IH"(1)[OF v])
  moreover have "length r \<le> length r2"
    using "4.prems" v r1 "4.IH"(2)[OF v refl r1] by (auto split: if_splits dest: less_imp_le)
  ultimately show ?case using skip_ws_Cons_length [OF r1] by simp
next
  case (6 d n s)
  then obtain r0 k r1 v r3 c r2 where s: "skip_ws s = quote_char # r0"
    and k: "parse_str r0 = Some (k, r1)" and colon: "begins_with (CHR '':'') (skip_ws r1)"
    and v: "parse_val d n (tl (skip_ws r1)) = Some (v, r3)" and r3: "skip_ws r3 = c # r2"
    by (auto split: option.splits list.splits if_splits)
  have "length r3 < length (tl (skip_ws r1))"
    using "6.IH"(1)[OF s _ k refl _ v] colon by simp
  moreover have "length r \<le> length r2"
    using "6.prems" s k colon v r3 "6.IH"(2)[OF s _ k refl _ v refl r3]
    by (auto split: if_splits dest: less_imp_le)
  ultimately show ?case
    using skip_ws_Cons_length [OF s] skip_ws_Cons_length [OF r3] parse_str_length [OF k]
      tl_skip_ws_length [OF colon] by simp
qed simp_all

text \<open>One step of the parser with two amounts of fuel that agree on everything shorter.\<close>

lemma parse_val_step:
  assumes "\<And>e t. length t < length s \<Longrightarrow> parse_elems e n t = parse_elems e k t"
    and "\<And>e t. length t < length s \<Longrightarrow> parse_members e n t = parse_members e k t"
  shows "parse_val d (Suc n) s = parse_val d (Suc k) s"
  using assms skip_ws_Cons_length [of s] by (cases "skip_ws s") simp_all

lemma parse_elems_step:
  assumes v: "parse_val d n s = parse_val d k s"
    and es: "\<And>t. length t < length s \<Longrightarrow> parse_elems d n t = parse_elems d k t"
  shows "parse_elems d (Suc n) s = parse_elems d (Suc k) s"
proof (cases "parse_val d n s")
  case (Some p)
  then obtain w r where w: "parse_val d n s = Some (w, r)" by (cases p) auto
  have "length t < length s" if "skip_ws r = c # t" for c t
    using parse_length(1) [OF w] skip_ws_Cons_length [OF that] by simp
  then show ?thesis using w v es by (auto split: list.splits)
qed (simp add: v [symmetric])

lemma parse_members_step:
  assumes v: "\<And>t. length t < length s \<Longrightarrow> parse_val d n t = parse_val d k t"
    and ms: "\<And>t. length t < length s \<Longrightarrow> parse_members d n t = parse_members d k t"
  shows "parse_members d (Suc n) s = parse_members d (Suc k) s"
proof (cases "\<exists>r0 key r1. skip_ws s = quote_char # r0 \<and> parse_str r0 = Some (key, r1)
    \<and> begins_with (CHR '':'') (skip_ws r1)")
  case False
  then show ?thesis by (auto split: list.splits option.splits)
next
  case True
  then obtain r0 key r1 where h: "skip_ws s = quote_char # r0" "parse_str r0 = Some (key, r1)"
    "begins_with (CHR '':'') (skip_ws r1)" by blast
  have len: "length (tl (skip_ws r1)) < length s"
    using skip_ws_Cons_length [OF h(1)] parse_str_length [OF h(2)] tl_skip_ws_length [OF h(3)] by simp
  note v' = v [OF len, symmetric]
  show ?thesis
  proof (cases "parse_val d n (tl (skip_ws r1))")
    case (Some p)
    then obtain w r where w: "parse_val d n (tl (skip_ws r1)) = Some (w, r)" by (cases p) auto
    have "length t < length s" if "skip_ws r = c # t" for c t
      using len parse_length(1) [OF w] skip_ws_Cons_length [OF that] by simp
    then show ?thesis using w h v' ms by (auto split: list.splits)
  qed (simp add: h v')
qed

lemma parse_fuel:
  "2 * length s < n \<Longrightarrow> 2 * length s < m \<Longrightarrow> parse_val d n s = parse_val d m s"
  "2 * length s + 1 < n \<Longrightarrow> 2 * length s + 1 < m \<Longrightarrow> parse_elems d n s = parse_elems d m s"
  "2 * length s + 1 < n \<Longrightarrow> 2 * length s + 1 < m \<Longrightarrow> parse_members d n s = parse_members d m s"
proof (induction n arbitrary: d m s)
  case (Suc n)
  {
    case 1
    then obtain k where "m = Suc k" by (cases m) auto
    with 1 show ?case by (auto intro!: parse_val_step Suc.IH(2,3) simp del: parse_val.simps)
  next
    case 2
    then obtain k where "m = Suc k" by (cases m) auto
    with 2 show ?case by (auto intro!: parse_elems_step Suc.IH(1,2) simp del: parse_elems.simps)
  next
    case 3
    then obtain k where "m = Suc k" by (cases m) auto
    with 3 show ?case by (auto intro!: parse_members_step Suc.IH(1,3) simp del: parse_members.simps)
  }
qed simp_all

lemma json_decode_fuel: "2 * length s < n \<Longrightarrow> parse_val maxNestingDepth n s = json_decode s"
  unfolding json_decode_def by (rule parse_fuel(1)) simp_all

lemma json_decode_length: "json_decode s = Some (v, r) \<Longrightarrow> length r < length s"
  unfolding json_decode_def by (rule parse_length(1))

section \<open>Lemmas: decimal literals\<close>

lemma dec_no_leading_zero: "0 < n \<Longrightarrow> hd (dec n) \<noteq> CHR ''0''"
proof (induction n rule: dec.induct)
  case (1 n)
  show ?case
  proof (cases "n < 10")
    case True
    have "byte_val (digit_char n) \<noteq> byte_val (CHR ''0'')" using True 1 by (simp add: byte_val_def [of "CHR ''0''"])
    then have "digit_char n \<noteq> CHR ''0''" by auto
    with True show ?thesis by (subst dec.simps) simp
  next
    case False
    with 1 have "hd (dec (n div 10)) \<noteq> CHR ''0''" by simp
    with False show ?thesis by (subst dec.simps) simp
  qed
qed

lemma int_lit_dec: "int_lit (dec n)"
proof (cases "n = 0")
  case True
  have "digit_char 0 = CHR ''0''"
    using byte_val_inj [of "digit_char 0" "CHR ''0''"] by (simp add: byte_val_def [of "CHR ''0''"])
  then have "dec 0 = ''0''" by (subst dec.simps) simp
  with True show ?thesis by (simp add: int_lit_def)
next
  case False
  with dec_no_leading_zero [of n] dec_digits [of n] show ?thesis by (simp add: int_lit_def)
qed

end
