(* ===== verification/Go_JSON_UTF8.thy ===== *)
theory Go_JSON_UTF8
  imports Go_JSON
begin

text \<open>
  Every string that the JSON decoder produces is valid UTF-8, whatever bytes it read: escapes are
  encoded runes, and invalid bytes have become the replacement rune.
\<close>

text \<open>The code points that have an encoding.\<close>

definition scalar :: "nat \<Rightarrow> bool" where
  "scalar r \<longleftrightarrow> r < 0xD800 \<or> 0xE000 \<le> r \<and> r < 0x110000"

fun json_utf8 :: "json \<Rightarrow> bool" where
  "json_utf8 (JStr s) = valid_utf8 s"
| "json_utf8 (JArr vs) = list_all json_utf8 vs"
| "json_utf8 (JObj kvs) = list_all (\<lambda>kv. valid_utf8 (fst kv) \<and> json_utf8 (snd kv)) kvs"
| "json_utf8 _ = True"

text \<open>What the decoder of strings does in one step: it puts a piece of valid text in front of the rest.\<close>

definition text_piece :: "string \<Rightarrow> bool" where
  "text_piece b \<longleftrightarrow> (\<forall>t. valid_utf8 t \<longrightarrow> valid_utf8 (b @ t))"

section \<open>Encoded runes\<close>

lemma valid_utf8_Nil [simp]: "valid_utf8 []"
  by (simp add: valid_utf8_def)

lemma valid_utf8_ascii_Cons: "byte_val c < 0x80 \<Longrightarrow> valid_utf8 (c # s) \<longleftrightarrow> valid_utf8 s"
  by (simp add: valid_utf8_def RuneError_def)

text \<open>A complete multi-byte sequence in front of valid text.\<close>

lemma valid_utf8_multi:
  assumes "0x80 \<le> byte_val c" and "decode_multi (byte_val c) (s @ t) = (r, Suc (length s))" and "s \<noteq> []"
  shows "valid_utf8 (c # s @ t) \<longleftrightarrow> valid_utf8 t"
  using assms by (simp add: valid_utf8_def)

lemma byte_val_char_of: "n < 256 \<Longrightarrow> byte_val (char_of n) = n"
  by (simp add: byte_val_def)

lemma encode_valid2:
  assumes "0x80 \<le> r" "r < 0x800"
  shows "valid_utf8 (encode_rune r @ t) \<longleftrightarrow> valid_utf8 t"
proof -
  have q: "2 \<le> r div 64" "r div 64 < 32" using assms div_le_mono [of 128 r 64] by (auto intro: less_mult_imp_div_less)
  have m: "r mod 64 < 64" by simp
  let ?c = "char_of (192 + r div 64) :: char" and ?s = "[char_of (128 + r mod 64) :: char]"
  have bv: "byte_val ?c = 192 + r div 64" "byte_val (hd ?s) = 128 + r mod 64"
    using q m by (simp_all add: byte_val_char_of)
  then have "\<exists>x. decode_multi (byte_val ?c) (?s @ t) = (x, Suc (length ?s))"
    using q m by (simp add: decode_multi_def utf8_first_def)
  then obtain x where "decode_multi (byte_val ?c) (?s @ t) = (x, Suc (length ?s))" ..
  from valid_utf8_multi [OF _ this] assms bv show ?thesis by (simp add: encode_rune_def)
qed

lemma encode_valid3:
  assumes "0x800 \<le> r" "r < 0x10000" "scalar r"
  shows "valid_utf8 (encode_rune r @ t) \<longleftrightarrow> valid_utf8 t"
proof -
  define a b e where "a = r div 4096" and "b = r div 64 mod 64" and "e = r mod 64"
  have d: "r div 64 = a * 64 + b"
    unfolding a_def b_def using div_mult_mod_eq [of "r div 64" 64] by (simp add: div_mult2_eq [symmetric])
  have bounds: "a < 16" "b < 64" "e < 64"
    using assms(2) by (auto simp: a_def b_def e_def intro: less_mult_imp_div_less)
  have "32 \<le> r div 64" using assms(1) div_le_mono [of 2048 r 64] by simp
  then have lo: "32 \<le> b" if "a = 0" using d that by simp
  have hi: "b < 32" if "a = 13"
  proof -
    have "r < 0xE000" using that bounds(2) d div_less_iff_less_mult [of 64 r 896] by simp
    with assms(3) have "r < 0xD800" by (auto simp: scalar_def)
    then have "r div 64 < 864" by (auto intro: less_mult_imp_div_less)
    with d that show ?thesis by simp
  qed
  let ?c = "char_of (224 + a) :: char" and ?s = "[char_of (128 + b), char_of (128 + e) :: char]"
  have bv: "byte_val ?c = 224 + a" "byte_val (char_of (128 + b)) = 128 + b" "byte_val (char_of (128 + e)) = 128 + e"
    using bounds by (simp_all add: byte_val_char_of)
  then have "\<exists>x. decode_multi (byte_val ?c) (?s @ t) = (x, Suc (length ?s))"
    using bounds lo hi by (auto simp: decode_multi_def utf8_first_def cont_byte_def)
  then obtain x where "decode_multi (byte_val ?c) (?s @ t) = (x, Suc (length ?s))" ..
  from valid_utf8_multi [OF _ this] assms bv show ?thesis
    by (simp add: encode_rune_def flip: a_def b_def e_def)
qed

lemma encode_valid4:
  assumes "0x10000 \<le> r" "scalar r"
  shows "valid_utf8 (encode_rune r @ t) \<longleftrightarrow> valid_utf8 t"
proof -
  define a b e g where "a = r div 262144" and "b = r div 4096 mod 64" and "e = r div 64 mod 64" and "g = r mod 64"
  have top: "r < 0x110000" using assms by (auto simp: scalar_def)
  have d: "r div 4096 = a * 64 + b"
    unfolding a_def b_def using div_mult_mod_eq [of "r div 4096" 64] by (simp add: div_mult2_eq [symmetric])
  have bounds: "a < 5" "b < 64" "e < 64" "g < 64"
    using top by (auto simp: a_def b_def e_def g_def intro: less_mult_imp_div_less)
  have "16 \<le> r div 4096" "r div 4096 < 272"
    using assms(1) top div_le_mono [of 65536 r 4096] by (auto intro: less_mult_imp_div_less)
  then have lo: "a = 0 \<Longrightarrow> 16 \<le> b" and hi: "a = 4 \<Longrightarrow> b < 16" using d by auto
  let ?c = "char_of (240 + a) :: char"
    and ?s = "[char_of (128 + b), char_of (128 + e), char_of (128 + g) :: char]"
  have bv: "byte_val ?c = 240 + a" "byte_val (char_of (128 + b)) = 128 + b" "byte_val (char_of (128 + e)) = 128 + e"
    "byte_val (char_of (128 + g)) = 128 + g"
    using bounds by (simp_all add: byte_val_char_of)
  then have "\<exists>x. decode_multi (byte_val ?c) (?s @ t) = (x, Suc (length ?s))"
    using bounds lo hi by (auto simp: decode_multi_def utf8_first_def cont_byte_def)
  then obtain x where "decode_multi (byte_val ?c) (?s @ t) = (x, Suc (length ?s))" ..
  from valid_utf8_multi [OF _ this] assms bv show ?thesis
    by (simp add: encode_rune_def flip: a_def b_def e_def g_def)
qed

lemma encode_valid:
  assumes "scalar r"
  shows "valid_utf8 (encode_rune r @ t) \<longleftrightarrow> valid_utf8 t"
proof -
  consider "r < 0x80" | "0x80 \<le> r" "r < 0x800" | "0x800 \<le> r" "r < 0x10000" | "0x10000 \<le> r" by linarith
  then show ?thesis
  proof cases
    case 1
    then show ?thesis by (simp add: encode_rune_def valid_utf8_ascii_Cons byte_val_char_of)
  qed (use assms encode_valid2 encode_valid3 encode_valid4 in auto)
qed

section \<open>The decoder\<close>

lemma hex4_less: "hex4 s = Some u \<Longrightarrow> u < 0x10000"
proof (induction s rule: hex4.induct)
  case (1 a b c d s)
  have lt: "x < 16" if "hex_val y = Some x" for x y
    using that by (auto simp: hex_val_def Let_def split: if_splits)
  from 1 obtain w x y z where "hex_val a = Some w" "hex_val b = Some x" "hex_val c = Some y" "hex_val d = Some z"
    "u = w * 4096 + x * 256 + y * 16 + z" by (auto split: option.splits)
  with lt [of a w] lt [of b x] lt [of c y] lt [of d z] show ?case by simp
qed simp_all

lemma low_surrogate_range: "low_surrogate s = Some l \<Longrightarrow> 0xDC00 \<le> l \<and> l \<le> 0xDFFF"
  by (auto simp: low_surrogate_def split: if_splits option.splits)

lemma scalar_RuneError: "scalar RuneError"
  by (simp add: scalar_def RuneError_def)

lemma simple_escape_ascii: "simple_escape e = Some b \<Longrightarrow> byte_val b < 0x80"
  by (auto simp: simple_escape_def quote_char_def backslash_def byte_val_def split: if_splits)

lemma encode_decoded_valid:
  assumes "decode_rune (c # s) = (r, n)" and "\<not> byte_val c < 0x80"
  shows "valid_utf8 (encode_rune r @ t) \<longleftrightarrow> valid_utf8 t"
proof -
  have d: "decode_multi (byte_val c) s = (r, n)" using assms by simp
  show ?thesis
  proof (cases "n = 1")
    case True
    with d have "r = RuneError"
      by (auto simp: decode_multi_def split: option.splits prod.splits list.splits if_splits)
    then show ?thesis by (simp add: encode_valid scalar_RuneError)
  next
    case False
    note v = decode_multi_valid [OF d False]
    have n: "Suc (length (take (n - 1) s)) = n" "take (n - 1) s \<noteq> []" using v(3,4) by auto
    have "encode_rune r = c # take (n - 1) s" using v(1,3) by (cases n) auto
    with valid_utf8_multi [of c "take (n - 1) s" t r] v(5) [of t] n assms(2) show ?thesis by simp
  qed
qed

lemma text_piece_rune: "scalar q \<Longrightarrow> text_piece (encode_rune q)"
  by (simp add: text_piece_def encode_valid)

lemma text_piece_ascii: "byte_val c < 0x80 \<Longrightarrow> text_piece [c]"
  by (simp add: text_piece_def valid_utf8_ascii_Cons)

lemma drop_le: "length (drop n s) \<le> length s"
  by simp

lemma parse_str_unicode:
  assumes p: "parse_str (backslash # CHR ''u'' # s) = Some (t, r)" and u: "hex4 s = Some u"
  shows "\<exists>b s' t'. text_piece b \<and> length s' \<le> length s \<and> parse_str s' = Some (t', r) \<and> t = b @ t'"
proof (cases "0xD800 \<le> u \<and> u \<le> 0xDFFF")
  case True
  show ?thesis
  proof (cases "if u \<le> 0xDBFF then low_surrogate (drop 4 s) else None")
    case (Some l)
    then have "0xDC00 \<le> l \<and> l \<le> 0xDFFF" "u \<le> 0xDBFF" using low_surrogate_range by (auto split: if_splits)
    then have "scalar (0x10000 + (u - 0xD800) * 1024 + (l - 0xDC00))" by (auto simp: scalar_def)
    note piece = text_piece_rune [OF this]
    from p u True Some obtain t' where "parse_str (drop 10 s) = Some (t', r)"
      "t = encode_rune (0x10000 + (u - 0xD800) * 1024 + (l - 0xDC00)) @ t'"
      by (auto simp: simple_escape_def quote_char_def backslash_def)
    with piece drop_le show ?thesis by blast
  next
    case None
    with p u True obtain t' where "parse_str (drop 4 s) = Some (t', r)" "t = encode_rune RuneError @ t'"
      by (auto simp: simple_escape_def quote_char_def backslash_def)
    with text_piece_rune [OF scalar_RuneError] drop_le show ?thesis by blast
  qed
next
  case False
  then have "scalar u" using hex4_less [OF u] by (auto simp: scalar_def)
  note piece = text_piece_rune [OF this]
  from p u False obtain t' where "parse_str (drop 4 s) = Some (t', r)" "t = encode_rune u @ t'"
    by (auto simp: simple_escape_def quote_char_def backslash_def)
  with piece drop_le show ?thesis by blast
qed

lemma parse_str_step:
  assumes p: "parse_str (c # s) = Some (t, r)" and c: "c \<noteq> quote_char"
  shows "\<exists>b s' t'. text_piece b \<and> length s' \<le> length s \<and> parse_str s' = Some (t', r) \<and> t = b @ t'"
proof -
  consider (esc) "c = backslash" | (ascii) "c \<noteq> backslash" "byte_val c < 0x80"
    | (multi) "c \<noteq> backslash" "\<not> byte_val c < 0x80" by blast
  then show ?thesis
  proof cases
    case esc
    with p c obtain e s1 where s: "s = e # s1" by (auto split: list.splits)
    show ?thesis
    proof (cases "simple_escape e")
      case (Some b)
      with p esc c s obtain t' where "parse_str s1 = Some (t', r)" "t = [b] @ t'" by auto
      moreover have "length s1 \<le> length s" using s by simp
      ultimately show ?thesis using text_piece_ascii [OF simple_escape_ascii [OF Some]] by blast
    next
      case None
      with p esc c s obtain u where u: "e = CHR ''u''" "hex4 s1 = Some u" by (auto split: if_splits option.splits)
      with parse_str_unicode [of s1 t r u] p esc s show ?thesis by (metis le_SucI length_Cons)
    qed
  next
    case ascii
    with p c obtain t' where "parse_str s = Some (t', r)" "t = [c] @ t'" by (auto split: if_splits)
    with text_piece_ascii [OF ascii(2)] show ?thesis by blast
  next
    case multi
    obtain q n where d: "decode_rune (c # s) = (q, n)" by (cases "decode_rune (c # s)")
    from p c multi d obtain t' where "parse_str (drop (n - 1) s) = Some (t', r)" "t = encode_rune q @ t'"
      by (auto simp del: decode_rune.simps)
    moreover have "text_piece (encode_rune q)" using encode_decoded_valid [OF d multi(2)] by (simp add: text_piece_def)
    ultimately show ?thesis using drop_le by blast
  qed
qed

lemma parse_str_valid: "parse_str s = Some (t, r) \<Longrightarrow> valid_utf8 t"
proof (induction s arbitrary: t r rule: length_induct)
  case (1 s)
  show ?case
  proof (cases "s = [] \<or> hd s = quote_char")
    case True
    with "1.prems" show ?thesis by (cases s) auto
  next
    case False
    then obtain c s0 where s: "s = c # s0" "c \<noteq> quote_char" by (cases s) auto
    from parse_str_step [OF "1.prems" [unfolded s(1)] s(2)] obtain b s' t' where
      "text_piece b" "length s' \<le> length s0" "parse_str s' = Some (t', r)" "t = b @ t'" by blast
    with "1.IH" s(1) show ?thesis by (auto simp: text_piece_def less_Suc_eq_le)
  qed
qed

lemma parse_lit_utf8: "parse_lit s = Some (v, r) \<Longrightarrow> json_utf8 v"
  by (auto simp: parse_lit_def parse_num_def Let_def split: if_splits option.splits prod.splits)

lemma parse_utf8:
  "parse_val d n s = Some (v, r) \<Longrightarrow> json_utf8 v"
  "parse_elems d n s = Some (vs, r) \<Longrightarrow> list_all json_utf8 vs"
  "parse_members d n s = Some (kvs, r) \<Longrightarrow> list_all (\<lambda>kv. valid_utf8 (fst kv) \<and> json_utf8 (snd kv)) kvs"
proof (induction d n s and d n s and d n s arbitrary: v r and vs r and kvs r
    rule: parse_val_parse_elems_parse_members.induct)
  case (2 d n s)
  then obtain c t where s: "skip_ws s = c # t" by (auto split: list.splits)
  show ?case
    using "2.prems" "2.IH"(1)[OF s] "2.IH"(2)[OF s] s
    by (auto split: if_splits dest!: parse_str_valid parse_lit_utf8)
next
  case (4 d n s)
  then obtain v r1 c r2 where v: "parse_val d n s = Some (v, r1)" and r1: "skip_ws r1 = c # r2"
    by (auto split: option.splits list.splits)
  show ?case
    using "4.prems" v r1 "4.IH"(1)[OF v] "4.IH"(2)[OF v refl r1] by (auto split: if_splits)
next
  case (6 d n s)
  then obtain r0 k r1 v r3 c r2 where s: "skip_ws s = quote_char # r0"
    and k: "parse_str r0 = Some (k, r1)" and colon: "begins_with (CHR '':'') (skip_ws r1)"
    and v: "parse_val d n (tl (skip_ws r1)) = Some (v, r3)" and r3: "skip_ws r3 = c # r2"
    by (auto split: option.splits list.splits if_splits)
  have "json_utf8 v" using "6.IH"(1)[OF s _ k refl _ v] colon by simp
  with "6.prems" s k colon v r3 "6.IH"(2)[OF s _ k refl _ v refl r3] parse_str_valid [OF k] show ?case
    by (auto split: if_splits)
qed simp_all

lemma json_unmarshal_utf8: "json_unmarshal s = Some v \<Longrightarrow> json_utf8 v"
  by (auto simp: json_unmarshal_def json_decode_def dest: parse_utf8(1) split: option.splits prod.splits if_splits
      simp del: parse_val.simps)

end
