(* ===== verification/KVStore.thy ===== *)
theory KVStore
  imports Go_JSON_UTF8
begin

text \<open>
  \<open>server/pkg/kvstore/kvstore.go\<close>: the in-memory key-value store. The mutex is not modelled: every
  method holds it for its whole body, so the methods are atomic operations on the state. The
  \<open>data\<close> field is \<open>None\<close> when it holds Go's nil map: reading and deleting work on it, an
  assignment panics.
\<close>

definition OpPut :: string where "OpPut = ''PUT''"
definition OpGet :: string where "OpGet = ''GET''"

record Operation =
  op_Type :: string
  op_Key :: string
  op_Value :: string
  op_ClientID :: string
  op_OpID :: i64
  op_StartTime :: int
  op_EndTime :: int
  op_Result :: string
  op_Success :: bool

record KVStore =
  kv_data :: "(string, string) gomap option"
  kv_history :: "Operation list"

definition NewKVStore :: KVStore where
  "NewKVStore = \<lparr>kv_data = Some [], kv_history = []\<rparr>"

text \<open>Lookup in the data map; a nil map has no keys.\<close>

definition kv_lookup :: "KVStore \<Rightarrow> string \<Rightarrow> string option" where
  "kv_lookup kv k = (case kv_data kv of None \<Rightarrow> None | Some m \<Rightarrow> map_of m k)"

text \<open>\<open>value, exists := kv.data[key]\<close>: a missing key reads as the empty string.\<close>

definition KV_Get :: "string \<Rightarrow> KVStore \<Rightarrow> string \<times> bool" where
  "KV_Get key kv = (case kv_lookup kv key of Some v \<Rightarrow> (v, True) | None \<Rightarrow> ([], False))"

text \<open>\<open>None\<close>: assignment to an entry of a nil map panics.\<close>

definition KV_Put :: "string \<Rightarrow> string \<Rightarrow> KVStore \<Rightarrow> KVStore option" where
  "KV_Put key v kv =
     (case kv_data kv of
        None \<Rightarrow> None
      | Some m \<Rightarrow> Some (kv\<lparr>kv_data := Some (AList.update key v m)\<rparr>))"

definition KV_Delete :: "string \<Rightarrow> KVStore \<Rightarrow> KVStore" where
  "KV_Delete key kv = kv\<lparr>kv_data := map_option (AList.delete key) (kv_data kv)\<rparr>"

definition RecordOperation :: "Operation \<Rightarrow> KVStore \<Rightarrow> KVStore" where
  "RecordOperation op kv = kv\<lparr>kv_history := kv_history kv @ [op]\<rparr>"

definition GetHistory :: "KVStore \<Rightarrow> Operation list" where
  "GetHistory kv = kv_history kv"

definition ClearHistory :: "KVStore \<Rightarrow> KVStore" where
  "ClearHistory kv = kv\<lparr>kv_history := []\<rparr>"

text \<open>\<open>json.Marshal\<close> of a \<open>map[string]string\<close>: an object with its keys in byte order.\<close>

definition marshal_string_map :: "(string, string) gomap \<Rightarrow> bytes" where
  "marshal_string_map m = json_text (JObj (map (\<lambda>e. (fst e, JStr (snd e))) (sort_key fst m)))"

text \<open>The loop that copies the data map, and its encoding.\<close>

definition KV_Snapshot :: "KVStore \<Rightarrow> bytes res" where
  "KV_Snapshot kv =
     (let snapshot = foldl (\<lambda>acc e. AList.update (fst e) (snd e) acc) []
                       (case kv_data kv of None \<Rightarrow> [] | Some m \<Rightarrow> m)
      in Inr (marshal_string_map snapshot))"

text \<open>\<open>json.Unmarshal\<close> into a nil \<open>map[string]string\<close>; JSON \<open>null\<close> leaves it nil.\<close>

fun store_members :: "(string, string) gomap \<Rightarrow> (string \<times> json) list \<Rightarrow> (string, string) gomap option" where
  "store_members m [] = Some m"
| "store_members m ((k, v) # kvs) =
     (case into_string [] v of None \<Rightarrow> None | Some s \<Rightarrow> store_members (AList.update k s m) kvs)"

definition unmarshal_string_map :: "bytes \<Rightarrow> (string, string) gomap option res" where
  "unmarshal_string_map b =
     (case json_unmarshal b of
        None \<Rightarrow> Inl ErrJSON
      | Some JNull \<Rightarrow> Inr None
      | Some (JObj kvs) \<Rightarrow>
          (case store_members [] kvs of None \<Rightarrow> Inl ErrJSON | Some m \<Rightarrow> Inr (Some m))
      | Some _ \<Rightarrow> Inl ErrJSON)"

definition KV_Restore :: "bytes \<Rightarrow> KVStore \<Rightarrow> unit res \<times> KVStore" where
  "KV_Restore b kv =
     (case unmarshal_string_map b of
        Inl e \<Rightarrow> (Inl (Wrap ''failed to unmarshal snapshot'' e), kv)
      | Inr m \<Rightarrow> (Inr (), kv\<lparr>kv_data := m\<rparr>))"

definition KV_Size :: "KVStore \<Rightarrow> nat" where
  "KV_Size kv = (case kv_data kv of None \<Rightarrow> 0 | Some m \<Rightarrow> length m)"

definition KV_Clear :: "KVStore \<Rightarrow> KVStore" where
  "KV_Clear kv = kv\<lparr>kv_data := Some []\<rparr>"

text \<open>The data map is a proper map that is not nil.\<close>

definition kv_ok :: "KVStore \<Rightarrow> bool" where
  "kv_ok kv \<longleftrightarrow> (case kv_data kv of None \<Rightarrow> False | Some m \<Rightarrow> gomap_ok m)"

definition kv_utf8 :: "KVStore \<Rightarrow> bool" where
  "kv_utf8 kv \<longleftrightarrow>
     (case kv_data kv of None \<Rightarrow> True | Some m \<Rightarrow> list_all (\<lambda>e. valid_utf8 (fst e) \<and> valid_utf8 (snd e)) m)"

definition sample_kv :: KVStore where
  "sample_kv = \<lparr>kv_data = Some [(''b'', ''x y''), (''a'', [])], kv_history = []\<rparr>"

section \<open>The interface clients rely on\<close>

text \<open>
  A store that accepts assignments: what a lookup returns after a put, and that a put keeps the
  store usable. The lemma on sequences of puts is what the state machine of the Raft node rests on.
\<close>

locale kv_store =
  fixes lookup :: "'s \<Rightarrow> 'k \<Rightarrow> 'v option"
    and put :: "'k \<Rightarrow> 'v \<Rightarrow> 's \<Rightarrow> 's option"
    and ok :: "'s \<Rightarrow> bool"
  assumes put_total: "ok s \<Longrightarrow> \<exists>t. put k v s = Some t"
    and put_ok: "ok s \<Longrightarrow> put k v s = Some t \<Longrightarrow> ok t"
    and put_lookup: "ok s \<Longrightarrow> put k v s = Some t \<Longrightarrow> lookup t = (lookup s)(k \<mapsto> v)"
begin

lemma put_cases:
  assumes "ok s"
  obtains t where "put k v s = Some t" "ok t" "lookup t = (lookup s)(k \<mapsto> v)"
  using assms put_total [of s k v] put_ok put_lookup by blast

lemma puts_lookup:
  "ok s \<Longrightarrow> \<exists>t. fold_opt (\<lambda>e. put (fst e) (snd e)) kvs s = Some t \<and> ok t
     \<and> lookup t = lookup s ++ map_of (rev kvs)"
proof (induction kvs arbitrary: s)
  case Nil
  then show ?case by simp
next
  case (Cons e kvs)
  obtain t where t: "put (fst e) (snd e) s = Some t" "ok t" "lookup t = (lookup s)(fst e \<mapsto> snd e)"
    using put_cases [OF Cons.prems] by blast
  from Cons.IH [OF t(2)] obtain u where
    "fold_opt (\<lambda>e. put (fst e) (snd e)) kvs t = Some u" "ok u" "lookup u = lookup t ++ map_of (rev kvs)"
    by blast
  with t show ?case by (cases e) auto
qed

end

lemma kv_ok_data: "kv_ok kv \<Longrightarrow> \<exists>m. kv_data kv = Some m \<and> gomap_ok m"
  by (auto simp: kv_ok_def split: option.splits)

interpretation kv: kv_store kv_lookup KV_Put kv_ok
proof unfold_locales
  fix s t :: KVStore and k v
  assume ok: "kv_ok s"
  then show "\<exists>t. KV_Put k v s = Some t" by (auto simp: KV_Put_def dest: kv_ok_data)
  assume put: "KV_Put k v s = Some t"
  from ok put show "kv_ok t" by (auto simp: KV_Put_def kv_ok_def split: option.splits)
  from ok put show "kv_lookup t = (kv_lookup s)(k \<mapsto> v)"
    by (auto simp: KV_Put_def kv_lookup_def update_conv' split: option.splits)
qed

section \<open>Snapshots\<close>

lemma map_of_foldl_update:
  "map_of (foldl (\<lambda>acc e. AList.update (fst e) (snd e) acc) m es) = map_of m ++ map_of (rev es)"
  by (induction es arbitrary: m) (auto simp: update_conv')

lemma gomap_ok_foldl_update:
  "gomap_ok m \<Longrightarrow> gomap_ok (foldl (\<lambda>acc e. AList.update (fst e) (snd e) acc) m es)"
  by (induction es arbitrary: m) auto

lemma map_of_perm:
  "distinct (map fst xs) \<Longrightarrow> distinct (map fst ys) \<Longrightarrow> set xs = set ys \<Longrightarrow> map_of xs = map_of ys"
  by (simp add: map_of_inject_set)

lemma foldl_update_Nil:
  assumes "gomap_ok m"
  shows "map_of (foldl (\<lambda>acc e. AList.update (fst e) (snd e) acc) [] m) = map_of m"
proof -
  have "map_of (rev m) = map_of m"
    using assms by (intro map_of_perm) (simp_all add: gomap_ok_def flip: rev_map)
  then show ?thesis by (simp add: map_of_foldl_update)
qed

lemma store_members_strings:
  "store_members m (map (\<lambda>e. (fst e, JStr (snd e))) es) = Some (foldl (\<lambda>acc e. AList.update (fst e) (snd e) acc) m es)"
  by (induction es arbitrary: m) auto

lemma unmarshal_marshal_string_map:
  assumes "gomap_ok m" and "list_all (\<lambda>e. valid_utf8 (fst e) \<and> valid_utf8 (snd e)) m"
  shows "\<exists>m'. unmarshal_string_map (marshal_string_map m) = Inr (Some m') \<and> gomap_ok m' \<and> map_of m' = map_of m"
proof -
  let ?es = "sort_key fst m"
  let ?v = "JObj (map (\<lambda>e. (fst e, JStr (snd e))) ?es)"
  have "json_ok ?v" using assms(2) by (auto simp: list_all_iff)
  moreover have "json_depth ?v \<le> maxNestingDepth"
    by (simp add: maxNestingDepth_def foldr_max_le_iff)
  ultimately have "json_unmarshal (marshal_string_map m) = Some ?v"
    unfolding marshal_string_map_def by (rule json_unmarshal_text)
  moreover have es: "gomap_ok ?es" "map_of ?es = map_of m"
  proof -
    show "gomap_ok ?es"
      using assms(1) unfolding gomap_ok_def by (metis distinct_map distinct_sort set_sort)
    with assms(1) show "map_of ?es = map_of m"
      by (intro map_of_perm) (simp_all add: gomap_ok_def)
  qed
  ultimately show ?thesis
    by (simp add: unmarshal_string_map_def store_members_strings gomap_ok_foldl_update foldl_update_Nil)
qed

lemma gomap_foldl_utf8:
  "list_all P m \<Longrightarrow> list_all P es \<Longrightarrow>
   list_all P (foldl (\<lambda>acc e. AList.update (fst e) (snd e) acc) m es)"
proof (induction es arbitrary: m)
  case (Cons e es)
  have "list_all P (AList.update (fst e) (snd e) m)"
    using Cons.prems by (induction m) (auto split: if_splits)
  with Cons show ?case by simp
qed simp

lemma kv_lookup_data [simp]: "kv_lookup (kv\<lparr>kv_data := Some m\<rparr>) = map_of m"
  by (auto simp: kv_lookup_def)

lemma KV_Snapshot_unmarshal:
  assumes "kv_ok kv" and "kv_utf8 kv" and "KV_Snapshot kv = Inr b"
  shows "\<exists>m. unmarshal_string_map b = Inr (Some m) \<and> gomap_ok m \<and> map_of m = kv_lookup kv"
proof -
  obtain m where m: "kv_data kv = Some m" "gomap_ok m" using assms(1) kv_ok_data by blast
  let ?c = "foldl (\<lambda>acc e. AList.update (fst e) (snd e) acc) [] m"
  have "list_all (\<lambda>e. valid_utf8 (fst e) \<and> valid_utf8 (snd e)) ?c"
    using assms(2) m by (intro gomap_foldl_utf8) (auto simp: kv_utf8_def)
  with m obtain m' where "unmarshal_string_map (marshal_string_map ?c) = Inr (Some m')"
    "gomap_ok m'" "map_of m' = map_of m"
    using unmarshal_marshal_string_map [of ?c] gomap_ok_foldl_update [of "[]" m]
      foldl_update_Nil [OF m(2)] by auto
  with assms(3) m show ?thesis by (auto simp: KV_Snapshot_def kv_lookup_def)
qed

text \<open>What a restore puts into the store is a proper map of valid UTF-8 strings.\<close>

lemma store_members_ok:
  assumes "store_members m kvs = Some m'" and "gomap_ok m"
    and "list_all (\<lambda>e. valid_utf8 (fst e) \<and> valid_utf8 (snd e)) m"
    and "list_all (\<lambda>kv. valid_utf8 (fst kv) \<and> json_utf8 (snd kv)) kvs"
  shows "gomap_ok m' \<and> list_all (\<lambda>e. valid_utf8 (fst e) \<and> valid_utf8 (snd e)) m'"
  using assms
proof (induction m kvs rule: store_members.induct)
  case (2 m k v kvs)
  then obtain t where t: "into_string [] v = Some t" "store_members (AList.update k t m) kvs = Some m'"
    by (auto split: option.splits)
  have "valid_utf8 t" using t(1) "2.prems"(4) by (cases v) auto
  moreover have "list_all (\<lambda>e. valid_utf8 (fst e) \<and> valid_utf8 (snd e)) (AList.update k t m)"
    using gomap_foldl_utf8 [OF "2.prems"(3), of "[(k, t)]"] calculation "2.prems"(4) by simp
  ultimately show ?case using "2.IH" [OF t] "2.prems" by simp
qed simp

lemma unmarshal_string_map_ok:
  assumes "unmarshal_string_map b = Inr (Some m)"
  shows "gomap_ok m \<and> list_all (\<lambda>e. valid_utf8 (fst e) \<and> valid_utf8 (snd e)) m"
proof -
  from assms obtain kvs where kvs: "json_unmarshal b = Some (JObj kvs)" "store_members [] kvs = Some m"
    by (auto simp: unmarshal_string_map_def split: option.splits json.splits)
  from json_unmarshal_utf8 [OF kvs(1)] store_members_ok [OF kvs(2)] show ?thesis by simp
qed

lemma KV_Put_utf8:
  "KV_Put k v kv = Some kv' \<Longrightarrow> kv_utf8 kv \<Longrightarrow> valid_utf8 k \<Longrightarrow> valid_utf8 v \<Longrightarrow> kv_utf8 kv'"
  using gomap_foldl_utf8 [of "\<lambda>e. valid_utf8 (fst e) \<and> valid_utf8 (snd e)" _ "[(k, v)]"]
  by (auto simp: KV_Put_def kv_utf8_def split: option.splits)

text \<open>C13: restoring any store from the snapshot of a store with valid UTF-8 contents succeeds and gives a
  store with the same value for every key; the operation history is left alone.\<close>

theorem snapshot_restore_roundtrip:
  assumes "kv_ok kv" and "kv_utf8 kv" and "KV_Snapshot kv = Inr b"
  shows "\<exists>kv2. KV_Restore b kv0 = (Inr (), kv2) \<and> kv_ok kv2 \<and> kv_lookup kv2 = kv_lookup kv
           \<and> kv_history kv2 = kv_history kv0"
  using KV_Snapshot_unmarshal [OF assms]
  by (auto simp: KV_Restore_def kv_ok_def)

theorem snapshot_restore_roundtrip_witness:
  "\<exists>b kv2. kv_ok sample_kv \<and> kv_utf8 sample_kv \<and> KV_Snapshot sample_kv = Inr b
     \<and> KV_Restore b NewKVStore = (Inr (), kv2) \<and> kv_ok kv2
     \<and> KV_Get ''b'' kv2 = (''x y'', True) \<and> KV_Get ''c'' kv2 = ([], False)"
proof -
  have ok: "kv_ok sample_kv" "kv_utf8 sample_kv"
    by (simp_all add: sample_kv_def kv_ok_def kv_utf8_def gomap_ok_def byte_val_def)
  obtain b where b: "KV_Snapshot sample_kv = Inr b" by (simp add: KV_Snapshot_def Let_def)
  have "kv_lookup sample_kv ''b'' = Some ''x y''" "kv_lookup sample_kv ''c'' = None"
    by (simp_all add: kv_lookup_def sample_kv_def)
  with snapshot_restore_roundtrip [OF ok b, of NewKVStore] ok b show ?thesis
    by (auto simp: KV_Get_def)
qed

end
