(* ===== verification/Raftpb.thy ===== *)
theory Raftpb
  imports Go_JSON
begin

text \<open>
  The data that the repository exchanges with the Raft library (\<open>go.etcd.io/etcd/raft/v3\<close>), with
  the fields its own code reads or writes, and the functions of that library it calls on plain
  data. The library is not part of the repository: its functions are the fields of a record of
  parameters, and \<open>codec_ok\<close> states what the repository relies on.
\<close>

record HardState =
  hs_Term :: u64
  hs_Vote :: u64
  hs_Commit :: u64

datatype raft_EntryType = raftpb_EntryNormal | raftpb_EntryConfChange | raftpb_EntryOther

record raft_Entry =
  en_Term :: u64
  en_Index :: u64
  en_Type :: raft_EntryType
  en_Data :: bytes

datatype ConfChangeType =
    ConfChangeAddNode
  | ConfChangeRemoveNode
  | ConfChangeUpdateNode
  | ConfChangeAddLearnerNode

record ConfChange =
  cc_Type :: ConfChangeType
  cc_NodeID :: u64
  cc_Context :: bytes

text \<open>The membership recorded in a snapshot is opaque to the repository; its zero value is empty.\<close>

record ConfState =
  cs_Voters :: "u64 list"
  cs_Learners :: "u64 list"

record SnapshotMetadata =
  md_ConfState :: ConfState
  md_Index :: u64
  md_Term :: u64

record raft_Snapshot =
  sn_Data :: bytes
  sn_Metadata :: SnapshotMetadata

definition zero_HardState :: HardState where
  "zero_HardState = \<lparr>hs_Term = 0, hs_Vote = 0, hs_Commit = 0\<rparr>"

definition zero_Entry :: raft_Entry where
  "zero_Entry = \<lparr>en_Term = 0, en_Index = 0, en_Type = raftpb_EntryNormal, en_Data = []\<rparr>"

definition zero_ConfState :: ConfState where
  "zero_ConfState = \<lparr>cs_Voters = [], cs_Learners = []\<rparr>"

definition zero_Snapshot :: raft_Snapshot where
  "zero_Snapshot =
     \<lparr>sn_Data = [], sn_Metadata = \<lparr>md_ConfState = zero_ConfState, md_Index = 0, md_Term = 0\<rparr>\<rparr>"

text \<open>
  \<open>cd_hs\<close>, \<open>cd_en\<close>, \<open>cd_sn\<close>: the JSON value \<open>encoding/json\<close> writes for the library's structs (it
  depends on their field tags); \<open>cd_hs_into\<close> and so on: decoding a JSON value into a struct that
  currently holds a value. \<open>cd_empty_hs\<close> is \<open>raft.IsEmptyHardState\<close>, \<open>cd_empty_snap\<close> is
  \<open>raft.IsEmptySnap\<close>, and \<open>cd_cc_unmarshal\<close> is \<open>ConfChange.Unmarshal\<close> (protobuf).
\<close>

record raft_codec =
  cd_hs :: "HardState \<Rightarrow> json"
  cd_hs_into :: "HardState \<Rightarrow> json \<Rightarrow> HardState option"
  cd_en :: "raft_Entry \<Rightarrow> json"
  cd_en_into :: "raft_Entry \<Rightarrow> json \<Rightarrow> raft_Entry option"
  cd_sn :: "raft_Snapshot \<Rightarrow> json"
  cd_sn_into :: "raft_Snapshot \<Rightarrow> json \<Rightarrow> raft_Snapshot option"
  cd_empty_hs :: "HardState \<Rightarrow> bool"
  cd_empty_snap :: "raft_Snapshot \<Rightarrow> bool"
  cd_cc_unmarshal :: "bytes \<Rightarrow> ConfChange res"

text \<open>A JSON value that survives being written and read: not \<open>null\<close>, and shallow.\<close>

definition wire_ok :: "json \<Rightarrow> bool" where
  "wire_ok j \<longleftrightarrow> json_ok j \<and> json_depth j < 100 \<and> j \<noteq> JNull"

text \<open>
  The behaviour of the library's structs under \<open>encoding/json\<close>: decoding what was encoded into a
  zero struct gives the struct back; \<open>IsEmptyHardState\<close> compares with the zero value, and
  \<open>IsEmptySnap\<close> tests for index 0.
\<close>

definition codec_ok :: "raft_codec \<Rightarrow> bool" where
  "codec_ok C \<longleftrightarrow>
     (\<forall>h. wire_ok (cd_hs C h) \<and> cd_hs_into C zero_HardState (cd_hs C h) = Some h)
     \<and> (\<forall>e. wire_ok (cd_en C e) \<and> cd_en_into C zero_Entry (cd_en C e) = Some e)
     \<and> (\<forall>x. wire_ok (cd_sn C x) \<and> cd_sn_into C zero_Snapshot (cd_sn C x) = Some x)
     \<and> (\<forall>h. cd_empty_hs C h \<longleftrightarrow> h = zero_HardState)
     \<and> (\<forall>x. cd_empty_snap C x \<longleftrightarrow> md_Index (sn_Metadata x) = 0)"

lemma codec_okD:
  assumes "codec_ok C"
  shows "json_ok (cd_hs C h)" "json_depth (cd_hs C h) < 100" "cd_hs C h \<noteq> JNull"
    "cd_hs_into C zero_HardState (cd_hs C h) = Some h"
    "json_ok (cd_en C e)" "json_depth (cd_en C e) < 100" "cd_en C e \<noteq> JNull"
    "cd_en_into C zero_Entry (cd_en C e) = Some e"
    "cd_empty_hs C h \<longleftrightarrow> h = zero_HardState"
    "json_ok (cd_sn C x)" "json_depth (cd_sn C x) < 100" "cd_sn C x \<noteq> JNull"
    "cd_sn_into C zero_Snapshot (cd_sn C x) = Some x"
    "cd_empty_snap C x \<longleftrightarrow> md_Index (sn_Metadata x) = 0"
  using assms by (auto simp: codec_ok_def wire_ok_def)

end
