(* ===== verification/Go_OS.thy ===== *)
theory Go_OS
  imports Go_Prelude
begin

text \<open>
  The calls of package \<open>os\<close> that the storage layer makes, over an explicit file system: a set
  of directories, a directory of nodes, and the contents of each inode (an open file keeps its
  inode when its name is replaced by a rename). A path is a directory and a base name, which is
  what \<open>filepath.Join\<close> is always given.

  Every call may fail. The plan of a file system says, for the n-th call, whether it succeeds;
  a write that fails may have written a prefix of its bytes. Statements about all plans are
  therefore statements about all ways the calls can fail.
\<close>

type_synonym path = "string \<times> string"

datatype io_outcome = IoOk | IoErr nat

datatype node = FileNode nat | DirNode

record fs =
  fs_dirs :: "string list"
  fs_nodes :: "(path, node) gomap"
  fs_data :: "nat \<Rightarrow> bytes"
  fs_fresh :: nat
  fs_tick :: nat
  fs_plan :: "nat \<Rightarrow> io_outcome"

record fd =
  fd_inode :: nat
  fd_open :: bool

definition Join :: "string \<Rightarrow> string \<Rightarrow> path" where
  "Join dir name = (dir, name)"

text \<open>The directory and the name in a path.\<close>

definition path_of :: "string \<Rightarrow> path" where
  "path_of p = (let name = rev (takeWhile (\<lambda>c. c \<noteq> CHR ''/'') (rev p)) in (take (length p - length name - 1) p, name))"

text \<open>The outcome of the next call.\<close>

definition io_next :: "fs \<Rightarrow> io_outcome \<times> fs" where
  "io_next s = (fs_plan s (fs_tick s), s\<lparr>fs_tick := Suc (fs_tick s)\<rparr>)"

definition MkdirAll :: "string \<Rightarrow> fs \<Rightarrow> unit res \<times> fs" where
  "MkdirAll d s =
     (case io_next s of
        (IoErr _, s) \<Rightarrow> (Inl ErrIO, s)
      | (IoOk, s) \<Rightarrow> (Inr (), s\<lparr>fs_dirs := List.insert d (fs_dirs s)\<rparr>))"

definition new_file :: "path \<Rightarrow> fs \<Rightarrow> fs" where
  "new_file p s =
     s\<lparr>fs_nodes := AList.update p (FileNode (fs_fresh s)) (fs_nodes s),
       fs_data := (fs_data s)(fs_fresh s := []),
       fs_fresh := Suc (fs_fresh s)\<rparr>"

text \<open>\<open>os.OpenFile\<close> for appending, with or without \<open>O_CREATE\<close>.\<close>

definition OpenAppend :: "bool \<Rightarrow> path \<Rightarrow> fs \<Rightarrow> fd res \<times> fs" where
  "OpenAppend create p s =
     (case io_next s of
        (IoErr _, s) \<Rightarrow> (Inl ErrIO, s)
      | (IoOk, s) \<Rightarrow>
          (case map_of (fs_nodes s) p of
             Some (FileNode i) \<Rightarrow> (Inr \<lparr>fd_inode = i, fd_open = True\<rparr>, s)
           | Some DirNode \<Rightarrow> (Inl ErrIO, s)
           | None \<Rightarrow>
               if create \<and> fst p \<in> set (fs_dirs s)
               then (Inr \<lparr>fd_inode = fs_fresh s, fd_open = True\<rparr>, new_file p s)
               else (Inl ErrNotExist, s)))"

text \<open>\<open>os.Create\<close>: an existing file is truncated.\<close>

definition Create :: "path \<Rightarrow> fs \<Rightarrow> fd res \<times> fs" where
  "Create p s =
     (case io_next s of
        (IoErr _, s) \<Rightarrow> (Inl ErrIO, s)
      | (IoOk, s) \<Rightarrow>
          (case map_of (fs_nodes s) p of
             Some (FileNode i) \<Rightarrow>
               (Inr \<lparr>fd_inode = i, fd_open = True\<rparr>, s\<lparr>fs_data := (fs_data s)(i := [])\<rparr>)
           | Some DirNode \<Rightarrow> (Inl ErrIO, s)
           | None \<Rightarrow>
               if fst p \<in> set (fs_dirs s)
               then (Inr \<lparr>fd_inode = fs_fresh s, fd_open = True\<rparr>, new_file p s)
               else (Inl ErrNotExist, s)))"

text \<open>\<open>File.Write\<close>; every file here is written at its end.\<close>

definition FWrite :: "fd \<Rightarrow> bytes \<Rightarrow> fs \<Rightarrow> unit res \<times> fs" where
  "FWrite f b s =
     (if \<not> fd_open f then (Inl ErrClosed, s)
      else case io_next s of
             (IoErr k, s) \<Rightarrow>
               (Inl ErrIO, s\<lparr>fs_data := (fs_data s)(fd_inode f := fs_data s (fd_inode f) @ take k b)\<rparr>)
           | (IoOk, s) \<Rightarrow>
               (Inr (), s\<lparr>fs_data := (fs_data s)(fd_inode f := fs_data s (fd_inode f) @ b)\<rparr>))"

definition FSync :: "fd \<Rightarrow> fs \<Rightarrow> unit res \<times> fs" where
  "FSync f s =
     (if \<not> fd_open f then (Inl ErrClosed, s)
      else case io_next s of (IoErr _, s) \<Rightarrow> (Inl ErrIO, s) | (IoOk, s) \<Rightarrow> (Inr (), s))"

definition FClose :: "fd \<Rightarrow> fs \<Rightarrow> unit res \<times> fd \<times> fs" where
  "FClose f s =
     (if \<not> fd_open f then (Inl ErrClosed, f, s)
      else case io_next s of
             (IoErr _, s) \<Rightarrow> (Inl ErrIO, f\<lparr>fd_open := False\<rparr>, s)
           | (IoOk, s) \<Rightarrow> (Inr (), f\<lparr>fd_open := False\<rparr>, s))"

definition ReadFile :: "path \<Rightarrow> fs \<Rightarrow> bytes res \<times> fs" where
  "ReadFile p s =
     (case io_next s of
        (IoErr _, s) \<Rightarrow> (Inl ErrIO, s)
      | (IoOk, s) \<Rightarrow>
          (case map_of (fs_nodes s) p of
             Some (FileNode i) \<Rightarrow> (Inr (fs_data s i), s)
           | Some DirNode \<Rightarrow> (Inl ErrIO, s)
           | None \<Rightarrow> (Inl ErrNotExist, s)))"

text \<open>\<open>os.WriteFile\<close> truncates (or creates) the file and then writes.\<close>

definition WriteFile :: "path \<Rightarrow> bytes \<Rightarrow> fs \<Rightarrow> unit res \<times> fs" where
  "WriteFile p b s =
     (case Create p s of
        (Inl e, s) \<Rightarrow> (Inl e, s)
      | (Inr f, s) \<Rightarrow> FWrite f b s)"

definition Rename :: "path \<Rightarrow> path \<Rightarrow> fs \<Rightarrow> unit res \<times> fs" where
  "Rename p q s =
     (case io_next s of
        (IoErr _, s) \<Rightarrow> (Inl ErrIO, s)
      | (IoOk, s) \<Rightarrow>
          (case map_of (fs_nodes s) p of
             Some (FileNode i) \<Rightarrow>
               if map_of (fs_nodes s) q = Some DirNode then (Inl ErrIO, s)
               else (Inr (), s\<lparr>fs_nodes := AList.update q (FileNode i) (AList.delete p (fs_nodes s))\<rparr>)
           | Some DirNode \<Rightarrow> (Inl ErrIO, s)
           | None \<Rightarrow> (Inl ErrNotExist, s)))"

definition Remove :: "path \<Rightarrow> fs \<Rightarrow> unit res \<times> fs" where
  "Remove p s =
     (case io_next s of
        (IoErr _, s) \<Rightarrow> (Inl ErrIO, s)
      | (IoOk, s) \<Rightarrow>
          if map_of (fs_nodes s) p = None then (Inl ErrNotExist, s)
          else (Inr (), s\<lparr>fs_nodes := AList.delete p (fs_nodes s)\<rparr>))"

text \<open>\<open>os.ReadDir\<close>: the entries of a directory sorted by name, each with its \<open>IsDir\<close>.\<close>

definition dir_entries :: "string \<Rightarrow> fs \<Rightarrow> (string \<times> bool) list" where
  "dir_entries d s =
     sort_key fst (map (\<lambda>e. (snd (fst e), snd e = DirNode)) (filter (\<lambda>e. fst (fst e) = d) (fs_nodes s)))"

definition ReadDir :: "string \<Rightarrow> fs \<Rightarrow> (string \<times> bool) list res \<times> fs" where
  "ReadDir d s =
     (case io_next s of
        (IoErr _, s) \<Rightarrow> (Inl ErrIO, s)
      | (IoOk, s) \<Rightarrow>
          if d \<in> set (fs_dirs s) then (Inr (dir_entries d s), s) else (Inl ErrNotExist, s))"

text \<open>The contents of a file that exists, and a plan under which no call fails.\<close>

definition file_at :: "fs \<Rightarrow> path \<Rightarrow> bytes option" where
  "file_at s p =
     (case map_of (fs_nodes s) p of Some (FileNode i) \<Rightarrow> Some (fs_data s i) | _ \<Rightarrow> None)"

definition reliable :: "fs \<Rightarrow> bool" where
  "reliable s \<longleftrightarrow> fs_plan s = (\<lambda>_. IoOk)"

text \<open>Inodes in use are below the next fresh one, and no two names share an inode.\<close>

definition nodes_ok :: "(path, node) gomap \<Rightarrow> nat \<Rightarrow> bool" where
  "nodes_ok m n \<longleftrightarrow>
     gomap_ok m
     \<and> (\<forall>p i. map_of m p = Some (FileNode i) \<longrightarrow> i < n)
     \<and> (\<forall>p q i. map_of m p = Some (FileNode i) \<longrightarrow> map_of m q = Some (FileNode i) \<longrightarrow> p = q)"

definition fs_ok :: "fs \<Rightarrow> bool" where
  "fs_ok s \<longleftrightarrow> nodes_ok (fs_nodes s) (fs_fresh s)"

definition empty_fs :: "(nat \<Rightarrow> io_outcome) \<Rightarrow> fs" where
  "empty_fs plan =
     \<lparr>fs_dirs = [], fs_nodes = [], fs_data = (\<lambda>_. []), fs_fresh = 0, fs_tick = 0, fs_plan = plan\<rparr>"

lemmas os_defs =
  MkdirAll_def OpenAppend_def Create_def FWrite_def FSync_def FClose_def ReadFile_def WriteFile_def
  Rename_def Remove_def ReadDir_def io_next_def new_file_def

lemmas os_splits = prod.splits io_outcome.splits option.splits node.splits sum.splits if_splits

section \<open>Lemmas: names and inodes\<close>

lemma file_at_cong:
  "fs_data s' = fs_data s \<Longrightarrow> map_of (fs_nodes s') p = map_of (fs_nodes s) p \<Longrightarrow> file_at s' p = file_at s p"
  by (simp add: file_at_def split: option.split node.split)

lemma file_at_None: "map_of (fs_nodes s) p = None \<Longrightarrow> file_at s p = None"
  by (simp add: file_at_def)

lemma file_at_tick [simp]: "file_at (s\<lparr>fs_tick := t\<rparr>) p = file_at s p"
  by (simp add: file_at_def split: option.split node.split)

lemma nodes_okD:
  assumes "nodes_ok m n"
  shows "gomap_ok m" and "map_of m p = Some (FileNode i) \<Longrightarrow> i < n"
    and "map_of m p = Some (FileNode i) \<Longrightarrow> map_of m q = Some (FileNode i) \<Longrightarrow> p = q"
  using assms unfolding nodes_ok_def by blast+

lemma nodes_ok_new [intro]: "nodes_ok m n \<Longrightarrow> nodes_ok (AList.update p (FileNode n) m) (Suc n)"
  unfolding nodes_ok_def
  by (auto simp: update_conv' less_Suc_eq simp del: split_paired_All)

lemma nodes_ok_delete [intro]: "nodes_ok m n \<Longrightarrow> nodes_ok (AList.delete p m) n"
  unfolding nodes_ok_def
  by (auto simp: delete_conv' simp del: split_paired_All split: if_splits)

lemma nodes_ok_rename [intro]:
  assumes ok: "nodes_ok m n" and p: "map_of m p = Some (FileNode i)" and "p \<noteq> q"
  shows "nodes_ok (AList.update q (FileNode i) (AList.delete p m)) n"
proof -
  let ?m = "AList.update q (FileNode i) (AList.delete p m)"
  have m: "map_of ?m = (map_of m)(p := None, q \<mapsto> FileNode i)"
    by (simp add: update_conv' delete_conv')
  have other: "map_of m x \<noteq> Some (FileNode i)" if "x \<noteq> p" for x
    using nodes_okD(3) [OF ok p] that by blast
  show ?thesis
    unfolding nodes_ok_def m
    using nodes_okD [OF ok] p other by (auto simp del: split_paired_All split: if_splits)
qed

section \<open>Lemmas: creating and writing files\<close>

lemma Create_effect:
  assumes "fs_ok s" and "Create p s = (r, s')"
  shows "fs_ok s'" and "fs_dirs s' = fs_dirs s" and "fs_plan s' = fs_plan s"
    and "q \<noteq> p \<Longrightarrow> map_of (fs_nodes s') q = map_of (fs_nodes s) q \<and> file_at s' q = file_at s q"
    and "r = Inr f \<Longrightarrow> fd_open f \<and> map_of (fs_nodes s') p = Some (FileNode (fd_inode f)) \<and> fs_data s' (fd_inode f) = []"
    and "\<forall>f. r \<noteq> Inr f \<Longrightarrow> fs_nodes s' = fs_nodes s \<and> fs_data s' = fs_data s"
    and "reliable s \<Longrightarrow> fst p \<in> set (fs_dirs s) \<Longrightarrow> map_of (fs_nodes s) p \<noteq> Some DirNode \<Longrightarrow> \<exists>f. r = Inr f"
    and "map_of (fs_nodes s') p = map_of (fs_nodes s) p
         \<or> fst p \<in> set (fs_dirs s) \<and> (\<exists>i. map_of (fs_nodes s') p = Some (FileNode i))"
proof -
  have nok: "nodes_ok (fs_nodes s) (fs_fresh s)" using assms(1) by (simp add: fs_ok_def)
  have other: "fd_inode f \<noteq> i" if "map_of (fs_nodes s) p = Some (FileNode (fd_inode f))"
    "map_of (fs_nodes s) q = Some (FileNode i)" "q \<noteq> p" for f i
    using nodes_okD(3) [OF nok that(1)] that by metis
  have fresh: "fs_fresh s \<noteq> i" if "map_of (fs_nodes s) q = Some (FileNode i)" for i
    using nodes_okD(2) [OF nok that] by simp
  show "fs_ok s'" "fs_dirs s' = fs_dirs s" "fs_plan s' = fs_plan s"
    "r = Inr f \<Longrightarrow> fd_open f \<and> map_of (fs_nodes s') p = Some (FileNode (fd_inode f)) \<and> fs_data s' (fd_inode f) = []"
    "\<forall>f. r \<noteq> Inr f \<Longrightarrow> fs_nodes s' = fs_nodes s \<and> fs_data s' = fs_data s"
    "reliable s \<Longrightarrow> fst p \<in> set (fs_dirs s) \<Longrightarrow> map_of (fs_nodes s) p \<noteq> Some DirNode \<Longrightarrow> \<exists>f. r = Inr f"
    "map_of (fs_nodes s') p = map_of (fs_nodes s) p
         \<or> fst p \<in> set (fs_dirs s) \<and> (\<exists>i. map_of (fs_nodes s') p = Some (FileNode i))"
    using assms nok
    by (auto simp: Create_def io_next_def new_file_def fs_ok_def reliable_def update_conv' split: os_splits)
  show "q \<noteq> p \<Longrightarrow> map_of (fs_nodes s') q = map_of (fs_nodes s) q \<and> file_at s' q = file_at s q"
    using assms(2) other [of "\<lparr>fd_inode = _, fd_open = True\<rparr>"] fresh
    by (auto simp: Create_def io_next_def new_file_def file_at_def update_conv' split: os_splits)
qed

lemma FWrite_data:
  assumes "fd_open f" and "FWrite f b s = (r, s')"
  shows "\<exists>c. s' = s\<lparr>fs_tick := Suc (fs_tick s),
                  fs_data := (fs_data s)(fd_inode f := fs_data s (fd_inode f) @ c)\<rparr>
     \<and> (r = Inr () \<longrightarrow> c = b) \<and> (\<exists>k. c = take k b) \<and> (reliable s \<longrightarrow> r = Inr ())"
  using assms by (auto simp: FWrite_def io_next_def reliable_def split: os_splits intro: exI [of _ "length b"])

lemma WriteFile_effect:
  assumes ok: "fs_ok s" and w: "WriteFile p b s = (r, s')"
  shows "fs_ok s'" and "fs_dirs s' = fs_dirs s" and "fs_plan s' = fs_plan s"
    and "q \<noteq> p \<Longrightarrow> map_of (fs_nodes s') q = map_of (fs_nodes s) q \<and> file_at s' q = file_at s q"
    and "r = Inr () \<Longrightarrow> file_at s' p = Some b"
    and "file_at s' p = file_at s p \<or> (\<exists>k. file_at s' p = Some (take k b))"
    and "reliable s \<Longrightarrow> fst p \<in> set (fs_dirs s) \<Longrightarrow> map_of (fs_nodes s) p \<noteq> Some DirNode \<Longrightarrow> r = Inr ()"
    and "map_of (fs_nodes s') p = map_of (fs_nodes s) p
         \<or> fst p \<in> set (fs_dirs s) \<and> (\<exists>i. map_of (fs_nodes s') p = Some (FileNode i))"
proof -
  obtain r1 s1 where c: "Create p s = (r1, s1)" by (cases "Create p s")
  note e = Create_effect [OF ok c]
  have "fs_ok s' \<and> fs_dirs s' = fs_dirs s \<and> fs_plan s' = fs_plan s
    \<and> (q \<noteq> p \<longrightarrow> map_of (fs_nodes s') q = map_of (fs_nodes s) q \<and> file_at s' q = file_at s q)
    \<and> (r = Inr () \<longrightarrow> file_at s' p = Some b)
    \<and> (file_at s' p = file_at s p \<or> (\<exists>k. file_at s' p = Some (take k b)))
    \<and> (reliable s \<longrightarrow> fst p \<in> set (fs_dirs s) \<longrightarrow> map_of (fs_nodes s) p \<noteq> Some DirNode \<longrightarrow> r = Inr ())
    \<and> (map_of (fs_nodes s') p = map_of (fs_nodes s) p
         \<or> fst p \<in> set (fs_dirs s) \<and> (\<exists>i. map_of (fs_nodes s') p = Some (FileNode i)))"
  proof (cases r1)
    case (Inl x)
    then have "r = Inl x" "s' = s1" using w c by (auto simp: WriteFile_def)
    moreover have "file_at s1 p = file_at s p" using e(6) Inl by (intro file_at_cong) simp_all
    ultimately show ?thesis using e(1-4,7,8) Inl by auto
  next
    case (Inr f)
    have f: "fd_open f" "map_of (fs_nodes s1) p = Some (FileNode (fd_inode f))" "fs_data s1 (fd_inode f) = []"
      using e(5) [OF Inr] by auto
    have "FWrite f b s1 = (r, s')" using w c Inr by (simp add: WriteFile_def)
    from FWrite_data [OF f(1) this] obtain d where d0: "s' = s1\<lparr>fs_tick := Suc (fs_tick s1),
        fs_data := (fs_data s1)(fd_inode f := fs_data s1 (fd_inode f) @ d)\<rparr>" "r = Inr () \<longrightarrow> d = b"
      "\<exists>k. d = take k b" "reliable s1 \<longrightarrow> r = Inr ()" by blast
    note d = d0 [unfolded f(3) append_Nil]
    have p': "file_at s' p = Some d" using f(2) d(1) by (simp add: file_at_def)
    have "fd_inode f \<noteq> i" if "map_of (fs_nodes s1) q = Some (FileNode i)" "q \<noteq> p" for i
      using nodes_okD(3) [of "fs_nodes s1" "fs_fresh s1" p "fd_inode f" q] e(1) f(2) that
      by (auto simp: fs_ok_def)
    then have q': "q \<noteq> p \<longrightarrow> file_at s' q = file_at s1 q"
      using d(1) by (auto simp: file_at_def split: option.splits node.splits)
    have rest: "fs_nodes s' = fs_nodes s1" "fs_dirs s' = fs_dirs s1" "fs_fresh s' = fs_fresh s1" "fs_plan s' = fs_plan s1"
      using d(1) by simp_all
    then have "fs_ok s'" using e(1) by (simp add: fs_ok_def)
    moreover have "reliable s \<longrightarrow> r = Inr ()" using d(4) e(3) by (simp add: reliable_def)
    ultimately show ?thesis using p' q' rest d(2,3) e(2,3,4,8) by auto
  qed
  then show "fs_ok s'" "fs_dirs s' = fs_dirs s" "fs_plan s' = fs_plan s"
    "q \<noteq> p \<Longrightarrow> map_of (fs_nodes s') q = map_of (fs_nodes s) q \<and> file_at s' q = file_at s q"
    "r = Inr () \<Longrightarrow> file_at s' p = Some b"
    "file_at s' p = file_at s p \<or> (\<exists>k. file_at s' p = Some (take k b))"
    "reliable s \<Longrightarrow> fst p \<in> set (fs_dirs s) \<Longrightarrow> map_of (fs_nodes s) p \<noteq> Some DirNode \<Longrightarrow> r = Inr ()"
    "map_of (fs_nodes s') p = map_of (fs_nodes s) p
         \<or> fst p \<in> set (fs_dirs s) \<and> (\<exists>i. map_of (fs_nodes s') p = Some (FileNode i))" by blast+
qed

end
