(* ===== verification/WAL.thy ===== *)
theory WAL
  imports Raftpb Go_OS "HOL-Library.Sublist"
begin

text \<open>
  \<open>server/pkg/storage/wal.go\<close>: the write-ahead log, a file of newline-separated JSON records. The
  methods run under the log's mutex, so each is one atomic operation on the log's fields and the
  file system. Marshalling a record of the Raft library's plain structs cannot fail, so the error
  branches after \<open>json.Marshal\<close> have no counterpart.
\<close>

record WAL =
  wal_dir :: string
  wal_f :: fd
  wal_hardState :: HardState
  wal_entries :: "raft_Entry list"

record WALRecord =
  wr_Type :: string
  wr_HardState :: "HardState option"
  wr_Entry :: "raft_Entry option"

definition zero_WALRecord :: WALRecord where
  "zero_WALRecord = \<lparr>wr_Type = [], wr_HardState = None, wr_Entry = None\<rparr>"

definition state_record :: "HardState \<Rightarrow> WALRecord" where
  "state_record h = zero_WALRecord\<lparr>wr_Type := ''state'', wr_HardState := Some h\<rparr>"

definition entry_record :: "raft_Entry \<Rightarrow> WALRecord" where
  "entry_record e = zero_WALRecord\<lparr>wr_Type := ''entry'', wr_Entry := Some e\<rparr>"

text \<open>\<open>json.Marshal\<close> of a record; nil pointers are left out (\<open>omitempty\<close>).\<close>

definition record_json :: "raft_codec \<Rightarrow> WALRecord \<Rightarrow> json" where
  "record_json C r =
     JObj ([(''type'', JStr (wr_Type r))]
       @ (case wr_HardState r of None \<Rightarrow> [] | Some h \<Rightarrow> [(''hard_state'', cd_hs C h)])
       @ (case wr_Entry r of None \<Rightarrow> [] | Some e \<Rightarrow> [(''entry'', cd_en C e)]))"

text \<open>Decoding into a pointer field: \<open>null\<close> sets it to nil, a value is decoded into the pointee.\<close>

definition into_pointer :: "('a \<Rightarrow> json \<Rightarrow> 'a option) \<Rightarrow> 'a \<Rightarrow> 'a option \<Rightarrow> json \<Rightarrow> 'a option option" where
  "into_pointer into zero cur j =
     (if j = JNull then Some None
      else map_option Some (into (case cur of None \<Rightarrow> zero | Some x \<Rightarrow> x) j))"

definition record_field :: "raft_codec \<Rightarrow> string \<times> json \<Rightarrow> WALRecord \<Rightarrow> WALRecord option" where
  "record_field C kv r =
     (if field_match ''type'' (fst kv) then
        map_option (\<lambda>t. r\<lparr>wr_Type := t\<rparr>) (into_string (wr_Type r) (snd kv))
      else if field_match ''hard_state'' (fst kv) then
        map_option (\<lambda>h. r\<lparr>wr_HardState := h\<rparr>)
          (into_pointer (cd_hs_into C) zero_HardState (wr_HardState r) (snd kv))
      else if field_match ''entry'' (fst kv) then
        map_option (\<lambda>e. r\<lparr>wr_Entry := e\<rparr>)
          (into_pointer (cd_en_into C) zero_Entry (wr_Entry r) (snd kv))
      else Some r)"

definition into_record :: "raft_codec \<Rightarrow> json \<Rightarrow> WALRecord option" where
  "into_record C j =
     (case j of
        JNull \<Rightarrow> Some zero_WALRecord
      | JObj kvs \<Rightarrow> fold_opt (record_field C) kvs zero_WALRecord
      | _ \<Rightarrow> None)"

definition newline :: char where
  "newline = CHR 0x0A"

definition record_line :: "raft_codec \<Rightarrow> WALRecord \<Rightarrow> bytes" where
  "record_line C r = json_text (record_json C r) @ [newline]"

definition isHardStateEqual :: "HardState \<Rightarrow> HardState \<Rightarrow> bool" where
  "isHardStateEqual a b \<longleftrightarrow> hs_Term a = hs_Term b \<and> hs_Vote a = hs_Vote b \<and> hs_Commit a = hs_Commit b"

definition wal_path :: "string \<Rightarrow> path" where
  "wal_path dir = Join dir ''wal.log''"

definition tmp_path :: "string \<Rightarrow> path" where
  "tmp_path dir = (fst (wal_path dir), snd (wal_path dir) @ ''.tmp'')"

definition NewWAL :: "string \<Rightarrow> fs \<Rightarrow> WAL res \<times> fs" where
  "NewWAL dir s =
     (case MkdirAll dir s of
        (Inl e, s) \<Rightarrow> (Inl (Wrap ''failed to create WAL directory'' e), s)
      | (Inr _, s) \<Rightarrow>
          (case OpenAppend True (wal_path dir) s of
             (Inl e, s) \<Rightarrow> (Inl (Wrap ''failed to open WAL file'' e), s)
           | (Inr f, s) \<Rightarrow>
               (Inr \<lparr>wal_dir = dir, wal_f = f, wal_hardState = zero_HardState, wal_entries = []\<rparr>, s)))"

definition WAL_writeRecord :: "raft_codec \<Rightarrow> WAL \<Rightarrow> WALRecord \<Rightarrow> fs \<Rightarrow> unit res \<times> fs" where
  "WAL_writeRecord C w r s =
     (case FWrite (wal_f w) (record_line C r) s of
        (Inl e, s) \<Rightarrow> (Inl (Wrap ''failed to write record'' e), s)
      | (Inr _, s) \<Rightarrow> (Inr (), s))"

fun WAL_writeEntries :: "raft_codec \<Rightarrow> WAL \<Rightarrow> raft_Entry list \<Rightarrow> fs \<Rightarrow> unit res \<times> fs" where
  "WAL_writeEntries C w [] s = (Inr (), s)"
| "WAL_writeEntries C w (e # es) s =
     (case WAL_writeRecord C w (entry_record e) s of
        (Inl err, s) \<Rightarrow> (Inl err, s)
      | (Inr _, s) \<Rightarrow> WAL_writeEntries C w es s)"

text \<open>The part of \<open>Save\<close> that writes the hard state, when it is not empty and has changed.\<close>

definition WAL_saveHardState :: "raft_codec \<Rightarrow> HardState \<Rightarrow> WAL \<Rightarrow> fs \<Rightarrow> unit res \<times> WAL \<times> fs" where
  "WAL_saveHardState C h w s =
     (if \<not> cd_empty_hs C h \<and> \<not> isHardStateEqual h (wal_hardState w)
      then (case WAL_writeRecord C w (state_record h) s of
              (Inl err, s) \<Rightarrow> (Inl err, w, s)
            | (Inr _, s) \<Rightarrow> (Inr (), w\<lparr>wal_hardState := h\<rparr>, s))
      else (Inr (), w, s))"

definition WAL_Save :: "raft_codec \<Rightarrow> HardState \<Rightarrow> raft_Entry list \<Rightarrow> WAL \<Rightarrow> fs \<Rightarrow> unit res \<times> WAL \<times> fs" where
  "WAL_Save C h es w s =
     (case WAL_saveHardState C h w s of
        (Inl err, w, s) \<Rightarrow> (Inl err, w, s)
      | (Inr _, w, s) \<Rightarrow>
          (case WAL_writeEntries C w es s of
             (Inl err, s) \<Rightarrow> (Inl err, w, s)
           | (Inr _, s) \<Rightarrow>
               (case FSync (wal_f w) s of
                  (Inl err, s) \<Rightarrow> (Inl (Wrap ''failed to sync WAL'' err), w, s)
                | (Inr _, s) \<Rightarrow> (Inr (), w\<lparr>wal_entries := wal_entries w @ es\<rparr>, s))))"

text \<open>One turn of the loop of \<open>ReadAll\<close>: what a record does to the state read so far.\<close>

definition replay_record :: "WALRecord \<Rightarrow> HardState \<times> raft_Entry list \<Rightarrow> HardState \<times> raft_Entry list" where
  "replay_record r acc =
     (if wr_Type r = ''state'' then
        (case wr_HardState r of Some h \<Rightarrow> (h, snd acc) | None \<Rightarrow> acc)
      else if wr_Type r = ''entry'' then
        (case wr_Entry r of Some e \<Rightarrow> (fst acc, snd acc @ [e]) | None \<Rightarrow> acc)
      else acc)"

function read_records ::
    "raft_codec \<Rightarrow> bytes \<Rightarrow> HardState \<times> raft_Entry list \<Rightarrow> (HardState \<times> raft_Entry list) res" where
  "read_records C b acc =
     (if json_more b then
        (case json_decode b of
           None \<Rightarrow> Inl (Wrap ''failed to decode WAL record'' ErrJSON)
         | Some (v, rest) \<Rightarrow>
             (case into_record C v of
                None \<Rightarrow> Inl (Wrap ''failed to decode WAL record'' ErrJSON)
              | Some r \<Rightarrow> read_records C rest (replay_record r acc)))
      else Inr acc)"
  by pat_completeness auto
termination
  by (relation "measure (\<lambda>(C, b, acc). length b)") (auto dest: json_decode_length)

declare read_records.simps [simp del]

definition WAL_ReadAll :: "raft_codec \<Rightarrow> WAL \<Rightarrow> fs \<Rightarrow> (HardState \<times> raft_Entry list) res \<times> WAL \<times> fs" where
  "WAL_ReadAll C w s =
     (case ReadFile (wal_path (wal_dir w)) s of
        (Inl e, s) \<Rightarrow>
          if IsNotExist e then (Inr (zero_HardState, []), w, s)
          else (Inl (Wrap ''failed to read WAL'' e), w, s)
      | (Inr b, s) \<Rightarrow>
          (case read_records C b (zero_HardState, []) of
             Inl e \<Rightarrow> (Inl e, w, s)
           | Inr (h, es) \<Rightarrow> (Inr (h, es), w\<lparr>wal_hardState := h, wal_entries := es\<rparr>, s)))"

text \<open>Writing the temporary file of \<open>Compact\<close>: the hard state, then the remaining entries.\<close>

fun compact_entries :: "raft_codec \<Rightarrow> fd \<Rightarrow> raft_Entry list \<Rightarrow> fs \<Rightarrow> unit res \<times> fs" where
  "compact_entries C f [] s = (Inr (), s)"
| "compact_entries C f (e # es) s =
     (case FWrite f (record_line C (entry_record e)) s of
        (Inl err, s) \<Rightarrow> (Inl (Wrap ''failed to write entry'' err), s)
      | (Inr _, s) \<Rightarrow> compact_entries C f es s)"

definition compact_state :: "raft_codec \<Rightarrow> fd \<Rightarrow> HardState \<Rightarrow> fs \<Rightarrow> unit res \<times> fs" where
  "compact_state C f h s =
     (if cd_empty_hs C h then (Inr (), s)
      else (case FWrite f (record_line C (state_record h)) s of
              (Inl err, s) \<Rightarrow> (Inl (Wrap ''failed to write hard state'' err), s)
            | (Inr _, s) \<Rightarrow> (Inr (), s)))"

definition compact_tmp :: "raft_codec \<Rightarrow> fd \<Rightarrow> HardState \<Rightarrow> raft_Entry list \<Rightarrow> fs \<Rightarrow> unit res \<times> fs" where
  "compact_tmp C f h es s =
     (case compact_state C f h s of
        (Inl err, s) \<Rightarrow> (Inl err, s)
      | (Inr _, s) \<Rightarrow>
          (case compact_entries C f es s of
             (Inl err, s) \<Rightarrow> (Inl err, s)
           | (Inr _, s) \<Rightarrow>
               (case FSync f s of
                  (Inl err, s) \<Rightarrow> (Inl (Wrap ''failed to sync temp WAL'' err), s)
                | (Inr _, s) \<Rightarrow> (Inr (), s))))"

definition compact_fill :: "raft_codec \<Rightarrow> raft_Entry list \<Rightarrow> WAL \<Rightarrow> fs \<Rightarrow> unit res \<times> fs" where
  "compact_fill C es w s =
     (case Create (tmp_path (wal_dir w)) s of
        (Inl e, s) \<Rightarrow> (Inl (Wrap ''failed to create temp WAL'' e), s)
      | (Inr f, s) \<Rightarrow>
          (case compact_tmp C f (wal_hardState w) es s of
             (r, s) \<Rightarrow> (case FClose f s of (_, _, s) \<Rightarrow> (r, s))))"

text \<open>The new file takes the log's name, and the log is reopened.\<close>

definition compact_swap :: "raft_Entry list \<Rightarrow> WAL \<Rightarrow> fs \<Rightarrow> unit res \<times> WAL \<times> fs" where
  "compact_swap newEntries w s =
     (case Rename (tmp_path (wal_dir w)) (wal_path (wal_dir w)) s of
        (Inl e, s) \<Rightarrow> (Inl (Wrap ''failed to replace WAL'' e), w, s)
      | (Inr _, s) \<Rightarrow>
          (case FClose (wal_f w) s of
             (_, closed, s) \<Rightarrow>
               (case OpenAppend False (wal_path (wal_dir w)) s of
                  (Inl e, s) \<Rightarrow> (Inl (Wrap ''failed to reopen WAL'' e), w\<lparr>wal_f := closed\<rparr>, s)
                | (Inr newF, s) \<Rightarrow> (Inr (), w\<lparr>wal_f := newF, wal_entries := newEntries\<rparr>, s))))"

definition WAL_Compact :: "raft_codec \<Rightarrow> u64 \<Rightarrow> WAL \<Rightarrow> fs \<Rightarrow> unit res \<times> WAL \<times> fs" where
  "WAL_Compact C index w s =
     (let newEntries = filter (\<lambda>e. index < en_Index e) (wal_entries w) in
      case compact_fill C newEntries w s of
        (Inl e, s) \<Rightarrow> (Inl e, w, s)
      | (Inr _, s) \<Rightarrow> compact_swap newEntries w s)"

definition WAL_Close :: "WAL \<Rightarrow> fs \<Rightarrow> unit res \<times> WAL \<times> fs" where
  "WAL_Close w s = (case FClose (wal_f w) s of (r, f, s) \<Rightarrow> (r, w\<lparr>wal_f := f\<rparr>, s))"

section \<open>Abstraction and invariant\<close>

definition log_text :: "raft_codec \<Rightarrow> WALRecord list \<Rightarrow> bytes" where
  "log_text C rs = concat (map (record_line C) rs)"

definition wf_record :: "WALRecord \<Rightarrow> bool" where
  "wf_record r \<longleftrightarrow> (\<exists>h. r = state_record h) \<or> (\<exists>e. r = entry_record e)"

text \<open>The open handle is the file that the log's name refers to.\<close>

definition wal_open :: "WAL \<Rightarrow> fs \<Rightarrow> bool" where
  "wal_open w s \<longleftrightarrow>
     fs_ok s \<and> fd_open (wal_f w)
     \<and> map_of (fs_nodes s) (wal_path (wal_dir w)) = Some (FileNode (fd_inode (wal_f w)))
     \<and> map_of (fs_nodes s) (tmp_path (wal_dir w)) \<noteq> Some DirNode
     \<and> wal_dir w \<in> set (fs_dirs s)"

text \<open>The records in the file replay to the state the log keeps in memory.\<close>

definition wal_inv :: "raft_codec \<Rightarrow> WAL \<Rightarrow> fs \<Rightarrow> bool" where
  "wal_inv C w s \<longleftrightarrow>
     codec_ok C \<and> wal_open w s
     \<and> (\<exists>rs. list_all wf_record rs
          \<and> file_at s (wal_path (wal_dir w)) = Some (log_text C rs)
          \<and> fold replay_record rs (zero_HardState, []) = (wal_hardState w, wal_entries w))"

text \<open>The record of a hard state, if it is to be written.\<close>

definition changed_state :: "raft_codec \<Rightarrow> HardState \<Rightarrow> WAL \<Rightarrow> WALRecord list" where
  "changed_state C h w = (if \<not> cd_empty_hs C h \<and> \<not> isHardStateEqual h (wal_hardState w) then [state_record h] else [])"

text \<open>\<open>s'\<close> is \<open>s\<close> after bytes were appended to an open file; time has passed.\<close>

definition appended :: "fd \<Rightarrow> bytes \<Rightarrow> fs \<Rightarrow> fs \<Rightarrow> bool" where
  "appended f b s s' \<longleftrightarrow>
     fs_data s' = (fs_data s)(fd_inode f := fs_data s (fd_inode f) @ b)
     \<and> fs_nodes s' = fs_nodes s \<and> fs_dirs s' = fs_dirs s \<and> fs_fresh s' = fs_fresh s
     \<and> fs_plan s' = fs_plan s"

text \<open>A write that may fail half way: a prefix of the bytes arrives, all of them on success.\<close>

definition writes :: "fd \<Rightarrow> bytes \<Rightarrow> fs \<Rightarrow> unit res \<times> fs \<Rightarrow> bool" where
  "writes f b s out \<longleftrightarrow>
     (\<exists>c. appended f c s (snd out) \<and> prefix c b \<and> (fst out = Inr () \<longrightarrow> c = b)
        \<and> (reliable s \<longrightarrow> fst out = Inr ()))"

text \<open>The records a call of \<open>Save\<close> appends, and those \<open>Compact\<close> keeps.\<close>

definition saved_records :: "raft_codec \<Rightarrow> HardState \<Rightarrow> raft_Entry list \<Rightarrow> WAL \<Rightarrow> WALRecord list" where
  "saved_records C h es w =
     (if \<not> cd_empty_hs C h \<and> \<not> isHardStateEqual h (wal_hardState w) then [state_record h] else [])
     @ map entry_record es"

definition compact_records :: "raft_codec \<Rightarrow> u64 \<Rightarrow> WAL \<Rightarrow> WALRecord list" where
  "compact_records C index w =
     (if cd_empty_hs C (wal_hardState w) then [] else [state_record (wal_hardState w)])
     @ map entry_record (filter (\<lambda>e. index < en_Index e) (wal_entries w))"

text \<open>What the node does when it starts: open the log and read it.\<close>

definition WAL_reopen :: "raft_codec \<Rightarrow> string \<Rightarrow> fs \<Rightarrow> ((HardState \<times> raft_Entry list) \<times> WAL) res \<times> fs" where
  "WAL_reopen C dir s =
     (case NewWAL dir s of
        (Inl e, s) \<Rightarrow> (Inl e, s)
      | (Inr w, s) \<Rightarrow>
          (case WAL_ReadAll C w s of
             (Inl e, _, s) \<Rightarrow> (Inl e, s)
           | (Inr he, w, s) \<Rightarrow> (Inr (he, w), s)))"

section \<open>Records\<close>

lemma field_match_names [simp]:
  "field_match ''type'' ''type''" "\<not> field_match ''type'' ''hard_state''"
  "\<not> field_match ''type'' ''entry''" "field_match ''hard_state'' ''hard_state''"
  "\<not> field_match ''hard_state'' ''entry''" "field_match ''entry'' ''entry''"
  by (simp_all add: field_match_def fold_name_def fold_rune_def byte_val_def)

lemma into_record_json:
  "codec_ok C \<Longrightarrow> wf_record r \<Longrightarrow> into_record C (record_json C r) = Some r"
  by (auto simp: wf_record_def into_record_def record_json_def record_field_def state_record_def
      entry_record_def zero_WALRecord_def into_pointer_def codec_okD)

lemma ascii_lits [simp]: "valid_utf8 ''type''" "valid_utf8 ''hard_state''" "valid_utf8 ''entry''"
  "valid_utf8 ''state''"
  by (simp_all add: byte_val_def)

lemma record_json_ok:
  assumes "codec_ok C" and "wf_record r"
  shows "json_ok (record_json C r) \<and> json_depth (record_json C r) \<le> maxNestingDepth"
proof -
  have "json_depth (cd_hs C h) < 9999" "json_depth (cd_en C e) < 9999" for h e
    using codec_okD(2) [OF assms(1), of h] codec_okD(6) [OF assms(1), of e] by auto
  then show ?thesis
    using assms codec_okD [OF assms(1)]
    by (auto simp: wf_record_def record_json_def state_record_def entry_record_def
        zero_WALRecord_def maxNestingDepth_def less_imp_le)
qed

section \<open>Reading back what was written\<close>

lemma json_more_line: "json_more (json_text (record_json C r) @ b)"
  by (simp add: json_more_def record_json_def skip_ws_Cons)

lemma json_decode_ws: "is_ws c \<Longrightarrow> json_decode (c # b) = json_decode b"
proof -
  assume c: "is_ws c"
  let ?n = "2 * length (c # b)"
  have "json_decode (c # b) = parse_val maxNestingDepth (Suc ?n) b"
    using c by (simp add: json_decode_def skip_ws_Cons)
  also have "\<dots> = json_decode b" by (rule json_decode_fuel) simp
  finally show ?thesis .
qed

lemma read_records_ws: "is_ws c \<Longrightarrow> read_records C (c # b) acc = read_records C b acc"
  by (simp add: read_records.simps [of C "c # b"] read_records.simps [of C b] json_decode_ws
      json_more_def skip_ws_Cons)

lemma read_records_line:
  assumes "codec_ok C" and "wf_record r"
  shows "read_records C (record_line C r @ b) acc = read_records C b (replay_record r acc)"
proof -
  have "json_decode (json_text (record_json C r) @ newline # b) = Some (record_json C r, newline # b)"
    using record_json_ok [OF assms] by (intro json_decode_text) (auto simp: newline_def)
  then have "read_records C (record_line C r @ b) acc = read_records C (newline # b) (replay_record r acc)"
    by (subst read_records.simps) (simp add: record_line_def json_more_line into_record_json assms)
  then show ?thesis by (simp add: read_records_ws newline_def)
qed

lemma read_records_Nil: "read_records C [] acc = Inr acc"
  by (simp add: read_records.simps json_more_def)

lemma read_records_log:
  assumes "codec_ok C"
  shows "list_all wf_record rs \<Longrightarrow>
    read_records C (log_text C rs @ b) acc = read_records C b (fold replay_record rs acc)"
  by (induction rs arbitrary: acc) (simp_all add: log_text_def read_records_line assms)

lemma log_text_append [simp]: "log_text C (rs @ rs') = log_text C rs @ log_text C rs'"
  by (simp add: log_text_def)

lemma log_text_simps [simp]: "log_text C [] = []" "log_text C (r # rs) = record_line C r @ log_text C rs"
  by (simp_all add: log_text_def)

lemma replay_simps [simp]:
  "replay_record (state_record h) acc = (h, snd acc)"
  "replay_record (entry_record e) acc = (fst acc, snd acc @ [e])"
  by (simp_all add: replay_record_def state_record_def entry_record_def zero_WALRecord_def)

lemma replay_entries: "fold replay_record (map entry_record es) acc = (fst acc, snd acc @ es)"
  by (induction es arbitrary: acc) auto

lemma wf_record_simps [simp]: "wf_record (state_record h)" "wf_record (entry_record e)"
  by (auto simp: wf_record_def)

lemma wf_entries [simp]: "list_all wf_record (map entry_record es)"
  by (simp add: list_all_iff)

section \<open>Writing\<close>

lemma appended_refl: "appended f [] s s"
  by (simp add: appended_def)

lemma appended_trans: "appended f b s s' \<Longrightarrow> appended f c s' s'' \<Longrightarrow> appended f (b @ c) s s''"
  by (simp add: appended_def)

lemma appended_fields:
  assumes "appended f b s s'"
  shows "fs_nodes s' = fs_nodes s" "fs_dirs s' = fs_dirs s" "fs_fresh s' = fs_fresh s"
    "fs_plan s' = fs_plan s" "fs_data s' (fd_inode f) = fs_data s (fd_inode f) @ b"
    "i \<noteq> fd_inode f \<Longrightarrow> fs_data s' i = fs_data s i"
  using assms by (auto simp: appended_def)

lemma appended_reliable: "appended f b s s' \<Longrightarrow> reliable s' \<longleftrightarrow> reliable s"
  by (simp add: reliable_def appended_fields)

lemma FWrite_writes: "fd_open f \<Longrightarrow> writes f b s (FWrite f b s)"
  by (auto simp: writes_def appended_def FWrite_def io_next_def reliable_def take_is_prefix
      split: io_outcome.splits)

lemma writes_Nil: "writes f [] s (Inr (), s)"
  by (auto simp: writes_def intro: appended_refl)

lemma writes_wrap:
  "writes f b s out \<Longrightarrow> writes f b s (case out of (Inl e, s) \<Rightarrow> (Inl (g e), s) | (Inr _, s) \<Rightarrow> (Inr (), s))"
  by (auto simp: writes_def split: prod.splits sum.splits)

lemma writes_bind:
  assumes "writes f b s out" and "\<And>s'. appended f b s s' \<Longrightarrow> writes f c s' (k s')"
  shows "writes f (b @ c) s (case out of (Inl e, s) \<Rightarrow> (Inl (g e), s) | (Inr _, s) \<Rightarrow> k s)"
proof -
  obtain r s1 where out: "out = (r, s1)" by (cases out)
  from assms(1) out obtain d where d: "appended f d s s1" "prefix d b" "r = Inr () \<longrightarrow> d = b"
    "reliable s \<longrightarrow> r = Inr ()" by (auto simp: writes_def)
  show ?thesis
  proof (cases r)
    case (Inl e)
    with d out show ?thesis by (auto simp: writes_def intro!: exI [of _ d] prefix_prefix)
  next
    case (Inr u)
    with d have ap: "appended f b s s1" by simp
    from assms(2) [OF ap] obtain e where e: "appended f e s1 (snd (k s1))" "prefix e c"
      "fst (k s1) = Inr () \<longrightarrow> e = c" "reliable s1 \<longrightarrow> fst (k s1) = Inr ()"
      by (auto simp: writes_def)
    with ap Inr out show ?thesis
      by (auto simp: writes_def appended_reliable intro!: exI [of _ "b @ e"] appended_trans)
  qed
qed

lemma writeEntries_writes:
  "fd_open (wal_f w) \<Longrightarrow>
   writes (wal_f w) (log_text C (map entry_record es)) s (WAL_writeEntries C w es s)"
proof (induction es arbitrary: s)
  case Nil
  then show ?case by (simp add: writes_Nil)
next
  case (Cons e es)
  have "writes (wal_f w) (record_line C (entry_record e)) s (WAL_writeRecord C w (entry_record e) s)"
    unfolding WAL_writeRecord_def by (intro writes_wrap FWrite_writes Cons.prems)
  from writes_bind [OF this, where g = "\<lambda>e. e"] Cons show ?case by simp
qed

lemma compact_entries_writes:
  "fd_open f \<Longrightarrow> writes f (log_text C (map entry_record es)) s (compact_entries C f es s)"
proof (induction es arbitrary: s)
  case Nil
  then show ?case by (simp add: writes_Nil)
next
  case (Cons e es)
  from writes_bind [OF FWrite_writes [OF Cons.prems]] Cons show ?case by simp
qed

lemma FSync_writes: "fd_open f \<Longrightarrow> writes f [] s (FSync f s)"
  by (auto simp: writes_def appended_def FSync_def io_next_def reliable_def split: io_outcome.splits)


section \<open>Save\<close>

lemma isHardStateEqual_eq: "isHardStateEqual a b \<longleftrightarrow> a = b"
  by (cases a, cases b) (auto simp: isHardStateEqual_def)

lemma fd_open_update [simp]: "wal_f (w\<lparr>wal_hardState := h\<rparr>) = wal_f w"
  by simp

lemma saveHardState_effect:
  assumes f: "fd_open (wal_f w)" and st: "WAL_saveHardState C h w s = (r, w', s')"
  shows "wal_f w' = wal_f w" and "wal_dir w' = wal_dir w" and "wal_entries w' = wal_entries w"
    and "r = Inr () \<Longrightarrow> w' = w\<lparr>wal_hardState := (if cd_empty_hs C h then wal_hardState w else h)\<rparr>"
    and "writes (wal_f w) (log_text C (changed_state C h w)) s (r, s')"
proof -
  show "wal_f w' = wal_f w" "wal_dir w' = wal_dir w" "wal_entries w' = wal_entries w"
    "r = Inr () \<Longrightarrow> w' = w\<lparr>wal_hardState := (if cd_empty_hs C h then wal_hardState w else h)\<rparr>"
    using st by (auto simp: WAL_saveHardState_def isHardStateEqual_eq split: if_splits prod.splits sum.splits)
  show "writes (wal_f w) (log_text C (changed_state C h w)) s (r, s')"
  proof (cases "changed_state C h w = []")
    case True
    with st show ?thesis by (auto simp: changed_state_def WAL_saveHardState_def writes_Nil split: if_splits)
  next
    case False
    then have hs: "changed_state C h w = [state_record h]" by (auto simp: changed_state_def)
    have "writes (wal_f w) (record_line C (state_record h)) s (WAL_writeRecord C w (state_record h) s)"
      unfolding WAL_writeRecord_def by (intro writes_wrap FWrite_writes f)
    moreover have "WAL_writeRecord C w (state_record h) s = (r, s')"
      using False st by (auto simp: changed_state_def WAL_saveHardState_def split: if_splits prod.splits sum.splits)
    ultimately show ?thesis by (simp add: hs)
  qed
qed

lemma WAL_Save_effect:
  assumes f: "fd_open (wal_f w)" and save: "WAL_Save C h es w s = (r, w', s')"
  shows "writes (wal_f w) (log_text C (saved_records C h es w)) s (r, s')"
    and "r = Inr () \<Longrightarrow> w' = w\<lparr>wal_hardState := (if cd_empty_hs C h then wal_hardState w else h),
           wal_entries := wal_entries w @ es\<rparr>"
    and "r \<noteq> Inr () \<Longrightarrow> wal_entries w' = wal_entries w"
    and "wal_f w' = wal_f w" and "wal_dir w' = wal_dir w"
proof -
  obtain r1 w1 s1 where st: "WAL_saveHardState C h w s = (r1, w1, s1)" by (cases "WAL_saveHardState C h w s")
  note w1 = saveHardState_effect [OF f st]
  have step: "writes (wal_f w) (log_text C (map entry_record es) @ []) t
      (case WAL_writeEntries C w1 es t of (Inl e, s) \<Rightarrow> (Inl e, s)
        | (Inr _, s) \<Rightarrow> (case FSync (wal_f w) s of (Inl e, s) \<Rightarrow> (Inl (Wrap ''failed to sync WAL'' e), s)
                          | (Inr _, s) \<Rightarrow> (Inr (), s)))" for t
    using writeEntries_writes [of w1 C es t] f w1(1) writes_wrap [OF FSync_writes [OF f]]
    by (intro writes_bind [where g = "\<lambda>e. e"]) auto
  have "(r, s') = (case (r1, s1) of (Inl e, s) \<Rightarrow> (Inl e, s)
     | (Inr _, s) \<Rightarrow> (case WAL_writeEntries C w1 es s of (Inl e, s) \<Rightarrow> (Inl e, s)
        | (Inr _, s) \<Rightarrow> (case FSync (wal_f w) s of (Inl e, s) \<Rightarrow> (Inl (Wrap ''failed to sync WAL'' e), s)
                          | (Inr _, s) \<Rightarrow> (Inr (), s))))"
    using save st w1(1) by (auto simp: WAL_Save_def split: prod.splits sum.splits)
  with writes_bind [OF w1(5), of "log_text C (map entry_record es) @ []", OF step, where g = "\<lambda>e. e"]
  show "writes (wal_f w) (log_text C (saved_records C h es w)) s (r, s')"
    by (simp add: saved_records_def changed_state_def)
  show "r = Inr () \<Longrightarrow> w' = w\<lparr>wal_hardState := (if cd_empty_hs C h then wal_hardState w else h),
           wal_entries := wal_entries w @ es\<rparr>"
    using save st w1 by (auto simp: WAL_Save_def split: prod.splits sum.splits)
  show "r \<noteq> Inr () \<Longrightarrow> wal_entries w' = wal_entries w"
    using save st w1 by (auto simp: WAL_Save_def split: prod.splits sum.splits)
  show "wal_f w' = wal_f w" "wal_dir w' = wal_dir w"
    using save st w1 by (auto simp: WAL_Save_def split: prod.splits sum.splits)
qed

lemma wal_open_file: "wal_open w s \<Longrightarrow> file_at s (wal_path (wal_dir w)) = Some (fs_data s (fd_inode (wal_f w)))"
  by (simp add: wal_open_def file_at_def)

lemma wal_open_appended:
  "appended f b s s' \<Longrightarrow> wal_open w s \<Longrightarrow> wal_f w' = wal_f w \<Longrightarrow> wal_dir w' = wal_dir w \<Longrightarrow> wal_open w' s'"
  by (simp add: wal_open_def fs_ok_def appended_fields)

lemma saved_replay:
  assumes "codec_ok C"
  shows "fold replay_record (saved_records C h es w) (wal_hardState w, wal_entries w)
    = (if cd_empty_hs C h then wal_hardState w else h, wal_entries w @ es)"
  by (auto simp: saved_records_def replay_entries isHardStateEqual_eq)

lemma saved_wf: "list_all wf_record (saved_records C h es w)"
  by (simp add: saved_records_def)

lemma WAL_Save_ok:
  assumes inv: "wal_inv C w s" and rel: "reliable s" and save: "WAL_Save C h es w s = (r, w', s')"
  shows "r = Inr ()" and "wal_inv C w' s'" and "reliable s'"
    and "wal_hardState w' = (if h = zero_HardState then wal_hardState w else h)"
    and "wal_entries w' = wal_entries w @ es"
proof -
  from inv have C: "codec_ok C" and wo: "wal_open w s" by (auto simp: wal_inv_def)
  then have f: "fd_open (wal_f w)" by (simp add: wal_open_def)
  note e = WAL_Save_effect [OF f save]
  from e(1) rel obtain c where c: "appended (wal_f w) c s s'" "r = Inr ()"
    "c = log_text C (saved_records C h es w)" by (auto simp: writes_def)
  from c e(2) have w': "w' = w\<lparr>wal_hardState := (if cd_empty_hs C h then wal_hardState w else h),
           wal_entries := wal_entries w @ es\<rparr>" by simp
  from inv obtain rs where rs: "list_all wf_record rs"
    "file_at s (wal_path (wal_dir w)) = Some (log_text C rs)"
    "fold replay_record rs (zero_HardState, []) = (wal_hardState w, wal_entries w)"
    by (auto simp: wal_inv_def)
  have wo': "wal_open w' s'" using wal_open_appended [OF c(1) wo] e(4,5) by simp
  show "r = Inr ()" by (rule c(2))
  show "reliable s'" using appended_reliable [OF c(1)] rel by simp
  show "wal_hardState w' = (if h = zero_HardState then wal_hardState w else h)"
    "wal_entries w' = wal_entries w @ es" using w' codec_okD(9) [OF C] by auto
  have "file_at s' (wal_path (wal_dir w')) = Some (log_text C (rs @ saved_records C h es w))"
    using wal_open_file [OF wo'] wal_open_file [OF wo] rs(2) c e(4) by (simp add: appended_fields)
  moreover have "fold replay_record (rs @ saved_records C h es w) (zero_HardState, [])
      = (wal_hardState w', wal_entries w')"
    using rs(3) saved_replay [OF C] w' by simp
  ultimately show "wal_inv C w' s'"
    using C wo' rs(1) saved_wf unfolding wal_inv_def by (metis list_all_append)
qed

section \<open>Reading\<close>

lemma WAL_ReadAll_ok:
  assumes "codec_ok C" and "reliable s" and "wal_open w0 s"
    and "list_all wf_record rs" and "file_at s (wal_path (wal_dir w0)) = Some (log_text C rs)"
    and "fold replay_record rs (zero_HardState, []) = (h, es)"
    and "WAL_ReadAll C w0 s = (r, w', s')"
  shows "r = Inr (h, es)" and "w' = w0\<lparr>wal_hardState := h, wal_entries := es\<rparr>"
    and "wal_inv C w' s'" and "reliable s'"
proof -
  have rd: "read_records C (log_text C rs) (zero_HardState, []) = Inr (h, es)"
    using read_records_log [OF assms(1,4), of "[]"] assms(6) by (simp add: read_records_Nil)
  from assms(3,5) obtain b where b: "map_of (fs_nodes s) (wal_path (wal_dir w0)) = Some (FileNode b)"
    "fs_data s b = log_text C rs" by (auto simp: wal_open_def file_at_def)
  then have out: "r = Inr (h, es)" "w' = w0\<lparr>wal_hardState := h, wal_entries := es\<rparr>"
    "s' = s\<lparr>fs_tick := Suc (fs_tick s)\<rparr>"
    using assms(2,7) rd by (auto simp: WAL_ReadAll_def ReadFile_def io_next_def reliable_def)
  then show "r = Inr (h, es)" "w' = w0\<lparr>wal_hardState := h, wal_entries := es\<rparr>" by auto
  show "reliable s'" using out assms(2) by (simp add: reliable_def)
  show "wal_inv C w' s'"
    using out assms b unfolding wal_inv_def
    by (auto simp: wal_open_def fs_ok_def file_at_def intro!: exI [of _ rs])
qed

lemma NewWAL_reopens:
  assumes "wal_open w s" and "reliable s" and "NewWAL (wal_dir w) s = (r, s')"
  shows "r = Inr \<lparr>wal_dir = wal_dir w, wal_f = \<lparr>fd_inode = fd_inode (wal_f w), fd_open = True\<rparr>,
               wal_hardState = zero_HardState, wal_entries = []\<rparr>"
    and "fs_data s' = fs_data s" "fs_nodes s' = fs_nodes s" "fs_fresh s' = fs_fresh s"
    "fs_plan s' = fs_plan s" "set (fs_dirs s') = set (fs_dirs s)"
  using assms
  by (auto simp: NewWAL_def MkdirAll_def OpenAppend_def io_next_def reliable_def wal_open_def)

lemma WAL_reopen_ok:
  assumes inv: "wal_inv C w s" and rel: "reliable s"
  obtains w' s' where "WAL_reopen C (wal_dir w) s = (Inr ((wal_hardState w, wal_entries w), w'), s')"
    and "wal_inv C w' s'" and "reliable s'" and "wal_dir w' = wal_dir w"
    and "wal_hardState w' = wal_hardState w" and "wal_entries w' = wal_entries w"
proof -
  from inv have C: "codec_ok C" and wo: "wal_open w s" by (auto simp: wal_inv_def)
  from inv obtain rs where rs: "list_all wf_record rs"
    "file_at s (wal_path (wal_dir w)) = Some (log_text C rs)"
    "fold replay_record rs (zero_HardState, []) = (wal_hardState w, wal_entries w)"
    by (auto simp: wal_inv_def)
  obtain r1 s1 where n: "NewWAL (wal_dir w) s = (r1, s1)" by (cases "NewWAL (wal_dir w) s")
  note ne = NewWAL_reopens [OF wo rel n]
  let ?w0 = "\<lparr>wal_dir = wal_dir w, wal_f = \<lparr>fd_inode = fd_inode (wal_f w), fd_open = True\<rparr>,
               wal_hardState = zero_HardState, wal_entries = []\<rparr>"
  have wo1: "wal_open ?w0 s1" and rel1: "reliable s1"
    using ne wo rel by (auto simp: wal_open_def fs_ok_def reliable_def)
  have fl: "file_at s1 (wal_path (wal_dir ?w0)) = Some (log_text C rs)"
    using rs(2) ne by (auto simp: file_at_def split: option.splits node.splits)
  obtain r2 w2 s2 where rd: "WAL_ReadAll C ?w0 s1 = (r2, w2, s2)" by (cases "WAL_ReadAll C ?w0 s1")
  note ra = WAL_ReadAll_ok [OF C rel1 wo1 rs(1) fl rs(3) rd]
  show ?thesis
    by (rule that [of w2 s2]) (use n ne(1) rd ra in \<open>auto simp: WAL_reopen_def\<close>)
qed


section \<open>Compact\<close>

lemma path_neq [simp]: "tmp_path d \<noteq> wal_path d" "wal_path d \<noteq> tmp_path d"
  by (simp_all add: tmp_path_def wal_path_def Join_def)

lemma fst_tmp_path [simp]: "fst (tmp_path d) = d"
  by (simp add: tmp_path_def wal_path_def Join_def)

lemma Create_tmp:
  assumes wo: "wal_open w s" and cr: "Create (tmp_path (wal_dir w)) s = (Inr f, s')"
  shows "fd_open f" and "fd_inode f \<noteq> fd_inode (wal_f w)" and "wal_open w s'"
    and "map_of (fs_nodes s') (tmp_path (wal_dir w)) = Some (FileNode (fd_inode f))"
    and "fs_data s' = (fs_data s)(fd_inode f := [])" and "fs_plan s' = fs_plan s"
  using assms
  by (auto simp: Create_def io_next_def new_file_def wal_open_def fs_ok_def update_conv'
      dest: nodes_okD split: io_outcome.splits option.splits node.splits if_splits)

lemma Create_tmp_reliable:
  "wal_open w s \<Longrightarrow> reliable s \<Longrightarrow> \<exists>f s'. Create (tmp_path (wal_dir w)) s = (Inr f, s')"
  by (auto simp: Create_def io_next_def reliable_def wal_open_def split: option.splits node.splits)

lemma Create_err:
  "Create p s = (Inl e, s') \<Longrightarrow> fs_nodes s' = fs_nodes s \<and> fs_data s' = fs_data s
     \<and> fs_dirs s' = fs_dirs s \<and> fs_fresh s' = fs_fresh s"
  by (auto simp: Create_def io_next_def new_file_def split: os_splits)

lemma compact_tmp_writes:
  assumes "fd_open f"
  shows "writes f (log_text C (compact_records C index w)) s
    (compact_tmp C f (wal_hardState w) (filter (\<lambda>e. index < en_Index e) (wal_entries w)) s)"
proof -
  let ?es = "filter (\<lambda>e. index < en_Index e) (wal_entries w)"
  let ?hs = "if cd_empty_hs C (wal_hardState w) then [] else [state_record (wal_hardState w)]"
  have st: "writes f (log_text C ?hs) s (compact_state C f (wal_hardState w) s)"
    using writes_wrap [OF FWrite_writes [OF assms]] by (simp add: compact_state_def writes_Nil)
  have "writes f (log_text C (map entry_record ?es) @ []) t
      (case compact_entries C f ?es t of (Inl e, s) \<Rightarrow> (Inl e, s)
        | (Inr _, s) \<Rightarrow> (case FSync f s of (Inl e, s) \<Rightarrow> (Inl (Wrap ''failed to sync temp WAL'' e), s)
                          | (Inr _, s) \<Rightarrow> (Inr (), s)))" for t
    by (intro writes_bind [where g = "\<lambda>e. e"] compact_entries_writes assms writes_wrap FSync_writes)
  from writes_bind [OF st this, where g = "\<lambda>e. e"] show ?thesis
    by (simp add: compact_tmp_def compact_records_def)
qed

lemma FClose_effect:
  "FClose f s = (r, f', s') \<Longrightarrow> fs_nodes s' = fs_nodes s \<and> fs_data s' = fs_data s \<and> fs_dirs s' = fs_dirs s
     \<and> fs_fresh s' = fs_fresh s \<and> fs_plan s' = fs_plan s"
  by (auto simp: FClose_def io_next_def split: io_outcome.splits if_splits)

lemma compact_fill_effect:
  assumes wo: "wal_open w s"
    and c: "compact_fill C (filter (\<lambda>e. index < en_Index e) (wal_entries w)) w s = (r, s')"
  shows "wal_open w s'" and "file_at s' (wal_path (wal_dir w)) = file_at s (wal_path (wal_dir w))"
    and "r = Inr () \<Longrightarrow>
      \<exists>i. map_of (fs_nodes s') (tmp_path (wal_dir w)) = Some (FileNode i) \<and> i \<noteq> fd_inode (wal_f w)
        \<and> fs_data s' i = log_text C (compact_records C index w)"
    and "reliable s \<Longrightarrow> r = Inr () \<and> reliable s'"
proof -
  let ?es = "filter (\<lambda>e. index < en_Index e) (wal_entries w)"
  obtain rc sc where cr: "Create (tmp_path (wal_dir w)) s = (rc, sc)"
    by (cases "Create (tmp_path (wal_dir w)) s")
  have "wal_open w s' \<and> file_at s' (wal_path (wal_dir w)) = file_at s (wal_path (wal_dir w))
    \<and> (r = Inr () \<longrightarrow>
      (\<exists>i. map_of (fs_nodes s') (tmp_path (wal_dir w)) = Some (FileNode i) \<and> i \<noteq> fd_inode (wal_f w)
        \<and> fs_data s' i = log_text C (compact_records C index w)))
    \<and> (reliable s \<longrightarrow> r = Inr () \<and> reliable s')"
  proof (cases rc)
    case (Inl e)
    then have "r = Inl (Wrap ''failed to create temp WAL'' e)" "s' = sc"
      using c cr by (auto simp: compact_fill_def)
    with Inl cr Create_err [of _ s e sc] Create_tmp_reliable [OF wo] wo show ?thesis
      by (auto simp: wal_open_def file_at_def fs_ok_def)
  next
    case (Inr f)
    note t = Create_tmp [OF wo cr [unfolded Inr]]
    obtain s1 where tmp: "compact_tmp C f (wal_hardState w) ?es sc = (r, s1)"
      and cl: "\<exists>r2 f2. FClose f s1 = (r2, f2, s')"
      using c cr Inr by (auto simp: compact_fill_def split: prod.splits)
    from compact_tmp_writes [OF t(1), of C index w sc] tmp obtain d where d: "appended f d sc s1"
      "r = Inr () \<longrightarrow> d = log_text C (compact_records C index w)" "reliable sc \<longrightarrow> r = Inr ()"
      by (auto simp: writes_def)
    from cl have s': "fs_nodes s' = fs_nodes s1" "fs_data s' = fs_data s1" "fs_dirs s' = fs_dirs s1"
      "fs_fresh s' = fs_fresh s1" "fs_plan s' = fs_plan s1" by (auto dest: FClose_effect)
    have "wal_open w s1" using wal_open_appended [OF d(1) t(3)] by simp
    then have wo': "wal_open w s'" using s' by (simp add: wal_open_def fs_ok_def)
    show ?thesis
      using wo' wal_open_file [OF wo'] wal_open_file [OF wo] s' d t
      by (auto simp: appended_fields reliable_def)
  qed
  then show "wal_open w s'" and "file_at s' (wal_path (wal_dir w)) = file_at s (wal_path (wal_dir w))"
    and "r = Inr () \<Longrightarrow>
      \<exists>i. map_of (fs_nodes s') (tmp_path (wal_dir w)) = Some (FileNode i) \<and> i \<noteq> fd_inode (wal_f w)
        \<and> fs_data s' i = log_text C (compact_records C index w)"
    and "reliable s \<Longrightarrow> r = Inr () \<and> reliable s'" by blast+
qed

lemma Rename_effect:
  assumes "map_of (fs_nodes s) p = Some (FileNode i)" and "map_of (fs_nodes s) q \<noteq> Some DirNode"
    and "Rename p q s = (r, s')"
  shows "fs_data s' = fs_data s" "fs_dirs s' = fs_dirs s" "fs_fresh s' = fs_fresh s"
    "fs_plan s' = fs_plan s" "reliable s \<Longrightarrow> r = Inr ()"
    "r \<noteq> Inr () \<Longrightarrow> fs_nodes s' = fs_nodes s"
    "r = Inr () \<Longrightarrow> fs_nodes s' = AList.update q (FileNode i) (AList.delete p (fs_nodes s))"
  using assms by (auto simp: Rename_def io_next_def reliable_def split: os_splits)

lemma OpenAppend_existing:
  assumes "map_of (fs_nodes s) p = Some (FileNode i)" and "OpenAppend c p s = (r, s')"
  shows "fs_nodes s' = fs_nodes s" "fs_data s' = fs_data s" "fs_dirs s' = fs_dirs s"
    "fs_fresh s' = fs_fresh s" "fs_plan s' = fs_plan s"
    "r = Inr g \<Longrightarrow> g = \<lparr>fd_inode = i, fd_open = True\<rparr>" "reliable s \<Longrightarrow> \<exists>g. r = Inr g"
  using assms by (auto simp: OpenAppend_def io_next_def reliable_def split: os_splits)

text \<open>After the rename: the log's file is the temporary one, whether or not it can be reopened.\<close>

lemma compact_swap_renamed:
  assumes wo: "wal_open w s" and tmp: "map_of (fs_nodes s) (tmp_path (wal_dir w)) = Some (FileNode i)"
    and c: "compact_swap es w s = (r, w', s')"
    and rn: "Rename (tmp_path (wal_dir w)) (wal_path (wal_dir w)) s = (Inr u, s1)"
  shows "file_at s' (wal_path (wal_dir w)) = Some (fs_data s i)" and "reliable s \<Longrightarrow> r = Inr () \<and> reliable s'"
    and "(\<exists>f. r \<noteq> Inr () \<and> w' = w\<lparr>wal_f := f\<rparr>)
         \<or> r = Inr () \<and> w' = w\<lparr>wal_f := \<lparr>fd_inode = i, fd_open = True\<rparr>, wal_entries := es\<rparr> \<and> wal_open w' s'"
proof -
  have "map_of (fs_nodes s) (wal_path (wal_dir w)) \<noteq> Some DirNode" using wo by (simp add: wal_open_def)
  note s1 = Rename_effect [OF tmp this rn]
  obtain r2 f2 s2 where cl: "FClose (wal_f w) s1 = (r2, f2, s2)" by (cases "FClose (wal_f w) s1")
  note s2 = FClose_effect [OF cl]
  obtain r3 s3 where op: "OpenAppend False (wal_path (wal_dir w)) s2 = (r3, s3)"
    by (cases "OpenAppend False (wal_path (wal_dir w)) s2")
  have wal2: "map_of (fs_nodes s2) (wal_path (wal_dir w)) = Some (FileNode i)"
    using s1(7) s2 by (simp add: update_conv')
  note s3 = OpenAppend_existing [OF wal2 op]
  have ok: "fs_ok s3" using wo tmp s1 s2 s3 by (auto simp: wal_open_def fs_ok_def intro: nodes_ok_rename)
  have t3: "map_of (fs_nodes s3) (tmp_path (wal_dir w)) = None"
    using s1(7) s2 s3 by (simp add: update_conv' delete_conv')
  have out: "s' = s3" "(\<exists>e. r3 = Inl e \<and> r = Inl (Wrap ''failed to reopen WAL'' e) \<and> w' = w\<lparr>wal_f := f2\<rparr>)
      \<or> (\<exists>g. r3 = Inr g \<and> r = Inr () \<and> w' = w\<lparr>wal_f := g, wal_entries := es\<rparr>)"
    using c rn cl op by (auto simp: compact_swap_def split: sum.splits)
  show "file_at s' (wal_path (wal_dir w)) = Some (fs_data s i)" using wal2 s3 s2 s1 out(1) by (simp add: file_at_def)
  show "reliable s \<Longrightarrow> r = Inr () \<and> reliable s'" using s1(4) s2 s3(5,7) out by (auto simp: reliable_def)
  have "wal_open (w\<lparr>wal_f := \<lparr>fd_inode = i, fd_open = True\<rparr>, wal_entries := es\<rparr>) s3"
    using ok t3 wal2 s1(2) s2 s3(1,3) wo by (simp add: wal_open_def)
  with out s3(6) show "(\<exists>f. r \<noteq> Inr () \<and> w' = w\<lparr>wal_f := f\<rparr>)
      \<or> r = Inr () \<and> w' = w\<lparr>wal_f := \<lparr>fd_inode = i, fd_open = True\<rparr>, wal_entries := es\<rparr> \<and> wal_open w' s'" by auto
qed

lemma compact_swap_effect:
  assumes wo: "wal_open w s" and tmp: "map_of (fs_nodes s) (tmp_path (wal_dir w)) = Some (FileNode i)"
    and c: "compact_swap es w s = (r, w', s')"
  shows "wal_dir w' = wal_dir w" and "wal_hardState w' = wal_hardState w"
    and "file_at s' (wal_path (wal_dir w)) = file_at s (wal_path (wal_dir w)) \<and> r \<noteq> Inr () \<and> w' = w
       \<or> file_at s' (wal_path (wal_dir w)) = Some (fs_data s i)"
    and "r = Inr () \<Longrightarrow> wal_open w' s' \<and> wal_entries w' = es
           \<and> file_at s' (wal_path (wal_dir w)) = Some (fs_data s i)"
    and "reliable s \<Longrightarrow> r = Inr () \<and> reliable s'"
proof -
  obtain r1 s1 where rn: "Rename (tmp_path (wal_dir w)) (wal_path (wal_dir w)) s = (r1, s1)"
    by (cases "Rename (tmp_path (wal_dir w)) (wal_path (wal_dir w)) s")
  have "map_of (fs_nodes s) (wal_path (wal_dir w)) \<noteq> Some DirNode" using wo by (simp add: wal_open_def)
  note s1 = Rename_effect [OF tmp this rn]
  consider (failed) "r \<noteq> Inr ()" "w' = w" "s' = s1" "\<not> reliable s"
      "file_at s' (wal_path (wal_dir w)) = file_at s (wal_path (wal_dir w))"
    | (renamed) u where "r1 = Inr u"
  proof (cases r1)
    case (Inl e)
    then have "r = Inl (Wrap ''failed to replace WAL'' e)" "w' = w" "s' = s1" using c rn by (auto simp: compact_swap_def)
    with Inl s1 wal_open_file [OF wo] wo that(1) show ?thesis by (auto simp: file_at_def wal_open_def)
  qed (rule that(2))
  note cases = this
  note renamed = compact_swap_renamed [OF wo tmp c, of _ s1]
  show "wal_dir w' = wal_dir w" "wal_hardState w' = wal_hardState w" by (cases rule: cases; use renamed(3) rn in force)+
  show "file_at s' (wal_path (wal_dir w)) = file_at s (wal_path (wal_dir w)) \<and> r \<noteq> Inr () \<and> w' = w
       \<or> file_at s' (wal_path (wal_dir w)) = Some (fs_data s i)" by (cases rule: cases) (use renamed(1) rn in simp_all)
  show "wal_open w' s' \<and> wal_entries w' = es \<and> file_at s' (wal_path (wal_dir w)) = Some (fs_data s i)" if "r = Inr ()"
    using that by (cases rule: cases) (use renamed(1,3) rn in auto)
  show "reliable s \<Longrightarrow> r = Inr () \<and> reliable s'" by (cases rule: cases) (use renamed(2) rn in simp_all)
qed

text \<open>The new file is complete under its temporary name before it takes the log's name.\<close>

lemma WAL_Compact_effect:
  assumes wo: "wal_open w s" and c: "WAL_Compact C index w s = (r, w', s')"
  shows "wal_dir w' = wal_dir w" and "wal_hardState w' = wal_hardState w"
    and "file_at s' (wal_path (wal_dir w)) = file_at s (wal_path (wal_dir w)) \<and> r \<noteq> Inr () \<and> w' = w
       \<or> file_at s' (wal_path (wal_dir w)) = Some (log_text C (compact_records C index w))"
    and "r = Inr () \<Longrightarrow> wal_open w' s'
           \<and> wal_entries w' = filter (\<lambda>e. index < en_Index e) (wal_entries w)
           \<and> file_at s' (wal_path (wal_dir w)) = Some (log_text C (compact_records C index w))"
    and "reliable s \<Longrightarrow> r = Inr () \<and> reliable s'"
proof -
  let ?es = "filter (\<lambda>e. index < en_Index e) (wal_entries w)"
  obtain r1 s1 where fill: "compact_fill C ?es w s = (r1, s1)" by (cases "compact_fill C ?es w s")
  note f = compact_fill_effect [OF wo fill]
  have "wal_dir w' = wal_dir w \<and> wal_hardState w' = wal_hardState w
    \<and> (file_at s' (wal_path (wal_dir w)) = file_at s (wal_path (wal_dir w)) \<and> r \<noteq> Inr () \<and> w' = w
       \<or> file_at s' (wal_path (wal_dir w)) = Some (log_text C (compact_records C index w)))
    \<and> (r = Inr () \<longrightarrow> wal_open w' s' \<and> wal_entries w' = ?es
        \<and> file_at s' (wal_path (wal_dir w)) = Some (log_text C (compact_records C index w)))
    \<and> (reliable s \<longrightarrow> r = Inr () \<and> reliable s')"
  proof (cases r1)
    case (Inl e)
    with c fill f show ?thesis by (auto simp: WAL_Compact_def)
  next
    case (Inr u)
    then obtain i where i: "map_of (fs_nodes s1) (tmp_path (wal_dir w)) = Some (FileNode i)"
      "fs_data s1 i = log_text C (compact_records C index w)" using f(3) by auto
    have "compact_swap ?es w s1 = (r, w', s')" using c fill Inr by (simp add: WAL_Compact_def)
    from compact_swap_effect [OF f(1) i(1) this] i(2) f(2,4) show ?thesis by auto
  qed
  then show "wal_dir w' = wal_dir w" and "wal_hardState w' = wal_hardState w"
    and "file_at s' (wal_path (wal_dir w)) = file_at s (wal_path (wal_dir w)) \<and> r \<noteq> Inr () \<and> w' = w
       \<or> file_at s' (wal_path (wal_dir w)) = Some (log_text C (compact_records C index w))"
    and "r = Inr () \<Longrightarrow> wal_open w' s' \<and> wal_entries w' = ?es
           \<and> file_at s' (wal_path (wal_dir w)) = Some (log_text C (compact_records C index w))"
    and "reliable s \<Longrightarrow> r = Inr () \<and> reliable s'" by blast+
qed


end
