(* ===== verification/Sample_Codec.thy ===== *)
theory Sample_Codec
  imports Raftpb
begin

text \<open>
  A concrete encoding of the Raft library's structs that satisfies \<open>codec_ok\<close>: every struct is
  an array of decimal numbers. It shows that the hypotheses on the library can hold, and the
  concrete runs of the development use it. It models no code of the repository.
\<close>

definition nums_json :: "nat list \<Rightarrow> json" where
  "nums_json ns = JArr (map (\<lambda>n. JNum (dec n)) ns)"

fun lit_nums :: "json list \<Rightarrow> nat list option" where
  "lit_nums [] = Some []"
| "lit_nums (JNum l # js) =
     (case (digits_val 0 l, lit_nums js) of (Some n, Some ns) \<Rightarrow> Some (n # ns) | _ \<Rightarrow> None)"
| "lit_nums _ = None"

definition json_nums :: "json \<Rightarrow> nat list option" where
  "json_nums j = (case j of JArr js \<Rightarrow> lit_nums js | _ \<Rightarrow> None)"

definition hs_nums :: "HardState \<Rightarrow> nat list" where
  "hs_nums h = [unat (hs_Term h), unat (hs_Vote h), unat (hs_Commit h)]"

fun nums_hs :: "nat list \<Rightarrow> HardState option" where
  "nums_hs [t, v, c] = Some \<lparr>hs_Term = of_nat t, hs_Vote = of_nat v, hs_Commit = of_nat c\<rparr>"
| "nums_hs _ = None"

fun type_num :: "raft_EntryType \<Rightarrow> nat" where
  "type_num raftpb_EntryNormal = 0"
| "type_num raftpb_EntryConfChange = 1"
| "type_num raftpb_EntryOther = 2"

definition num_type :: "nat \<Rightarrow> raft_EntryType" where
  "num_type n =
     (if n = 0 then raftpb_EntryNormal else if n = 1 then raftpb_EntryConfChange else raftpb_EntryOther)"

definition en_nums :: "raft_Entry \<Rightarrow> nat list" where
  "en_nums e = [unat (en_Term e), unat (en_Index e), type_num (en_Type e)] @ map byte_val (en_Data e)"

fun nums_en :: "nat list \<Rightarrow> raft_Entry option" where
  "nums_en (t # i # ty # d) =
     Some \<lparr>en_Term = of_nat t, en_Index = of_nat i, en_Type = num_type ty, en_Data = map char_of d\<rparr>"
| "nums_en _ = None"

definition sn_nums :: "raft_Snapshot \<Rightarrow> nat list" where
  "sn_nums x =
     (let md = sn_Metadata x; cs = md_ConfState md
      in [unat (md_Index md), unat (md_Term md), length (cs_Voters cs)] @ map unat (cs_Voters cs)
         @ [length (cs_Learners cs)] @ map unat (cs_Learners cs) @ map byte_val (sn_Data x))"

fun nums_sn :: "nat list \<Rightarrow> raft_Snapshot option" where
  "nums_sn (i # t # nv # r) =
     (case drop nv r of
        [] \<Rightarrow> None
      | nl # r2 \<Rightarrow>
          Some \<lparr>sn_Data = map char_of (drop nl r2),
                sn_Metadata = \<lparr>md_ConfState = \<lparr>cs_Voters = map of_nat (take nv r),
                                                cs_Learners = map of_nat (take nl r2)\<rparr>,
                                md_Index = of_nat i, md_Term = of_nat t\<rparr>\<rparr>)"
| "nums_sn _ = None"

definition sample_cc_unmarshal :: "bytes \<Rightarrow> ConfChange res" where
  "sample_cc_unmarshal b =
     (case b of
        ty # n # ctx \<Rightarrow>
          Inr \<lparr>cc_Type = (if ty = CHR ''A'' then ConfChangeAddNode
                          else if ty = CHR ''R'' then ConfChangeRemoveNode
                          else if ty = CHR ''L'' then ConfChangeAddLearnerNode
                          else ConfChangeUpdateNode),
               cc_NodeID = of_nat (byte_val n), cc_Context = ctx\<rparr>
      | _ \<Rightarrow> Inl (ErrLib 0))"

definition sample_codec :: raft_codec where
  "sample_codec =
     \<lparr>cd_hs = (\<lambda>h. nums_json (hs_nums h)),
      cd_hs_into = (\<lambda>cur j. Option.bind (json_nums j) nums_hs),
      cd_en = (\<lambda>e. nums_json (en_nums e)),
      cd_en_into = (\<lambda>cur j. Option.bind (json_nums j) nums_en),
      cd_sn = (\<lambda>x. nums_json (sn_nums x)),
      cd_sn_into = (\<lambda>cur j. Option.bind (json_nums j) nums_sn),
      cd_empty_hs = (\<lambda>h. h = zero_HardState),
      cd_empty_snap = (\<lambda>x. md_Index (sn_Metadata x) = 0),
      cd_cc_unmarshal = sample_cc_unmarshal\<rparr>"

lemma lit_nums_dec: "lit_nums (map (\<lambda>n. JNum (dec n)) ns) = Some ns"
  by (induction ns) (simp_all add: digits_val_dec)

lemma json_nums_nums_json [simp]: "json_nums (nums_json ns) = Some ns"
  by (simp add: json_nums_def nums_json_def lit_nums_dec)

lemma wire_ok_nums_json: "wire_ok (nums_json ns)"
proof -
  have "foldr max (map json_depth (map (\<lambda>n. JNum (dec n)) ns)) 0 \<le> (0 :: nat)"
    by (subst foldr_max_le_iff) simp
  then show ?thesis by (simp add: wire_ok_def nums_json_def list_all_iff int_lit_dec)
qed

lemma nums_hs_nums [simp]: "nums_hs (hs_nums h) = Some h"
  by (cases h) (simp add: hs_nums_def)

lemma num_type_num [simp]: "num_type (type_num t) = t"
  by (cases t) (simp_all add: num_type_def)

lemma nums_en_nums [simp]: "nums_en (en_nums e) = Some e"
  by (cases e) (simp add: en_nums_def comp_def)

lemma nums_sn_nums [simp]: "nums_sn (sn_nums x) = Some x"
proof (cases x)
  case (fields d md)
  obtain cs i t where md: "md = \<lparr>md_ConfState = cs, md_Index = i, md_Term = t\<rparr>" by (cases md) auto
  obtain v l where "cs = \<lparr>cs_Voters = v, cs_Learners = l\<rparr>" by (cases cs) auto
  with fields md show ?thesis by (simp add: sn_nums_def Let_def comp_def)
qed

lemma sample_codec_ok: "codec_ok sample_codec"
  by (simp add: codec_ok_def sample_codec_def wire_ok_nums_json)

end
