(* ===== verification/WAL_Log.thy ===== *)
theory WAL_Log
  imports WAL Sample_Codec
begin

text \<open>
  The write-ahead log as a durable log: an abstract log (hard state and entries), the interface the
  node relies on, the proof that \<open>wal.go\<close> provides it when the file system's calls succeed, and what
  is guaranteed when they fail.
\<close>

section \<open>The abstract log\<close>

datatype log_op = LogSave HardState "raft_Entry list" | LogCompact u64 | LogReopen

fun spec_op :: "log_op \<Rightarrow> HardState \<times> raft_Entry list \<Rightarrow> HardState \<times> raft_Entry list" where
  "spec_op (LogSave h es) (h0, es0) = (if h = zero_HardState then h0 else h, es0 @ es)"
| "spec_op (LogCompact i) (h0, es0) = (h0, filter (\<lambda>e. i < en_Index e) es0)"
| "spec_op LogReopen x = x"

text \<open>The operations of the implementation; a failed call has no successor.\<close>

fun wal_op :: "raft_codec \<Rightarrow> log_op \<Rightarrow> WAL \<times> fs \<Rightarrow> (WAL \<times> fs) option" where
  "wal_op C (LogSave h es) (w, s) =
     (case WAL_Save C h es w s of (Inr _, w, s) \<Rightarrow> Some (w, s) | (Inl _, _, _) \<Rightarrow> None)"
| "wal_op C (LogCompact i) (w, s) =
     (case WAL_Compact C i w s of (Inr _, w, s) \<Rightarrow> Some (w, s) | (Inl _, _, _) \<Rightarrow> None)"
| "wal_op C LogReopen (w, s) =
     (case WAL_reopen C (wal_dir w) s of (Inr (_, w), s) \<Rightarrow> Some (w, s) | (Inl _, _) \<Rightarrow> None)"

definition wal_state_ok :: "raft_codec \<Rightarrow> WAL \<times> fs \<Rightarrow> bool" where
  "wal_state_ok C x \<longleftrightarrow> wal_inv C (fst x) (snd x) \<and> reliable (snd x)"

definition wal_view :: "WAL \<times> fs \<Rightarrow> HardState \<times> raft_Entry list" where
  "wal_view x = (wal_hardState (fst x), wal_entries (fst x))"

text \<open>A log directory with an empty log, for concrete runs.\<close>

definition sample_plan_fs :: "(nat \<Rightarrow> io_outcome) \<Rightarrow> fs" where
  "sample_plan_fs plan =
     \<lparr>fs_dirs = [''d''], fs_nodes = [((''d'', ''wal.log''), FileNode 0)], fs_data = (\<lambda>_. []),
      fs_fresh = 1, fs_tick = 0, fs_plan = plan\<rparr>"

definition sample_wal :: WAL where
  "sample_wal =
     \<lparr>wal_dir = ''d'', wal_f = \<lparr>fd_inode = 0, fd_open = True\<rparr>, wal_hardState = zero_HardState,
      wal_entries = []\<rparr>"

definition sample_entry :: "u64 \<Rightarrow> raft_Entry" where
  "sample_entry i = \<lparr>en_Term = 1, en_Index = i, en_Type = raftpb_EntryNormal, en_Data = []\<rparr>"

definition sample_hs :: HardState where
  "sample_hs = \<lparr>hs_Term = 1, hs_Vote = 7, hs_Commit = 2\<rparr>"

definition sync_fails :: "nat \<Rightarrow> io_outcome" where
  "sync_fails n = (if n = 1 then IoErr 0 else IoOk)"

section \<open>The interface\<close>

text \<open>
  What the node relies on: after any mix of appends, compactions and restarts the log holds what
  the calls say. The laws are about single operations; the lemma lifts them to sequences.
\<close>

locale durable_log =
  fixes inv :: "'s \<Rightarrow> bool"
    and view :: "'s \<Rightarrow> HardState \<times> raft_Entry list"
    and do_op :: "log_op \<Rightarrow> 's \<Rightarrow> 's option"
  assumes op_total: "inv s \<Longrightarrow> \<exists>t. do_op x s = Some t"
    and op_inv: "inv s \<Longrightarrow> do_op x s = Some t \<Longrightarrow> inv t"
    and op_view: "inv s \<Longrightarrow> do_op x s = Some t \<Longrightarrow> view t = spec_op x (view s)"
begin

lemma run_refines:
  "inv s \<Longrightarrow> \<exists>t. fold_opt do_op xs s = Some t \<and> inv t \<and> view t = fold spec_op xs (view s)"
proof (induction xs arbitrary: s)
  case Nil
  then show ?case by simp
next
  case (Cons x xs)
  obtain t where t: "do_op x s = Some t" using op_total [OF Cons.prems] by blast
  with Cons.IH [OF op_inv [OF Cons.prems t]] op_view [OF Cons.prems t] show ?case by simp
qed

end

section \<open>The implementation provides it\<close>

lemma compact_replay:
  assumes "codec_ok C"
  shows "fold replay_record (compact_records C i w) (zero_HardState, [])
     = (wal_hardState w, filter (\<lambda>e. i < en_Index e) (wal_entries w))"
  using codec_okD(9) [OF assms] by (auto simp: compact_records_def replay_entries)

lemma compact_wf: "list_all wf_record (compact_records C i w)"
  by (simp add: compact_records_def)

lemma WAL_Compact_ok:
  assumes inv: "wal_inv C w s" and rel: "reliable s" and c: "WAL_Compact C i w s = (r, w', s')"
  shows "r = Inr ()" and "wal_inv C w' s'" and "reliable s'" and "wal_hardState w' = wal_hardState w"
    and "wal_entries w' = filter (\<lambda>e. i < en_Index e) (wal_entries w)"
proof -
  from inv have C: "codec_ok C" and wo: "wal_open w s" by (auto simp: wal_inv_def)
  note e = WAL_Compact_effect [OF wo c]
  from e(5) rel show r: "r = Inr ()" and "reliable s'" by auto
  show "wal_hardState w' = wal_hardState w" by (rule e(2))
  show "wal_entries w' = filter (\<lambda>e. i < en_Index e) (wal_entries w)" using e(4) [OF r] by simp
  with e(1,2) e(4) [OF r] C compact_wf compact_replay [OF C] show "wal_inv C w' s'"
    unfolding wal_inv_def by metis
qed

interpretation wal: durable_log "wal_state_ok C" wal_view "wal_op C" for C
proof unfold_locales
  fix x :: "WAL \<times> fs" and y op
  assume ok: "wal_state_ok C x"
  obtain w s where x: "x = (w, s)" by (cases x)
  from ok x have inv: "wal_inv C w s" and rel: "reliable s" by (auto simp: wal_state_ok_def)
  have "\<exists>t. wal_op C op x = Some t \<and> wal_state_ok C t \<and> wal_view t = spec_op op (wal_view x)"
  proof (cases op)
    case (LogSave h es)
    obtain r w' s' where sv: "WAL_Save C h es w s = (r, w', s')" by (cases "WAL_Save C h es w s")
    from WAL_Save_ok [OF inv rel sv] sv LogSave x show ?thesis
      by (simp add: wal_state_ok_def wal_view_def)
  next
    case (LogCompact i)
    obtain r w' s' where c: "WAL_Compact C i w s = (r, w', s')" by (cases "WAL_Compact C i w s")
    from WAL_Compact_ok [OF inv rel c] c LogCompact x show ?thesis
      by (simp add: wal_state_ok_def wal_view_def)
  next
    case LogReopen
    obtain w' s' where "WAL_reopen C (wal_dir w) s = (Inr ((wal_hardState w, wal_entries w), w'), s')"
      "wal_inv C w' s'" "reliable s'" "wal_hardState w' = wal_hardState w" "wal_entries w' = wal_entries w"
      using WAL_reopen_ok [OF inv rel] by blast
    with LogReopen x show ?thesis by (simp add: wal_state_ok_def wal_view_def)
  qed
  then show "\<exists>t. wal_op C op x = Some t"
    and "wal_op C op x = Some y \<Longrightarrow> wal_state_ok C y"
    and "wal_op C op x = Some y \<Longrightarrow> wal_view y = spec_op op (wal_view x)" by auto
qed

lemma sample_wal_fields [simp]:
  "wal_dir sample_wal = ''d''" "wal_entries sample_wal = []" "wal_hardState sample_wal = zero_HardState"
  by (simp_all add: sample_wal_def)

lemma sample_wal_open: "wal_open sample_wal (sample_plan_fs plan)"
  by (simp add: wal_open_def sample_wal_def sample_plan_fs_def fs_ok_def nodes_ok_def gomap_ok_def
      wal_path_def tmp_path_def Join_def)

lemma sample_wal_inv: "wal_inv sample_codec sample_wal (sample_plan_fs plan)"
  unfolding wal_inv_def
  by (intro conjI sample_codec_ok sample_wal_open exI [of _ "[]"])
    (simp_all add: sample_wal_def sample_plan_fs_def wal_path_def Join_def file_at_def)

lemma sample_reliable: "reliable (sample_plan_fs (\<lambda>_. IoOk))"
  by (simp add: reliable_def sample_plan_fs_def)

section \<open>Properties\<close>

text \<open>C5: after any sequence of saves, compactions and restarts on a file system whose calls succeed,
  a crash followed by opening and reading the log recovers exactly what the abstract log holds.\<close>

theorem wal_recovers_spec:
  assumes "wal_inv C w s" and "reliable s"
  shows "\<exists>w1 s1 w2 s2. fold_opt (wal_op C) ops (w, s) = Some (w1, s1)
     \<and> WAL_reopen C (wal_dir w1) s1 = (Inr (fold spec_op ops (wal_hardState w, wal_entries w), w2), s2)"
proof -
  from assms have "wal_state_ok C (w, s)" by (simp add: wal_state_ok_def)
  from wal.run_refines [OF this, of ops] obtain w1 s1 where
    run: "fold_opt (wal_op C) ops (w, s) = Some (w1, s1)" "wal_state_ok C (w1, s1)"
    "wal_view (w1, s1) = fold spec_op ops (wal_view (w, s))" by (metis surj_pair)
  from run(2) have "wal_inv C w1 s1" "reliable s1" by (auto simp: wal_state_ok_def)
  with run(1,3) show ?thesis
    by (metis WAL_reopen_ok fst_conv snd_conv wal_view_def)
qed

theorem wal_recovers_spec_witness:
  "wal_inv sample_codec sample_wal (sample_plan_fs (\<lambda>_. IoOk)) \<and> reliable (sample_plan_fs (\<lambda>_. IoOk))
   \<and> (\<exists>w1 s1 w2 s2.
        fold_opt (wal_op sample_codec)
          [LogSave sample_hs [sample_entry 1, sample_entry 2], LogReopen, LogCompact 1]
          (sample_wal, sample_plan_fs (\<lambda>_. IoOk)) = Some (w1, s1)
        \<and> WAL_reopen sample_codec (wal_dir w1) s1 = (Inr ((sample_hs, [sample_entry 2]), w2), s2))"
  using wal_recovers_spec [OF sample_wal_inv sample_reliable,
      of "[LogSave sample_hs [sample_entry 1, sample_entry 2], LogReopen, LogCompact 1]"]
    sample_wal_inv sample_reliable
  by (simp add: sample_hs_def sample_entry_def zero_HardState_def)

text \<open>C10: whatever calls fail during a compaction, the log file afterwards reads back to the state before it or
  to the compacted state, and never to anything else.\<close>

theorem compact_atomic:
  assumes inv: "wal_inv C w s" and c: "WAL_Compact C i w s = (r, w', s')"
  shows "\<exists>b. file_at s' (wal_path (wal_dir w)) = Some b
     \<and> (read_records C b (zero_HardState, []) = Inr (wal_hardState w, wal_entries w)
        \<or> read_records C b (zero_HardState, [])
            = Inr (wal_hardState w, filter (\<lambda>e. i < en_Index e) (wal_entries w)))"
proof -
  from inv have C: "codec_ok C" and wo: "wal_open w s" by (auto simp: wal_inv_def)
  from inv obtain rs where rs: "list_all wf_record rs"
    "file_at s (wal_path (wal_dir w)) = Some (log_text C rs)"
    "fold replay_record rs (zero_HardState, []) = (wal_hardState w, wal_entries w)"
    by (auto simp: wal_inv_def)
  have rd: "read_records C (log_text C rs') acc = Inr (fold replay_record rs' acc)"
    if "list_all wf_record rs'" for rs' acc
    using read_records_log [OF C that, of "[]"] by (simp add: read_records_Nil)
  from WAL_Compact_effect(3) [OF wo c] rs show ?thesis
    using rd [OF rs(1)] rd [OF compact_wf] compact_replay [OF C] by auto
qed

theorem compact_atomic_witness:
  "wal_inv sample_codec sample_wal (sample_plan_fs (\<lambda>_. IoErr 0))
   \<and> (\<exists>r w' s' b. WAL_Compact sample_codec 1 sample_wal (sample_plan_fs (\<lambda>_. IoErr 0)) = (r, w', s')
        \<and> file_at s' (wal_path ''d'') = Some b
        \<and> read_records sample_codec b (zero_HardState, []) = Inr (zero_HardState, []))"
proof -
  obtain r w' s' where c: "WAL_Compact sample_codec 1 sample_wal (sample_plan_fs (\<lambda>_. IoErr 0)) = (r, w', s')"
    by (cases "WAL_Compact sample_codec 1 sample_wal (sample_plan_fs (\<lambda>_. IoErr 0))")
  from compact_atomic [OF sample_wal_inv c] c sample_wal_inv show ?thesis by auto
qed

text \<open>A save that fails after its entries reached the file (for instance in the final sync) leaves the entries
  on disk but not in memory, and the next successful compaction rewrites the file without them, even those above
  the compaction index.\<close>

theorem compact_discards_failed_save:
  assumes inv: "wal_inv C w s" and save: "WAL_Save C h es w s = (Inl e, w1, s1)"
    and c: "WAL_Compact C i w1 s1 = (Inr (), w2, s2)"
  shows "\<exists>b. file_at s2 (wal_path (wal_dir w)) = Some b
     \<and> read_records C b (zero_HardState, [])
         = Inr (wal_hardState w1, filter (\<lambda>e. i < en_Index e) (wal_entries w))"
proof -
  from inv have C: "codec_ok C" and wo: "wal_open w s" by (auto simp: wal_inv_def)
  then have f: "fd_open (wal_f w)" by (simp add: wal_open_def)
  note sv = WAL_Save_effect [OF f save]
  from sv(1) obtain x where "appended (wal_f w) x s s1" by (auto simp: writes_def)
  then have wo1: "wal_open w1 s1" using wal_open_appended [OF _ wo] sv(4,5) by simp
  have "wal_entries w1 = wal_entries w" using sv(3) by simp
  moreover have "read_records C (log_text C (compact_records C i w1)) (zero_HardState, [])
      = Inr (fold replay_record (compact_records C i w1) (zero_HardState, []))"
    using read_records_log [OF C compact_wf [of C i w1], of "[]"] by (simp add: read_records_Nil)
  ultimately show ?thesis
    using WAL_Compact_effect(4) [OF wo1 c] sv(5) compact_replay [OF C, of i w1] by auto
qed

theorem compact_discards_failed_save_witness:
  "\<exists>e w1 s1 w2 s2 b b2.
     WAL_Save sample_codec zero_HardState [sample_entry 5] sample_wal (sample_plan_fs sync_fails) = (Inl e, w1, s1)
   \<and> file_at s1 (wal_path ''d'') = Some b
   \<and> read_records sample_codec b (zero_HardState, []) = Inr (zero_HardState, [sample_entry 5])
   \<and> WAL_Compact sample_codec 1 w1 s1 = (Inr (), w2, s2)
   \<and> file_at s2 (wal_path ''d'') = Some b2
   \<and> read_records sample_codec b2 (zero_HardState, []) = Inr (zero_HardState, [])"
proof -
  let ?s = "sample_plan_fs sync_fails"
  obtain r w1 s1 where sv: "WAL_Save sample_codec zero_HardState [sample_entry 5] sample_wal ?s = (r, w1, s1)"
    by (cases "WAL_Save sample_codec zero_HardState [sample_entry 5] sample_wal ?s")
  have out: "r = Inl (Wrap ''failed to sync WAL'' ErrIO)" "w1 = sample_wal"
    "s1 = ?s\<lparr>fs_tick := 2, fs_data := (\<lambda>_. [])(0 := record_line sample_codec (entry_record (sample_entry 5)))\<rparr>"
    using sv by (auto simp: WAL_Save_def WAL_saveHardState_def sample_codec_def [THEN arg_cong, where f = cd_empty_hs]
        WAL_writeRecord_def FWrite_def FSync_def io_next_def sample_plan_fs_def sample_wal_def sync_fails_def)
  have rd: "read_records sample_codec (record_line sample_codec (entry_record (sample_entry 5))) (zero_HardState, [])
      = Inr (zero_HardState, [sample_entry 5])"
    using read_records_log [OF sample_codec_ok, of "[entry_record (sample_entry 5)]" "[]"]
    by (simp add: read_records_Nil)
  obtain r2 w2 s2 where c: "WAL_Compact sample_codec 1 w1 s1 = (r2, w2, s2)"
    by (cases "WAL_Compact sample_codec 1 w1 s1")
  have "r2 = Inr ()"
    using c unfolding out(2,3)
    by (auto simp: WAL_Compact_def compact_fill_def compact_swap_def compact_tmp_def compact_state_def
        sample_codec_def sample_wal_def sample_plan_fs_def Create_def FSync_def FClose_def Rename_def
        OpenAppend_def io_next_def new_file_def sync_fails_def tmp_path_def wal_path_def Join_def
        split: prod.splits)
  with c have c: "WAL_Compact sample_codec 1 w1 s1 = (Inr (), w2, s2)" by simp
  from compact_discards_failed_save [OF sample_wal_inv sv [unfolded out(1)] c] sv c rd show ?thesis
    by (auto simp: out sample_wal_def file_at_def sample_plan_fs_def wal_path_def Join_def)
qed

end
