(* ===== verification/Snapshotter.thy ===== *)
theory Snapshotter
  imports Raftpb Go_OS
begin

text \<open>
  \<open>server/pkg/storage/snapshot.go\<close>: snapshots as files \<open>snapshot-<index>.json\<close> of one directory.
  The methods run under the snapshotter's mutex. \<open>sort.Slice\<close> does not promise an order between
  equal indices; the model keeps the order of the directory, and the files written by \<open>Save\<close> have
  distinct indices.
\<close>

record Snapshotter =
  sp_dir :: string

definition NewSnapshotter :: "string \<Rightarrow> Snapshotter" where
  "NewSnapshotter dir = \<lparr>sp_dir = dir\<rparr>"

definition snapshot_name :: "u64 \<Rightarrow> string" where
  "snapshot_name i = ''snapshot-'' @ dec (unat i) @ ''.json''"

text \<open>The test both loops make of a directory entry: a file whose name carries an index.\<close>

definition snapshot_index :: "string \<times> bool \<Rightarrow> u64 option" where
  "snapshot_index file =
     (let name = fst file in
      if snd file then None
      else if \<not> HasPrefix name ''snapshot-'' \<or> \<not> HasSuffix name ''.json'' then None
      else case ParseUint (TrimSuffix (TrimPrefix name ''snapshot-'') ''.json'') of
             Inl _ \<Rightarrow> None
           | Inr index \<Rightarrow> Some index)"

fun remove_snapshots :: "string \<Rightarrow> (string \<times> u64) list \<Rightarrow> fs \<Rightarrow> unit res \<times> fs" where
  "remove_snapshots dir [] s = (Inr (), s)"
| "remove_snapshots dir (f # fs) s =
     (case Remove (Join dir (fst f)) s of
        (Inl e, s) \<Rightarrow> (Inl (Wrap ''failed to remove old snapshot'' e), s)
      | (Inr _, s) \<Rightarrow> remove_snapshots dir fs s)"

text \<open>The snapshot files of a directory listing, and the same in descending order of their indices.\<close>

definition snapshot_files :: "(string \<times> bool) list \<Rightarrow> (string \<times> u64) list" where
  "snapshot_files files = List.map_filter (\<lambda>f. map_option (\<lambda>i. (fst f, i)) (snapshot_index f)) files"

definition sort_descending :: "(string \<times> u64) list \<Rightarrow> (string \<times> u64) list" where
  "sort_descending l = sort_key (\<lambda>f. - uint (snd f)) l"

definition Snapshotter_cleanup :: "Snapshotter \<Rightarrow> nat \<Rightarrow> fs \<Rightarrow> unit res \<times> fs" where
  "Snapshotter_cleanup sp keep s =
     (case ReadDir (sp_dir sp) s of
        (Inl e, s) \<Rightarrow> (Inl (Wrap ''failed to read snapshot directory'' e), s)
      | (Inr files, s) \<Rightarrow>
          (let snapshots = snapshot_files files in
           if length snapshots \<le> keep then (Inr (), s)
           else remove_snapshots (sp_dir sp) (drop keep (sort_descending snapshots)) s))"

text \<open>\<open>Save\<close>; an error of \<open>cleanup\<close> is only printed.\<close>

definition Snapshotter_Save :: "raft_codec \<Rightarrow> Snapshotter \<Rightarrow> raft_Snapshot \<Rightarrow> fs \<Rightarrow> unit res \<times> fs" where
  "Snapshotter_Save C sp x s =
     (case MkdirAll (sp_dir sp) s of
        (Inl e, s) \<Rightarrow> (Inl (Wrap ''failed to create snapshot directory'' e), s)
      | (Inr _, s) \<Rightarrow>
          (case WriteFile (Join (sp_dir sp) (snapshot_name (md_Index (sn_Metadata x))))
                  (json_text (cd_sn C x)) s of
             (Inl e, s) \<Rightarrow> (Inl (Wrap ''failed to write snapshot'' e), s)
           | (Inr _, s) \<Rightarrow>
               (case Snapshotter_cleanup sp 3 s of (_, s) \<Rightarrow> (Inr (), s))))"

text \<open>One turn of the loop of \<open>Load\<close>: the file with the largest index so far, which starts at 0.\<close>

definition pick_latest :: "string \<times> bool \<Rightarrow> string \<times> u64 \<Rightarrow> string \<times> u64" where
  "pick_latest file latest =
     (case snapshot_index file of
        None \<Rightarrow> latest
      | Some index \<Rightarrow> if snd latest < index then (fst file, index) else latest)"

definition Snapshotter_Load :: "raft_codec \<Rightarrow> Snapshotter \<Rightarrow> fs \<Rightarrow> raft_Snapshot res \<times> fs" where
  "Snapshotter_Load C sp s =
     (case ReadDir (sp_dir sp) s of
        (Inl e, s) \<Rightarrow>
          if IsNotExist e then (Inl ErrNotExist, s)
          else (Inl (Wrap ''failed to read snapshot directory'' e), s)
      | (Inr files, s) \<Rightarrow>
          (let latestFile = fst (fold pick_latest files ([], 0)) in
           if latestFile = [] then (Inl ErrNotExist, s)
           else case ReadFile (Join (sp_dir sp) latestFile) s of
                  (Inl e, s) \<Rightarrow> (Inl (Wrap ''failed to read snapshot file'' e), s)
                | (Inr data, s) \<Rightarrow>
                    (case Option.bind (json_unmarshal data) (cd_sn_into C zero_Snapshot) of
                       None \<Rightarrow> (Inl (Wrap ''failed to unmarshal snapshot'' ErrJSON), s)
                     | Some x \<Rightarrow> (Inr x, s))))"

section \<open>Abstraction and invariant\<close>

text \<open>The file of each index.\<close>

definition snap_file :: "Snapshotter \<Rightarrow> fs \<Rightarrow> u64 \<Rightarrow> bytes option" where
  "snap_file sp s i = file_at s (Join (sp_dir sp) (snapshot_name i))"

text \<open>The indices that \<open>keep\<close> newest snapshots of a set have.\<close>

definition newest :: "nat \<Rightarrow> u64 set \<Rightarrow> u64 set" where
  "newest keep S = {i \<in> S. card {j \<in> S. i < j} < keep}"

text \<open>
  The directory as \<open>Save\<close> leaves it: every file that counts as a snapshot has the name \<open>Save\<close> gives
  it, no directory has such a name, and a directory that does not exist has no files.
\<close>

definition snap_dir_ok :: "Snapshotter \<Rightarrow> fs \<Rightarrow> bool" where
  "snap_dir_ok sp s \<longleftrightarrow>
     fs_ok s
     \<and> (\<forall>name n. map_of (fs_nodes s) (sp_dir sp, name) = Some n \<longrightarrow>
          sp_dir sp \<in> set (fs_dirs s)
          \<and> (\<forall>i. snapshot_index (name, n = DirNode) = Some i \<longrightarrow> name = snapshot_name i)
          \<and> (n = DirNode \<longrightarrow> (\<forall>i. name \<noteq> snapshot_name i)))"

text \<open>Besides, the file of an index holds a snapshot with that index.\<close>

definition snap_inv :: "raft_codec \<Rightarrow> Snapshotter \<Rightarrow> fs \<Rightarrow> bool" where
  "snap_inv C sp s \<longleftrightarrow>
     codec_ok C \<and> snap_dir_ok sp s
     \<and> (\<forall>i b. snap_file sp s i = Some b \<longrightarrow>
          (\<exists>x. md_Index (sn_Metadata x) = i \<and> b = json_text (cd_sn C x)))"

section \<open>Lemmas: names\<close>

lemma snapshot_index_name [simp]: "snapshot_index (snapshot_name i, False) = Some i"
proof -
  have "snapshot_name i = (''snapshot-'' @ dec (unat i)) @ ''.json''" by (simp add: snapshot_name_def)
  then have "HasSuffix (snapshot_name i) ''.json''" by (metis HasSuffix_append)
  moreover have "HasPrefix (snapshot_name i) ''snapshot-''" by (metis HasPrefix_append snapshot_name_def)
  moreover have "TrimSuffix (TrimPrefix (snapshot_name i) ''snapshot-'') ''.json'' = dec (unat i)"
    unfolding snapshot_name_def by (metis TrimPrefix_append TrimSuffix_append)
  ultimately show ?thesis by (simp add: snapshot_index_def)
qed

lemma snapshot_index_dir [simp]: "snapshot_index (name, True) = None"
  by (simp add: snapshot_index_def)

lemma snapshot_name_inj [simp]: "snapshot_name i = snapshot_name j \<longleftrightarrow> i = j"
  by (metis option.inject snapshot_index_name)

lemma snapshot_name_not_Nil [simp]: "snapshot_name i \<noteq> []"
  by (simp add: snapshot_name_def)

lemma set_dir_entries:
  assumes "fs_ok s"
  shows "(name, d) \<in> set (dir_entries dir s) \<longleftrightarrow>
     (\<exists>n. map_of (fs_nodes s) (dir, name) = Some n \<and> d = (n = DirNode))"
proof -
  have "distinct (map fst (fs_nodes s))"
    using assms by (simp add: fs_ok_def nodes_ok_def gomap_ok_def)
  then show ?thesis by (force simp: dir_entries_def map_of_eq_Some_iff)
qed

lemma set_snapshot_files:
  "(name, i) \<in> set (snapshot_files files) \<longleftrightarrow> (\<exists>d. (name, d) \<in> set files \<and> snapshot_index (name, d) = Some i)"
  by (force simp: snapshot_files_def map_filter_def)

text \<open>In a well-formed directory the snapshot files are exactly those of the indices that have one.\<close>

lemma snapshot_files_iff:
  assumes "snap_dir_ok sp s"
  shows "(name, i) \<in> set (snapshot_files (dir_entries (sp_dir sp) s)) \<longleftrightarrow>
     name = snapshot_name i \<and> snap_file sp s i \<noteq> None"
proof -
  have ok: "fs_ok s" using assms by (simp add: snap_dir_ok_def)
  have "snap_file sp s i \<noteq> None \<longleftrightarrow>
      (\<exists>n. map_of (fs_nodes s) (sp_dir sp, snapshot_name i) = Some n \<and> n \<noteq> DirNode)"
    by (auto simp: snap_file_def Join_def file_at_def split: option.splits node.splits)
  note has_file = this
  show ?thesis
  proof
    assume "(name, i) \<in> set (snapshot_files (dir_entries (sp_dir sp) s))"
    then obtain n where n: "map_of (fs_nodes s) (sp_dir sp, name) = Some n"
      "snapshot_index (name, n = DirNode) = Some i"
      unfolding set_snapshot_files set_dir_entries [OF ok] by blast
    then have "n \<noteq> DirNode" by auto
    moreover have "name = snapshot_name i" using assms n unfolding snap_dir_ok_def by blast
    ultimately show "name = snapshot_name i \<and> snap_file sp s i \<noteq> None" using n(1) has_file by blast
  next
    assume "name = snapshot_name i \<and> snap_file sp s i \<noteq> None"
    then obtain n where "map_of (fs_nodes s) (sp_dir sp, name) = Some n" "n \<noteq> DirNode"
      "name = snapshot_name i" using has_file by blast
    then show "(name, i) \<in> set (snapshot_files (dir_entries (sp_dir sp) s))"
      unfolding set_snapshot_files set_dir_entries [OF ok] by force
  qed
qed

lemma snapshot_files_indices:
  assumes "snap_dir_ok sp s"
  shows "snd ` set (snapshot_files (dir_entries (sp_dir sp) s)) = dom (snap_file sp s)"
proof -
  let ?F = "set (snapshot_files (dir_entries (sp_dir sp) s))"
  have "i \<in> snd ` ?F \<longleftrightarrow> (\<exists>name. (name, i) \<in> ?F)" for i by force
  then show ?thesis unfolding snapshot_files_iff [OF assms] by auto
qed

lemma distinct_dir_entries:
  assumes "fs_ok s"
  shows "distinct (dir_entries dir s)"
proof -
  let ?l = "filter (\<lambda>e. fst (fst e) = dir) (fs_nodes s)"
  have d: "distinct (map fst (fs_nodes s))"
    using assms by (simp add: fs_ok_def nodes_ok_def gomap_ok_def)
  have "inj_on (\<lambda>e. (snd (fst e), snd e = DirNode)) (set ?l)"
  proof (rule inj_onI)
    fix x y
    assume "x \<in> set ?l" "y \<in> set ?l" "(snd (fst x), snd x = DirNode) = (snd (fst y), snd y = DirNode)"
    then have "fst x = fst y" "x \<in> set (fs_nodes s)" "y \<in> set (fs_nodes s)" by (auto intro: prod_eqI)
    with d show "x = y" by (metis eq_key_imp_eq_value prod.collapse)
  qed
  moreover have "distinct ?l" using d by (simp add: distinct_map)
  ultimately show ?thesis unfolding dir_entries_def distinct_sort distinct_map by blast
qed

lemma distinct_snapshot_files:
  assumes "snap_dir_ok sp s"
  shows "distinct (map snd (snapshot_files (dir_entries (sp_dir sp) s)))"
proof -
  let ?l = "dir_entries (sp_dir sp) s"
  have "distinct ?l" using assms by (intro distinct_dir_entries) (simp add: snap_dir_ok_def)
  moreover have "inj_on (\<lambda>f. map_option (\<lambda>i. (fst f, i)) (snapshot_index f)) {f \<in> set ?l. snapshot_index f \<noteq> None}"
    by (auto simp: inj_on_def)
  ultimately have "distinct (snapshot_files ?l)"
    by (auto simp: snapshot_files_def map_filter_def distinct_map inj_on_def)
  moreover have "inj_on snd (set (snapshot_files ?l))"
    using snapshot_files_iff [OF assms] by (auto simp: inj_on_def)
  ultimately show ?thesis by (simp add: distinct_map)
qed

section \<open>Lemmas: the newest snapshots\<close>

lemma take_descending:
  "sorted_wrt (>) l \<Longrightarrow> i \<in> set (take k l) \<longleftrightarrow> i \<in> newest k (set (l :: u64 list))"
proof (induction l arbitrary: k)
  case Nil
  then show ?case by (simp add: newest_def)
next
  case (Cons a l)
  show ?case
  proof (cases k)
    case 0
    then show ?thesis by (simp add: newest_def)
  next
    case (Suc k')
    have less: "\<forall>x \<in> set l. x < a" and IH: "i \<in> set (take k' l) \<longleftrightarrow> i \<in> newest k' (set l)"
      using Cons by auto
    have "{j \<in> set (a # l). a < j} = {}" using less by auto
    then have top: "card {j \<in> set (a # l). a < j} = 0" by (simp only: card.empty)
    have "{j \<in> set (a # l). x < j} = insert a {j \<in> set l. x < j}" if "x \<in> set l" for x
      using less that by auto
    moreover have "a \<notin> {j \<in> set l. x < j}" for x using less by auto
    ultimately have "card {j \<in> set (a # l). x < j} = Suc (card {j \<in> set l. x < j})" if "x \<in> set l" for x
      using that by simp
    then have below: "x \<in> newest k (set (a # l)) \<longleftrightarrow> x \<in> newest k' (set l)" if "x \<in> set l" for x
      using that Suc by (simp add: newest_def)
    have "x \<in> newest k (set (a # l)) \<longleftrightarrow> x = a \<or> x \<in> newest k' (set l)" for x
    proof (cases "x \<in> set l")
      case True
      then have "x \<noteq> a" using less by auto
      with below [OF True] show ?thesis by simp
    next
      case False
      have "a \<in> newest k (set (a # l))" unfolding newest_def mem_Collect_eq top Suc by simp
      moreover have "newest k (set (a # l)) \<subseteq> set (a # l)" "newest k' (set l) \<subseteq> set l"
        unfolding newest_def by blast+
      ultimately show ?thesis using False by (cases "x = a") auto
    qed
    with IH Suc show ?thesis by auto
  qed
qed

lemma strict_descending:
  "sorted_wrt (\<lambda>x y. f y \<le> f x) l \<Longrightarrow> distinct (map f l) \<Longrightarrow> sorted_wrt (>) (map f l)"
  for f :: "'a \<Rightarrow> 'b :: linorder"
  by (induction l) (auto simp: less_le rev_image_eqI)

lemma sort_descending_sorted:
  assumes "distinct (map snd l)"
  shows "sorted_wrt (>) (map snd (sort_descending l))"
proof -
  have "sorted (map (\<lambda>f. - uint (snd f)) (sort_descending l))"
    by (simp add: sort_descending_def)
  then have le: "sorted_wrt (\<lambda>x y. snd y \<le> snd x) (sort_descending l)"
    unfolding sorted_map by (rule sorted_wrt_mono_rel [rotated]) (simp add: word_le_def)
  have "distinct (map snd (sort_descending l))"
    using assms by (simp add: sort_descending_def distinct_map)
  with le show ?thesis by (rule strict_descending)
qed

lemma set_sort_descending [simp]: "set (sort_descending l) = set l"
  by (simp add: sort_descending_def)

text \<open>Cleaning up removes exactly the files of the indices that are not among the newest.\<close>

lemma removed_indices:
  assumes "snap_dir_ok sp s"
  defines "l \<equiv> sort_descending (snapshot_files (dir_entries (sp_dir sp) s))"
  shows "(name, i) \<in> set (drop keep l) \<longleftrightarrow>
     name = snapshot_name i \<and> i \<in> dom (snap_file sp s) - newest keep (dom (snap_file sp s))"
proof -
  have srt: "sorted_wrt (>) (map snd l)"
    unfolding l_def by (rule sort_descending_sorted [OF distinct_snapshot_files [OF assms(1)]])
  have doml: "set (map snd l) = dom (snap_file sp s)"
    using snapshot_files_indices [OF assms(1)] by (simp add: l_def)
  have names: "x \<in> set l \<longleftrightarrow> fst x = snapshot_name (snd x) \<and> snap_file sp s (snd x) \<noteq> None" for x
    using snapshot_files_iff [OF assms(1), of "fst x" "snd x"] by (simp add: l_def)
  have dist: "distinct (map snd l)" using srt by (induction l) auto
  have tk: "j \<in> set (take keep (map snd l)) \<longleftrightarrow> j \<in> newest keep (dom (snap_file sp s))" for j
    using take_descending [OF srt] doml by simp
  have split: "set (map snd l) = set (take keep (map snd l)) \<union> set (drop keep (map snd l))"
    by (metis append_take_drop_id set_append)
  have disj: "set (take keep (map snd l)) \<inter> set (drop keep (map snd l)) = {}"
    using dist by (metis append_take_drop_id distinct_append)
  have "j \<in> set (drop keep (map snd l)) \<longleftrightarrow> j \<in> dom (snap_file sp s) - newest keep (dom (snap_file sp s))" for j
    using tk split disj doml by blast
  moreover have "(name, i) \<in> set (drop keep l) \<longleftrightarrow> name = snapshot_name i \<and> i \<in> set (drop keep (map snd l))"
    using names set_drop_subset [of keep l] by (force simp: drop_map)
  ultimately show ?thesis by simp
qed

section \<open>Lemmas: the operations\<close>

text \<open>Removing files leaves every other file and the contents of all files alone.\<close>

lemma remove_snapshots_effect:
  assumes "remove_snapshots dir l s = (r, s')"
  shows "fs_dirs s' = fs_dirs s" and "fs_data s' = fs_data s" and "fs_fresh s' = fs_fresh s"
    and "fs_plan s' = fs_plan s"
    and "nodes_ok (fs_nodes s) n \<Longrightarrow> nodes_ok (fs_nodes s') n"
    and "map_of (fs_nodes s') p = None \<or> map_of (fs_nodes s') p = map_of (fs_nodes s) p"
    and "p \<notin> (\<lambda>f. (dir, fst f)) ` set l \<Longrightarrow> map_of (fs_nodes s') p = map_of (fs_nodes s) p"
    and "r = Inr () \<Longrightarrow> p \<in> (\<lambda>f. (dir, fst f)) ` set l \<Longrightarrow> map_of (fs_nodes s') p = None"
proof -
  have "fs_dirs s' = fs_dirs s \<and> fs_data s' = fs_data s \<and> fs_fresh s' = fs_fresh s
    \<and> fs_plan s' = fs_plan s
    \<and> (nodes_ok (fs_nodes s) n \<longrightarrow> nodes_ok (fs_nodes s') n)
    \<and> (map_of (fs_nodes s') p = None \<or> map_of (fs_nodes s') p = map_of (fs_nodes s) p)
    \<and> (p \<notin> (\<lambda>f. (dir, fst f)) ` set l \<longrightarrow> map_of (fs_nodes s') p = map_of (fs_nodes s) p)
    \<and> (r = Inr () \<longrightarrow> p \<in> (\<lambda>f. (dir, fst f)) ` set l \<longrightarrow> map_of (fs_nodes s') p = None)"
    using assms
  proof (induction dir l s rule: remove_snapshots.induct)
    case (2 dir f l s)
    obtain r1 s1 where rm: "Remove (Join dir (fst f)) s = (r1, s1)" by (cases "Remove (Join dir (fst f)) s")
    have keep: "fs_dirs s1 = fs_dirs s \<and> fs_data s1 = fs_data s \<and> fs_fresh s1 = fs_fresh s \<and> fs_plan s1 = fs_plan s"
      and nodes: "fs_nodes s1 = (if r1 = Inr () then AList.delete (dir, fst f) (fs_nodes s) else fs_nodes s)"
      using rm by (auto simp: Remove_def io_next_def Join_def split: os_splits)
    show ?case
    proof (cases r1)
      case (Inl e)
      with "2.prems" rm keep nodes show ?thesis by auto
    next
      case (Inr u)
      from "2.prems" rm Inr have "remove_snapshots dir l s1 = (r, s')" by simp
      with "2.IH" [OF rm [symmetric] Inr] keep nodes Inr show ?thesis
        by (auto simp: delete_conv' simp del: split_paired_All)
    qed
  qed simp
  then show "fs_dirs s' = fs_dirs s" "fs_data s' = fs_data s" "fs_fresh s' = fs_fresh s"
    "fs_plan s' = fs_plan s" "nodes_ok (fs_nodes s) n \<Longrightarrow> nodes_ok (fs_nodes s') n"
    "map_of (fs_nodes s') p = None \<or> map_of (fs_nodes s') p = map_of (fs_nodes s) p"
    "p \<notin> (\<lambda>f. (dir, fst f)) ` set l \<Longrightarrow> map_of (fs_nodes s') p = map_of (fs_nodes s) p"
    "r = Inr () \<Longrightarrow> p \<in> (\<lambda>f. (dir, fst f)) ` set l \<Longrightarrow> map_of (fs_nodes s') p = None"
    by blast+
qed

lemma remove_snapshots_reliable:
  "reliable s \<Longrightarrow> distinct (map fst l) \<Longrightarrow> \<forall>f \<in> set l. map_of (fs_nodes s) (dir, fst f) \<noteq> None \<Longrightarrow>
   fst (remove_snapshots dir l s) = Inr ()"
proof (induction l arbitrary: s)
  case (Cons f l)
  let ?s = "s\<lparr>fs_tick := Suc (fs_tick s), fs_nodes := AList.delete (dir, fst f) (fs_nodes s)\<rparr>"
  have "Remove (Join dir (fst f)) s = (Inr (), ?s)"
    using Cons.prems by (auto simp: Remove_def io_next_def Join_def reliable_def)
  moreover have "fst (remove_snapshots dir l ?s) = Inr ()"
    using Cons.prems by (intro Cons.IH) (auto simp: reliable_def delete_conv' rev_image_eqI)
  ultimately show ?case by simp
qed simp

lemma distinct_removed:
  assumes "snap_dir_ok sp s"
  shows "distinct (map fst (drop keep (sort_descending (snapshot_files (dir_entries (sp_dir sp) s)))))"
proof -
  let ?l = "snapshot_files (dir_entries (sp_dir sp) s)"
  have "map fst ?l = map snapshot_name (map snd ?l)"
    using snapshot_files_iff [OF assms] by auto
  moreover have "distinct (map snapshot_name (map snd ?l))"
    using distinct_snapshot_files [OF assms] unfolding distinct_map [of snapshot_name] by (simp add: inj_on_def)
  ultimately have "distinct (map fst ?l)" by (simp only:)
  then have "distinct (map fst (sort_descending ?l))" by (simp add: sort_descending_def distinct_map)
  then show ?thesis by (simp add: distinct_drop flip: drop_map)
qed

lemma cleanup_cases:
  assumes "Snapshotter_cleanup sp keep s = (r, s')"
  obtains "s' = s\<lparr>fs_tick := Suc (fs_tick s)\<rparr>" "r \<noteq> Inr ()" "reliable s \<Longrightarrow> sp_dir sp \<notin> set (fs_dirs s)"
  | "remove_snapshots (sp_dir sp) (drop keep (sort_descending (snapshot_files (dir_entries (sp_dir sp) s))))
       (s\<lparr>fs_tick := Suc (fs_tick s)\<rparr>) = (r, s')"
proof (cases "fs_plan s (fs_tick s) = IoOk \<and> sp_dir sp \<in> set (fs_dirs s)")
  case True
  with assms show ?thesis
    by (intro that(2))
      (simp add: Snapshotter_cleanup_def ReadDir_def io_next_def dir_entries_def Let_def sort_descending_def
        split: if_splits)
next
  case False
  with assms show ?thesis
    by (intro that(1))
      (auto simp: Snapshotter_cleanup_def ReadDir_def io_next_def reliable_def split: io_outcome.splits)
qed

lemma snap_dir_ok_submap:
  assumes "snap_dir_ok sp s" and "fs_ok s'" and "fs_dirs s' = fs_dirs s"
    and "\<And>p. map_of (fs_nodes s') p = None \<or> map_of (fs_nodes s') p = map_of (fs_nodes s) p"
  shows "snap_dir_ok sp s'"
  using assms(1) assms(2,3) assms(4) unfolding snap_dir_ok_def by (metis option.distinct(1))

text \<open>What cleaning up does to the files of all indices, under any failures.\<close>

lemma cleanup_effect:
  assumes ok: "snap_dir_ok sp s" and c: "Snapshotter_cleanup sp keep s = (r, s')"
  shows "snap_dir_ok sp s'" and "fs_plan s' = fs_plan s"
    and "snap_file sp s' i = None \<or> snap_file sp s' i = snap_file sp s i"
    and "i \<in> newest keep (dom (snap_file sp s)) \<Longrightarrow> snap_file sp s' i = snap_file sp s i"
    and "r = Inr () \<Longrightarrow> i \<notin> newest keep (dom (snap_file sp s)) \<Longrightarrow> snap_file sp s' i = None"
    and "reliable s \<Longrightarrow> sp_dir sp \<in> set (fs_dirs s) \<Longrightarrow> r = Inr ()"
proof -
  let ?l = "drop keep (sort_descending (snapshot_files (dir_entries (sp_dir sp) s)))"
  let ?s = "s\<lparr>fs_tick := Suc (fs_tick s)\<rparr>"
  let ?new = "newest keep (dom (snap_file sp s))"
  have rem: "(sp_dir sp, snapshot_name j) \<in> (\<lambda>f. (sp_dir sp, fst f)) ` set ?l \<longleftrightarrow> j \<in> dom (snap_file sp s) - ?new" for j
    using removed_indices [OF ok, of "snapshot_name j" _ keep] by (force simp: image_iff)
  have "snap_dir_ok sp s' \<and> fs_plan s' = fs_plan s
    \<and> (snap_file sp s' i = None \<or> snap_file sp s' i = snap_file sp s i)
    \<and> (i \<in> ?new \<longrightarrow> snap_file sp s' i = snap_file sp s i)
    \<and> (r = Inr () \<longrightarrow> i \<notin> ?new \<longrightarrow> snap_file sp s' i = None)
    \<and> (reliable s \<longrightarrow> sp_dir sp \<in> set (fs_dirs s) \<longrightarrow> r = Inr ())"
    using c
  proof (cases rule: cleanup_cases)
    case 1
    with ok show ?thesis by (simp add: snap_dir_ok_def fs_ok_def snap_file_def)
  next
    case 2
    note e = remove_snapshots_effect [OF 2]
    have "fs_ok s'" using ok e(3) e(5) by (simp add: snap_dir_ok_def fs_ok_def)
    then have "snap_dir_ok sp s'" using snap_dir_ok_submap [OF ok] e(1,6) by simp
    moreover have "snap_file sp s' i = None \<or> snap_file sp s' i = snap_file sp s i"
      using e(6) [of "(sp_dir sp, snapshot_name i)"] e(2)
      by (auto simp: snap_file_def Join_def intro: file_at_cong file_at_None)
    moreover have "snap_file sp s' i = snap_file sp s i" if "i \<notin> dom (snap_file sp s) - ?new"
    proof -
      from that have "map_of (fs_nodes s') (sp_dir sp, snapshot_name i) = map_of (fs_nodes s) (sp_dir sp, snapshot_name i)"
        using e(7) rem by simp
      then show ?thesis using e(2) unfolding snap_file_def Join_def by (intro file_at_cong) simp_all
    qed
    moreover have "snap_file sp s' i = None" if "r = Inr ()" "i \<in> dom (snap_file sp s) - ?new"
      using e(8) that rem by (simp add: snap_file_def Join_def file_at_None)
    moreover have "r = Inr ()" if "reliable s"
    proof -
      have "\<forall>f \<in> set ?l. map_of (fs_nodes s) (sp_dir sp, fst f) \<noteq> None"
        using removed_indices [OF ok, of _ _ keep]
        by (auto simp: snap_file_def file_at_def Join_def split: option.splits)
      moreover have "distinct (map fst ?l)" by (rule distinct_removed [OF ok])
      ultimately show ?thesis
        using remove_snapshots_reliable [of ?s ?l "sp_dir sp"] that 2 by (simp add: reliable_def)
    qed
    ultimately show ?thesis using e(4) by (cases "snap_file sp s i") auto
  qed
  then show "snap_dir_ok sp s'" "fs_plan s' = fs_plan s"
    "snap_file sp s' i = None \<or> snap_file sp s' i = snap_file sp s i"
    "i \<in> ?new \<Longrightarrow> snap_file sp s' i = snap_file sp s i"
    "r = Inr () \<Longrightarrow> i \<notin> ?new \<Longrightarrow> snap_file sp s' i = None"
    "reliable s \<Longrightarrow> sp_dir sp \<in> set (fs_dirs s) \<Longrightarrow> r = Inr ()" by blast+
qed

lemma newest_subset: "newest k S \<subseteq> S"
  by (auto simp: newest_def)

lemma MkdirAll_effect:
  assumes "MkdirAll d s = (r, s')"
  shows "fs_nodes s' = fs_nodes s" "fs_data s' = fs_data s" "fs_fresh s' = fs_fresh s" "fs_plan s' = fs_plan s"
    "set (fs_dirs s) \<subseteq> set (fs_dirs s')" "r = Inr () \<Longrightarrow> d \<in> set (fs_dirs s')" "reliable s \<Longrightarrow> r = Inr ()"
  using assms by (auto simp: MkdirAll_def io_next_def reliable_def split: io_outcome.splits)

text \<open>Writing the file of an index in a well-formed directory.\<close>

lemma write_snapshot:
  assumes ok: "snap_dir_ok sp s" and w: "WriteFile (Join (sp_dir sp) (snapshot_name i)) b s = (r, s')"
  shows "snap_dir_ok sp s'" and "fs_plan s' = fs_plan s" and "fs_dirs s' = fs_dirs s"
    and "r = Inr () \<Longrightarrow> snap_file sp s' = (snap_file sp s)(i \<mapsto> b)"
    and "j \<noteq> i \<Longrightarrow> snap_file sp s' j = snap_file sp s j"
    and "snap_file sp s' i = snap_file sp s i \<or> (\<exists>k. snap_file sp s' i = Some (take k b))"
    and "reliable s \<Longrightarrow> sp_dir sp \<in> set (fs_dirs s) \<Longrightarrow> r = Inr ()"
proof -
  let ?p = "(sp_dir sp, snapshot_name i)"
  have fs: "fs_ok s" and dirs: "\<And>name n. map_of (fs_nodes s) (sp_dir sp, name) = Some n \<Longrightarrow>
      sp_dir sp \<in> set (fs_dirs s)
      \<and> (\<forall>i. snapshot_index (name, n = DirNode) = Some i \<longrightarrow> name = snapshot_name i)
      \<and> (n = DirNode \<longrightarrow> (\<forall>i. name \<noteq> snapshot_name i))"
    using ok unfolding snap_dir_ok_def by blast+
  note e = WriteFile_effect [OF fs w [unfolded Join_def]]
  have other: "snap_file sp s' j = snap_file sp s j" if "j \<noteq> i" for j
    using e(4) that by (simp add: snap_file_def Join_def)
  then show "j \<noteq> i \<Longrightarrow> snap_file sp s' j = snap_file sp s j" .
  show "fs_plan s' = fs_plan s" "fs_dirs s' = fs_dirs s" by (fact e(3) e(2))+
  show "snap_file sp s' i = snap_file sp s i \<or> (\<exists>k. snap_file sp s' i = Some (take k b))"
    using e(6) by (simp add: snap_file_def Join_def)
  show "r = Inr () \<Longrightarrow> snap_file sp s' = (snap_file sp s)(i \<mapsto> b)"
    using e(5) other by (auto simp: snap_file_def Join_def fun_eq_iff)
  have "map_of (fs_nodes s) ?p \<noteq> Some DirNode" using dirs by blast
  then show "reliable s \<Longrightarrow> sp_dir sp \<in> set (fs_dirs s) \<Longrightarrow> r = Inr ()" using e(7) by simp
  have "sp_dir sp \<in> set (fs_dirs s)
      \<and> (\<forall>i. snapshot_index (name, n = DirNode) = Some i \<longrightarrow> name = snapshot_name i)
      \<and> (n = DirNode \<longrightarrow> (\<forall>i. name \<noteq> snapshot_name i))"
    if n: "map_of (fs_nodes s') (sp_dir sp, name) = Some n" for name n
  proof (cases "map_of (fs_nodes s') (sp_dir sp, name) = map_of (fs_nodes s) (sp_dir sp, name)")
    case True
    with n show ?thesis using dirs by simp
  next
    case False
    then have "name = snapshot_name i" using e(4) by fastforce
    moreover have "sp_dir sp \<in> set (fs_dirs s)" "n \<noteq> DirNode"
      using e(8) False n calculation by auto
    ultimately show ?thesis by simp
  qed
  then show "snap_dir_ok sp s'" using e(1,2) unfolding snap_dir_ok_def by simp
qed

text \<open>What saving does to the files of all indices, under any failures.\<close>

lemma Save_effect:
  assumes ok: "snap_dir_ok sp s" and sv: "Snapshotter_Save C sp x s = (r, s')"
  defines "i \<equiv> md_Index (sn_Metadata x)" and "b \<equiv> json_text (cd_sn C x)"
  defines "kept \<equiv> newest 3 (insert i (dom (snap_file sp s)))"
  shows "snap_dir_ok sp s'" and "fs_plan s' = fs_plan s"
    and "r = Inr () \<Longrightarrow> snap_file sp s' j = None \<or> snap_file sp s' j = ((snap_file sp s)(i \<mapsto> b)) j"
    and "r = Inr () \<Longrightarrow> j \<in> kept \<Longrightarrow> snap_file sp s' j = ((snap_file sp s)(i \<mapsto> b)) j"
    and "reliable s \<Longrightarrow> r = Inr () \<and> snap_file sp s' = ((snap_file sp s)(i \<mapsto> b)) |` kept"
    and "r \<noteq> Inr () \<Longrightarrow> j \<noteq> i \<Longrightarrow> snap_file sp s' j = snap_file sp s j"
    and "r \<noteq> Inr () \<Longrightarrow> snap_file sp s' i = snap_file sp s i \<or> (\<exists>k. snap_file sp s' i = Some (take k b))"
proof -
  obtain r1 s1 where m: "MkdirAll (sp_dir sp) s = (r1, s1)" by (cases "MkdirAll (sp_dir sp) s")
  note e1 = MkdirAll_effect [OF m]
  have ok1: "snap_dir_ok sp s1" using ok e1(1,3,5) unfolding snap_dir_ok_def fs_ok_def by auto
  have f1: "snap_file sp s1 = snap_file sp s"
    using e1(1,2) unfolding snap_file_def by (intro ext file_at_cong) simp_all
  obtain r2 s2 where w: "WriteFile (Join (sp_dir sp) (snapshot_name i)) b s1 = (r2, s2)"
    by (cases "WriteFile (Join (sp_dir sp) (snapshot_name i)) b s1")
  note e2 = write_snapshot [OF ok1 w]
  obtain r3 s3 where c: "Snapshotter_cleanup sp 3 s2 = (r3, s3)" by (cases "Snapshotter_cleanup sp 3 s2")
  note e3 = cleanup_effect [OF e2(1) c]
  have out: "if r1 \<noteq> Inr () then r \<noteq> Inr () \<and> s' = s1 else if r2 \<noteq> Inr () then r \<noteq> Inr () \<and> s' = s2
      else r = Inr () \<and> s' = s3"
    using sv m w c by (auto simp: Snapshotter_Save_def i_def b_def split: sum.splits)
  have new: "newest 3 (dom (snap_file sp s2)) = kept" if "r2 = Inr ()"
    using e2(4) [OF that] f1 by (simp add: kept_def)
  have "reliable s \<Longrightarrow> r1 = Inr () \<and> r2 = Inr () \<and> r3 = Inr ()"
    using e1(4,6,7) e2(2,3,7) e3(6) by (simp add: reliable_def)
  moreover have "r3 = Inr () \<Longrightarrow> r2 = Inr () \<Longrightarrow> snap_file sp s3 = ((snap_file sp s)(i \<mapsto> b)) |` kept"
    using e3(4,5) new e2(4) f1 by (auto simp: restrict_map_def)
  ultimately show "reliable s \<Longrightarrow> r = Inr () \<and> snap_file sp s' = ((snap_file sp s)(i \<mapsto> b)) |` kept"
    using out by simp
  show "snap_dir_ok sp s'" using out ok1 e2(1) e3(1) by (auto split: if_splits)
  show "fs_plan s' = fs_plan s" using out e1(4) e2(2) e3(2) by (auto split: if_splits)
  show "r = Inr () \<Longrightarrow> snap_file sp s' j = None \<or> snap_file sp s' j = ((snap_file sp s)(i \<mapsto> b)) j"
    using out e3(3) [of j] e2(4) f1 by (auto split: if_splits)
  show "r = Inr () \<Longrightarrow> j \<in> kept \<Longrightarrow> snap_file sp s' j = ((snap_file sp s)(i \<mapsto> b)) j"
    using out e3(4) [of j] new e2(4) f1 by (auto split: if_splits)
  show "r \<noteq> Inr () \<Longrightarrow> j \<noteq> i \<Longrightarrow> snap_file sp s' j = snap_file sp s j"
    using out e2(5) f1 by (auto split: if_splits)
  show "r \<noteq> Inr () \<Longrightarrow> snap_file sp s' i = snap_file sp s i \<or> (\<exists>k. snap_file sp s' i = Some (take k b))"
    using out e2(6) f1 by (auto split: if_splits)
qed

end
