(* ===== verification/Snapshotter_Spec.thy ===== *)
theory Snapshotter_Spec
  imports Snapshotter Sample_Codec
begin

text \<open>
  The snapshotter as a store of snapshots by index: what saving keeps, what loading returns, and the
  proof that \<open>snapshot.go\<close> provides it; then what holds when calls of the file system fail.
\<close>

section \<open>The abstract store\<close>

definition snap_index :: "raft_Snapshot \<Rightarrow> u64" where
  "snap_index x = md_Index (sn_Metadata x)"

definition decode_snapshot :: "raft_codec \<Rightarrow> bytes \<Rightarrow> raft_Snapshot option" where
  "decode_snapshot C b = Option.bind (json_unmarshal b) (cd_sn_into C zero_Snapshot)"

definition saved_snapshots :: "raft_codec \<Rightarrow> Snapshotter \<Rightarrow> fs \<Rightarrow> u64 \<Rightarrow> raft_Snapshot option" where
  "saved_snapshots C sp s i = Option.bind (snap_file sp s i) (decode_snapshot C)"

definition snap_state_ok :: "raft_codec \<Rightarrow> Snapshotter \<Rightarrow> fs \<Rightarrow> bool" where
  "snap_state_ok C sp s \<longleftrightarrow> snap_inv C sp s \<and> reliable s"

definition snap_save :: "raft_codec \<Rightarrow> Snapshotter \<Rightarrow> raft_Snapshot \<Rightarrow> fs \<Rightarrow> fs option" where
  "snap_save C sp x s = (case Snapshotter_Save C sp x s of (Inr _, s) \<Rightarrow> Some s | (Inl _, _) \<Rightarrow> None)"

definition snap_load :: "raft_codec \<Rightarrow> Snapshotter \<Rightarrow> fs \<Rightarrow> raft_Snapshot option" where
  "snap_load C sp s = (case Snapshotter_Load C sp s of (Inr x, _) \<Rightarrow> Some x | (Inl _, _) \<Rightarrow> None)"

definition sample_snapshot :: "u64 \<Rightarrow> raft_Snapshot" where
  "sample_snapshot i =
     \<lparr>sn_Data = ''x'', sn_Metadata = \<lparr>md_ConfState = zero_ConfState, md_Index = i, md_Term = 1\<rparr>\<rparr>"

definition sample_snapshotter :: Snapshotter where
  "sample_snapshotter = \<lparr>sp_dir = ''d''\<rparr>"

text \<open>A directory without snapshots on a disk that is full from the third call on.\<close>

definition full_disk_fs :: fs where
  "full_disk_fs = (empty_fs (\<lambda>n. if n < 2 then IoOk else IoErr 0))\<lparr>fs_dirs := [''d'']\<rparr>"

section \<open>The interface\<close>

text \<open>
  A store that keeps the three newest snapshots and loads the newest. The file of index 0 is never
  loaded: the search starts from index 0 and takes strictly larger ones.
\<close>

locale snapshot_store =
  fixes inv :: "'s \<Rightarrow> bool"
    and saved :: "'s \<Rightarrow> u64 \<Rightarrow> raft_Snapshot option"
    and save :: "raft_Snapshot \<Rightarrow> 's \<Rightarrow> 's option"
    and load :: "'s \<Rightarrow> raft_Snapshot option"
  assumes save_total: "inv s \<Longrightarrow> \<exists>t. save x s = Some t"
    and save_inv: "inv s \<Longrightarrow> save x s = Some t \<Longrightarrow> inv t"
    and save_saved: "inv s \<Longrightarrow> save x s = Some t \<Longrightarrow>
      saved t = ((saved s)(snap_index x \<mapsto> x)) |` newest 3 (insert (snap_index x) (dom (saved s)))"
    and load_newest: "inv s \<Longrightarrow> i \<in> dom (saved s) \<Longrightarrow> 0 < i \<Longrightarrow> \<forall>j \<in> dom (saved s). j \<le> i \<Longrightarrow> load s = saved s i"
    and load_none: "inv s \<Longrightarrow> dom (saved s) \<subseteq> {0} \<Longrightarrow> load s = None"
begin

lemma save_newest:
  assumes "inv s" and "save x s = Some t" and "\<forall>j \<in> dom (saved s). j \<le> snap_index x"
  shows "saved t (snap_index x) = Some x" and "\<forall>j \<in> dom (saved t). j \<le> snap_index x"
proof -
  have "{j \<in> insert (snap_index x) (dom (saved s)). snap_index x < j} = {}"
    using assms(3) by (blast dest: leD)
  then have "snap_index x \<in> newest 3 (insert (snap_index x) (dom (saved s)))"
    by (simp only: newest_def mem_Collect_eq card.empty) simp
  then show "saved t (snap_index x) = Some x" using save_saved [OF assms(1,2)] by (simp add: restrict_map_def)
  show "\<forall>j \<in> dom (saved t). j \<le> snap_index x"
    using save_saved [OF assms(1,2)] assms(3) by (auto simp: restrict_map_def split: if_splits)
qed

lemma saves_load:
  "inv s \<Longrightarrow> \<forall>j \<in> dom (saved s). j \<le> snap_index (hd xs) \<Longrightarrow> xs \<noteq> [] \<Longrightarrow>
   sorted (map snap_index xs) \<Longrightarrow> 0 < snap_index (last xs) \<Longrightarrow>
   \<exists>t. fold_opt save xs s = Some t \<and> inv t \<and> load t = Some (last xs)"
proof (induction xs arbitrary: s)
  case (Cons x xs)
  obtain t where t: "save x s = Some t" using save_total [OF Cons.prems(1)] by blast
  note inv = save_inv [OF Cons.prems(1) t]
  note new = save_newest [OF Cons.prems(1) t] Cons.prems(2)
  show ?case
  proof (cases xs)
    case Nil
    have "load t = Some x" using load_newest [OF inv, of "snap_index x"] new Cons.prems(5) Nil by auto
    with Nil t inv show ?thesis by simp
  next
    case (Cons y ys)
    have "\<forall>j \<in> dom (saved t). j \<le> snap_index (hd xs)"
      using new Cons.prems(2,4) Cons by (auto intro: order_trans)
    with Cons.IH [OF inv] Cons.prems Cons t show ?thesis by simp
  qed
qed simp

end

section \<open>The implementation provides it\<close>

lemma decode_snapshot_text [simp]: "codec_ok C \<Longrightarrow> decode_snapshot C (json_text (cd_sn C x)) = Some x"
  using codec_okD [of C] less_imp_le [of "json_depth (cd_sn C x)" 100]
  by (simp add: decode_snapshot_def json_unmarshal_text maxNestingDepth_def)

lemma snap_inv_saved:
  assumes "snap_inv C sp s"
  shows "snap_file sp s i = map_option (\<lambda>x. json_text (cd_sn C x)) (saved_snapshots C sp s i)"
    and "dom (saved_snapshots C sp s) = dom (snap_file sp s)"
    and "saved_snapshots C sp s i = Some x \<Longrightarrow> snap_index x = i"
proof -
  have C: "codec_ok C" using assms by (simp add: snap_inv_def)
  have "snap_file sp s i = map_option (\<lambda>x. json_text (cd_sn C x)) (saved_snapshots C sp s i)
    \<and> (saved_snapshots C sp s i = None \<longleftrightarrow> snap_file sp s i = None)
    \<and> (saved_snapshots C sp s i = Some x \<longrightarrow> snap_index x = i)" for i x
  proof (cases "snap_file sp s i")
    case (Some b)
    then obtain y where "md_Index (sn_Metadata y) = i" "b = json_text (cd_sn C y)"
      using assms unfolding snap_inv_def by blast
    with Some C show ?thesis by (auto simp: saved_snapshots_def snap_index_def)
  qed (simp add: saved_snapshots_def)
  then show "snap_file sp s i = map_option (\<lambda>x. json_text (cd_sn C x)) (saved_snapshots C sp s i)"
    and "dom (saved_snapshots C sp s) = dom (snap_file sp s)"
    and "saved_snapshots C sp s i = Some x \<Longrightarrow> snap_index x = i" by (blast, auto simp: domIff)
qed

lemma fold_pick_latest:
  assumes "fold pick_latest l (n, i) = (n', i')"
  shows "i \<le> i'" and "f \<in> set l \<Longrightarrow> snapshot_index f = Some j \<Longrightarrow> j \<le> i'"
    and "n' = n \<and> i' = i \<or> i < i' \<and> (\<exists>f \<in> set l. snapshot_index f = Some i' \<and> n' = fst f)"
proof -
  have "i \<le> i' \<and> (\<forall>f \<in> set l. \<forall>j. snapshot_index f = Some j \<longrightarrow> j \<le> i')
    \<and> (n' = n \<and> i' = i \<or> i < i' \<and> (\<exists>f \<in> set l. snapshot_index f = Some i' \<and> n' = fst f))"
    using assms
  proof (induction l arbitrary: n i)
    case (Cons f l)
    obtain n1 i1 where p: "pick_latest f (n, i) = (n1, i1)" by (cases "pick_latest f (n, i)")
    with Cons.prems have "fold pick_latest l (n1, i1) = (n', i')" by simp
    note IH = Cons.IH [OF this]
    from p have "i \<le> i1 \<and> (\<forall>j. snapshot_index f = Some j \<longrightarrow> j \<le> i1)
      \<and> (n1 = n \<and> i1 = i \<or> i < i1 \<and> snapshot_index f = Some i1 \<and> n1 = fst f)"
      by (auto simp: pick_latest_def split: option.splits if_splits)
    with IH show ?case by (auto intro: order_trans less_le_trans)
  qed simp
  then show "i \<le> i'" and "f \<in> set l \<Longrightarrow> snapshot_index f = Some j \<Longrightarrow> j \<le> i'"
    and "n' = n \<and> i' = i \<or> i < i' \<and> (\<exists>f \<in> set l. snapshot_index f = Some i' \<and> n' = fst f)" by blast+
qed

text \<open>The file that \<open>Load\<close> picks in a well-formed directory.\<close>

lemma latest_file:
  assumes ok: "snap_dir_ok sp s"
  shows "i \<in> dom (snap_file sp s) \<Longrightarrow> 0 < i \<Longrightarrow> \<forall>j \<in> dom (snap_file sp s). j \<le> i \<Longrightarrow>
      fold pick_latest (dir_entries (sp_dir sp) s) ([], 0) = (snapshot_name i, i)"
    and "dom (snap_file sp s) \<subseteq> {0} \<Longrightarrow>
      fold pick_latest (dir_entries (sp_dir sp) s) ([], 0) = ([], 0)"
proof -
  let ?l = "dir_entries (sp_dir sp) s"
  obtain n' i' where f: "fold pick_latest ?l ([], 0) = (n', i')" by (cases "fold pick_latest ?l ([], 0)")
  note p = fold_pick_latest [OF f]
  have snap: "(\<exists>f \<in> set ?l. snapshot_index f = Some j \<and> name = fst f)
      \<longleftrightarrow> name = snapshot_name j \<and> j \<in> dom (snap_file sp s)" for name j
    using snapshot_files_iff [OF ok, of name j] unfolding set_snapshot_files by (force simp: domIff)
  show "fold pick_latest ?l ([], 0) = (snapshot_name i, i)"
    if i: "i \<in> dom (snap_file sp s)" "0 < i" "\<forall>j \<in> dom (snap_file sp s). j \<le> i"
  proof -
    from snap [of i "snapshot_name i"] i(1) have "i \<le> i'" using p(2) by blast
    with p(3) i snap have "n' = snapshot_name i'" "i' \<in> dom (snap_file sp s)" by auto
    with i(3) \<open>i \<le> i'\<close> f show ?thesis by (simp add: order_antisym)
  qed
  show "fold pick_latest ?l ([], 0) = ([], 0)" if "dom (snap_file sp s) \<subseteq> {0}"
    using p(3) snap that f by auto
qed

lemma Load_result:
  assumes inv: "snap_inv C sp s" and rel: "reliable s"
  shows "i \<in> dom (saved_snapshots C sp s) \<Longrightarrow> 0 < i \<Longrightarrow> \<forall>j \<in> dom (saved_snapshots C sp s). j \<le> i \<Longrightarrow>
      \<exists>x s'. Snapshotter_Load C sp s = (Inr x, s') \<and> saved_snapshots C sp s i = Some x"
    and "dom (saved_snapshots C sp s) \<subseteq> {0} \<Longrightarrow> fst (Snapshotter_Load C sp s) = Inl ErrNotExist"
proof -
  let ?s = "s\<lparr>fs_tick := Suc (fs_tick s)\<rparr>"
  have ok: "snap_dir_ok sp s" using inv by (simp add: snap_inv_def)
  have rd: "ReadDir (sp_dir sp) s
      = (if sp_dir sp \<in> set (fs_dirs s) then (Inr (dir_entries (sp_dir sp) s), ?s) else (Inl ErrNotExist, ?s))"
    using rel by (simp add: ReadDir_def io_next_def reliable_def dir_entries_def)
  show "\<exists>x s'. Snapshotter_Load C sp s = (Inr x, s') \<and> saved_snapshots C sp s i = Some x"
    if i: "i \<in> dom (saved_snapshots C sp s)" "0 < i" "\<forall>j \<in> dom (saved_snapshots C sp s). j \<le> i"
  proof -
    from i(1) obtain x where x: "saved_snapshots C sp s i = Some x" by blast
    then obtain b where b: "snap_file sp s i = Some b" "decode_snapshot C b = Some x"
      by (auto simp: saved_snapshots_def bind_eq_Some_conv)
    then obtain n where n: "map_of (fs_nodes s) (sp_dir sp, snapshot_name i) = Some (FileNode n)" "b = fs_data s n"
      by (auto simp: snap_file_def file_at_def Join_def split: option.splits node.splits)
    have dir: "sp_dir sp \<in> set (fs_dirs s)" using ok n(1) unfolding snap_dir_ok_def by blast
    have pick: "fold pick_latest (dir_entries (sp_dir sp) s) ([], 0) = (snapshot_name i, i)"
      using latest_file(1) [OF ok] i snap_inv_saved(2) [OF inv] by simp
    have "ReadFile (Join (sp_dir sp) (snapshot_name i)) ?s = (Inr b, ?s\<lparr>fs_tick := Suc (fs_tick ?s)\<rparr>)"
      using n rel by (simp add: ReadFile_def io_next_def reliable_def Join_def)
    with dir pick b(2) x rd show ?thesis
      by (simp add: Snapshotter_Load_def decode_snapshot_def Let_def)
  qed
  show "fst (Snapshotter_Load C sp s) = Inl ErrNotExist" if "dom (saved_snapshots C sp s) \<subseteq> {0}"
    using latest_file(2) [OF ok] that snap_inv_saved(2) [OF inv] rd
    by (simp add: Snapshotter_Load_def IsNotExist_def Let_def)
qed

lemma Save_result:
  assumes inv: "snap_inv C sp s" and rel: "reliable s" and sv: "Snapshotter_Save C sp x s = (r, s')"
  shows "r = Inr ()" and "snap_inv C sp s'" and "reliable s'"
    and "saved_snapshots C sp s'
      = ((saved_snapshots C sp s)(snap_index x \<mapsto> x)) |` newest 3 (insert (snap_index x) (dom (saved_snapshots C sp s)))"
proof -
  have C: "codec_ok C" and ok: "snap_dir_ok sp s" using inv by (simp_all add: snap_inv_def)
  note e = Save_effect [OF ok sv, folded snap_index_def]
  show "r = Inr ()" using e(5) [OF rel] by blast
  show "reliable s'" using e(2) rel by (simp add: reliable_def)
  have f: "snap_file sp s' = ((snap_file sp s)(snap_index x \<mapsto> json_text (cd_sn C x)))
      |` newest 3 (insert (snap_index x) (dom (snap_file sp s)))" using e(5) [OF rel] by blast
  then show "saved_snapshots C sp s'
      = ((saved_snapshots C sp s)(snap_index x \<mapsto> x)) |` newest 3 (insert (snap_index x) (dom (saved_snapshots C sp s)))"
    unfolding snap_inv_saved(2) [OF inv] using C
    by (auto simp: saved_snapshots_def restrict_map_def fun_eq_iff)
  have "\<exists>y. md_Index (sn_Metadata y) = i \<and> b = json_text (cd_sn C y)" if "snap_file sp s' i = Some b" for i b
    using that inv unfolding f snap_inv_def
    by (auto simp: restrict_map_def snap_index_def split: if_splits)
  with C e(1) show "snap_inv C sp s'" unfolding snap_inv_def by blast
qed

interpretation snap: snapshot_store "snap_state_ok C sp" "saved_snapshots C sp" "snap_save C sp" "snap_load C sp" for C sp
proof unfold_locales
  fix s t x
  assume ok: "snap_state_ok C sp s"
  then have inv: "snap_inv C sp s" and rel: "reliable s" by (auto simp: snap_state_ok_def)
  obtain r s' where sv: "Snapshotter_Save C sp x s = (r, s')" by (cases "Snapshotter_Save C sp x s")
  note e = Save_result [OF inv rel sv]
  show "\<exists>t. snap_save C sp x s = Some t" using sv e(1) by (simp add: snap_save_def)
  assume "snap_save C sp x s = Some t"
  then have t: "t = s'" using sv e(1) by (simp add: snap_save_def)
  show "snap_state_ok C sp t" using e(2,3) t by (simp add: snap_state_ok_def)
  show "saved_snapshots C sp t
      = ((saved_snapshots C sp s)(snap_index x \<mapsto> x)) |` newest 3 (insert (snap_index x) (dom (saved_snapshots C sp s)))"
    using e(4) t by simp
next
  fix s i
  assume ok: "snap_state_ok C sp s" and i: "i \<in> dom (saved_snapshots C sp s)" "0 < i"
    "\<forall>j \<in> dom (saved_snapshots C sp s). j \<le> i"
  then show "snap_load C sp s = saved_snapshots C sp s i"
    using Load_result(1) [of C sp s i] by (auto simp: snap_load_def snap_state_ok_def)
next
  fix s
  assume "snap_state_ok C sp s" "dom (saved_snapshots C sp s) \<subseteq> {0}"
  then show "snap_load C sp s = None"
    using Load_result(2) [of C sp s] by (cases "Snapshotter_Load C sp s") (auto simp: snap_load_def snap_state_ok_def)
qed

section \<open>Lemmas: concrete and failing runs\<close>

lemma empty_dir_inv: "codec_ok C \<Longrightarrow> snap_inv C sp (empty_fs plan)"
  by (simp add: snap_inv_def snap_dir_ok_def fs_ok_def nodes_ok_def empty_fs_def snap_file_def file_at_def)

lemma empty_dir_saved: "saved_snapshots C sp (empty_fs plan) = Map.empty"
  by (auto simp: saved_snapshots_def snap_file_def file_at_def empty_fs_def)

lemma empty_reliable: "reliable (empty_fs (\<lambda>_. IoOk))"
  by (simp add: reliable_def empty_fs_def)

lemma newest_singleton: "newest (Suc k) {i} = {i}"
proof -
  have "{j \<in> {i}. i < j} = {}" by auto
  then have "i \<in> newest (Suc k) {i}" by (simp only: newest_def mem_Collect_eq card.empty) simp
  with newest_subset [of "Suc k" "{i}"] show ?thesis by blast
qed

lemma json_unmarshal_Nil [simp]: "json_unmarshal [] = None"
  by (simp add: json_unmarshal_def json_decode_def)

text \<open>A file that does not hold a complete snapshot is an error when it is the newest.\<close>

lemma Load_torn:
  assumes ok: "snap_dir_ok sp s" and rel: "reliable s" and b: "snap_file sp s i = Some b" "decode_snapshot C b = None"
    and i: "0 < i" "\<forall>j \<in> dom (snap_file sp s). j \<le> i"
  shows "fst (Snapshotter_Load C sp s) = Inl (Wrap ''failed to unmarshal snapshot'' ErrJSON)"
proof -
  let ?s = "s\<lparr>fs_tick := Suc (fs_tick s)\<rparr>"
  from b(1) obtain n where n: "map_of (fs_nodes s) (sp_dir sp, snapshot_name i) = Some (FileNode n)" "b = fs_data s n"
    by (auto simp: snap_file_def file_at_def Join_def split: option.splits node.splits)
  have dir: "sp_dir sp \<in> set (fs_dirs s)" using ok n(1) unfolding snap_dir_ok_def by blast
  have rd: "ReadDir (sp_dir sp) s = (Inr (dir_entries (sp_dir sp) s), ?s)"
    using rel dir by (simp add: ReadDir_def io_next_def reliable_def dir_entries_def)
  have pick: "fold pick_latest (dir_entries (sp_dir sp) s) ([], 0) = (snapshot_name i, i)"
    using latest_file(1) [OF ok] i b(1) by blast
  have "ReadFile (Join (sp_dir sp) (snapshot_name i)) ?s = (Inr b, ?s\<lparr>fs_tick := Suc (fs_tick ?s)\<rparr>)"
    using n rel by (simp add: ReadFile_def io_next_def reliable_def Join_def)
  with pick b(2) rd show ?thesis by (simp add: Snapshotter_Load_def decode_snapshot_def Let_def)
qed

text \<open>Saving when the write itself fails at once, for instance on a full disk: the file has been created.\<close>

lemma Save_disk_full:
  assumes ok: "snap_dir_ok sp s" and dir: "sp_dir sp \<in> set (fs_dirs s)"
    and plan: "fs_plan s (fs_tick s) = IoOk" "fs_plan s (Suc (fs_tick s)) = IoOk" "fs_plan s (Suc (Suc (fs_tick s))) = IoErr 0"
  shows "\<exists>s'. Snapshotter_Save C sp x s = (Inl (Wrap ''failed to write snapshot'' ErrIO), s')
     \<and> snap_file sp s' (snap_index x) = Some []"
proof -
  let ?p = "(sp_dir sp, snapshot_name (snap_index x))"
  have "map_of (fs_nodes s) ?p \<noteq> Some DirNode" using ok unfolding snap_dir_ok_def by blast
  with dir plan show ?thesis
    by (cases "map_of (fs_nodes s) ?p")
      (auto simp: Snapshotter_Save_def MkdirAll_def WriteFile_def Create_def FWrite_def io_next_def new_file_def
        Join_def snap_index_def snap_file_def file_at_def update_conv' split: node.splits)
qed

section \<open>Properties\<close>



text \<open>C11: when no call fails, a save succeeds and the directory then holds exactly the three newest of the
  old snapshots and the new one.\<close>

theorem save_keeps_newest:
  assumes "snap_inv C sp s" and "reliable s" and "Snapshotter_Save C sp x s = (r, s')"
  shows "r = Inr () \<and> snap_inv C sp s'
     \<and> saved_snapshots C sp s' = ((saved_snapshots C sp s)(snap_index x \<mapsto> x))
         |` newest 3 (insert (snap_index x) (dom (saved_snapshots C sp s)))"
  using Save_result [OF assms] by blast

theorem save_keeps_newest_witness:
  "\<exists>r s'. snap_inv sample_codec sample_snapshotter (empty_fs (\<lambda>_. IoOk)) \<and> reliable (empty_fs (\<lambda>_. IoOk))
     \<and> Snapshotter_Save sample_codec sample_snapshotter (sample_snapshot 7) (empty_fs (\<lambda>_. IoOk)) = (r, s')
     \<and> r = Inr () \<and> saved_snapshots sample_codec sample_snapshotter s' = [7 \<mapsto> sample_snapshot 7]"
proof -
  obtain r s' where sv: "Snapshotter_Save sample_codec sample_snapshotter (sample_snapshot 7)
      (empty_fs (\<lambda>_. IoOk)) = (r, s')"
    by (cases "Snapshotter_Save sample_codec sample_snapshotter (sample_snapshot 7) (empty_fs (\<lambda>_. IoOk))")
  from save_keeps_newest [OF empty_dir_inv [OF sample_codec_ok] empty_reliable sv] sv
    empty_dir_inv [OF sample_codec_ok] empty_reliable
  show ?thesis by (auto simp: empty_dir_saved snap_index_def sample_snapshot_def restrict_map_def fun_eq_iff numeral_3_eq_3 newest_singleton)
qed

text \<open>C34: whatever calls fail during a save, no snapshot of another index is changed; if the save fails none
  is lost, and if it succeeds those among the three newest are all still there.\<close>

theorem save_failure_safe:
  assumes "snap_dir_ok sp s" and "Snapshotter_Save C sp x s = (r, s')" and "j \<noteq> snap_index x"
  shows "(snap_file sp s' j = None \<or> snap_file sp s' j = snap_file sp s j)
     \<and> (r \<noteq> Inr () \<or> j \<in> newest 3 (insert (snap_index x) (dom (snap_file sp s)))
          \<longrightarrow> snap_file sp s' j = snap_file sp s j)"
proof -
  note e = Save_effect [OF assms(1,2), folded snap_index_def]
  show ?thesis using e(3,4,6) [of j] assms(3) by (cases "r = Inr ()") auto
qed

theorem save_failure_safe_witness:
  "\<exists>r s'. snap_dir_ok sample_snapshotter (empty_fs (\<lambda>_. IoErr 1))
     \<and> Snapshotter_Save sample_codec sample_snapshotter (sample_snapshot 7) (empty_fs (\<lambda>_. IoErr 1)) = (r, s')
     \<and> (3 :: u64) \<noteq> snap_index (sample_snapshot 7) \<and> snap_file sample_snapshotter s' 3 = None"
proof -
  obtain r s' where sv: "Snapshotter_Save sample_codec sample_snapshotter (sample_snapshot 7)
      (empty_fs (\<lambda>_. IoErr 1)) = (r, s')"
    by (cases "Snapshotter_Save sample_codec sample_snapshotter (sample_snapshot 7) (empty_fs (\<lambda>_. IoErr 1))")
  have ok: "snap_dir_ok sample_snapshotter (empty_fs (\<lambda>_. IoErr 1))"
    using empty_dir_inv [OF sample_codec_ok] by (simp add: snap_inv_def)
  have ne: "(3 :: u64) \<noteq> snap_index (sample_snapshot 7)" by (simp add: snap_index_def sample_snapshot_def)
  from save_failure_safe [OF ok sv ne] ok sv ne show ?thesis
    by (auto simp: snap_file_def file_at_def empty_fs_def)
qed

text \<open>Loading reports that there is no snapshot exactly when the directory holds none, or only one of index 0.\<close>

theorem load_not_exist_iff:
  assumes inv: "snap_inv C sp s" and rel: "reliable s"
  shows "fst (Snapshotter_Load C sp s) = Inl ErrNotExist \<longleftrightarrow> dom (saved_snapshots C sp s) \<subseteq> {0}"
proof (cases "dom (saved_snapshots C sp s) \<subseteq> {0}")
  case True
  with Load_result(2) [OF inv rel] show ?thesis by simp
next
  case False
  let ?m = "Max (dom (saved_snapshots C sp s))"
  from False obtain j where j: "j \<in> dom (saved_snapshots C sp s)" "j \<noteq> 0" by blast
  then have "dom (saved_snapshots C sp s) \<noteq> {}" by blast
  with j(1) have "?m \<in> dom (saved_snapshots C sp s)" "j \<le> ?m" "\<forall>k \<in> dom (saved_snapshots C sp s). k \<le> ?m"
    using Max_in [of "dom (saved_snapshots C sp s)"] by simp_all
  with j(2) Load_result(1) [OF inv rel, of ?m] False show ?thesis by (force simp: word_gt_0)
qed

theorem load_not_exist_iff_witness:
  "snap_inv sample_codec sample_snapshotter (empty_fs (\<lambda>_. IoOk)) \<and> reliable (empty_fs (\<lambda>_. IoOk))
   \<and> fst (Snapshotter_Load sample_codec sample_snapshotter (empty_fs (\<lambda>_. IoOk))) = Inl ErrNotExist"
  using load_not_exist_iff [OF empty_dir_inv [OF sample_codec_ok] empty_reliable, of sample_snapshotter]
    empty_dir_inv [OF sample_codec_ok] empty_reliable
  by (simp add: empty_dir_saved)

text \<open>A save that fails because the disk is full leaves an empty file with the newest index, and from then
  on loading fails, although the older snapshots are intact.\<close>

theorem full_disk_blocks_load:
  assumes "snap_dir_ok sp s" and "sp_dir sp \<in> set (fs_dirs s)"
    and "fs_plan s (fs_tick s) = IoOk" and "fs_plan s (Suc (fs_tick s)) = IoOk"
    and "fs_plan s (Suc (Suc (fs_tick s))) = IoErr 0"
    and "0 < snap_index x" and "\<forall>j \<in> dom (snap_file sp s). j \<le> snap_index x"
  shows "\<exists>s'. Snapshotter_Save C sp x s = (Inl (Wrap ''failed to write snapshot'' ErrIO), s')
     \<and> (\<forall>j. j \<noteq> snap_index x \<longrightarrow> snap_file sp s' j = snap_file sp s j)
     \<and> fst (Snapshotter_Load C sp (s'\<lparr>fs_plan := \<lambda>_. IoOk\<rparr>)) = Inl (Wrap ''failed to unmarshal snapshot'' ErrJSON)"
proof -
  obtain s' where s': "Snapshotter_Save C sp x s = (Inl (Wrap ''failed to write snapshot'' ErrIO), s')"
    "snap_file sp s' (snap_index x) = Some []" using Save_disk_full [OF assms(1-5)] by blast
  note e = Save_effect [OF assms(1) s'(1), folded snap_index_def]
  let ?t = "s'\<lparr>fs_plan := \<lambda>_. IoOk\<rparr>"
  have t: "snap_file sp ?t = snap_file sp s'"
    unfolding snap_file_def by (intro ext file_at_cong) simp_all
  have "snap_dir_ok sp ?t" using e(1) by (simp add: snap_dir_ok_def fs_ok_def)
  moreover have "\<forall>j \<in> dom (snap_file sp ?t). j \<le> snap_index x"
    using e(6) assms(7) unfolding t by (metis (no_types, lifting) Inl_Inr_False domIff order_refl)
  ultimately have "fst (Snapshotter_Load C sp ?t) = Inl (Wrap ''failed to unmarshal snapshot'' ErrJSON)"
    using assms(6) s'(2) t by (intro Load_torn [where b = "[]" and i = "snap_index x"]) (simp_all add: reliable_def decode_snapshot_def)
  with s'(1) e(6) show ?thesis by blast
qed

theorem full_disk_blocks_load_witness:
  "\<exists>s'. Snapshotter_Save sample_codec sample_snapshotter (sample_snapshot 7) full_disk_fs
       = (Inl (Wrap ''failed to write snapshot'' ErrIO), s')
     \<and> fst (Snapshotter_Load sample_codec sample_snapshotter (s'\<lparr>fs_plan := \<lambda>_. IoOk\<rparr>))
       = Inl (Wrap ''failed to unmarshal snapshot'' ErrJSON)"
proof -
  have ok: "snap_dir_ok sample_snapshotter full_disk_fs"
    by (simp add: snap_dir_ok_def fs_ok_def nodes_ok_def full_disk_fs_def empty_fs_def)
  have "dom (snap_file sample_snapshotter full_disk_fs) = {}"
    by (auto simp: snap_file_def file_at_def full_disk_fs_def empty_fs_def)
  with full_disk_blocks_load [OF ok, of "sample_snapshot 7" sample_codec] show ?thesis
    by (auto simp: full_disk_fs_def empty_fs_def sample_snapshotter_def snap_index_def sample_snapshot_def)
qed

end
