(* ===== verification/Go_HTTP.thy ===== *)
theory Go_HTTP
  imports Go_JSON
begin

text \<open>
  What the handlers and clients use of \<open>net/http\<close>: methods, status codes, the reply a handler
  writes, and an HTTP client. The network and the process at its other end are outside the
  program: a client is a record of functions that say what the calls return.
\<close>

record http_request =
  rq_Method :: string
  rq_Path :: string
  rq_Body :: "bytes res"
  rq_RemoteAddr :: string

record http_response =
  rs_Status :: nat
  rs_Body :: bytes

definition MethodGet :: string where "MethodGet = ''GET''"
definition MethodPost :: string where "MethodPost = ''POST''"
definition MethodPut :: string where "MethodPut = ''PUT''"
definition MethodDelete :: string where "MethodDelete = ''DELETE''"

definition StatusOK :: nat where "StatusOK = 200"
definition StatusBadRequest :: nat where "StatusBadRequest = 400"
definition StatusNotFound :: nat where "StatusNotFound = 404"
definition StatusMethodNotAllowed :: nat where "StatusMethodNotAllowed = 405"
definition StatusInternalServerError :: nat where "StatusInternalServerError = 500"

text \<open>\<open>http.Error\<close> ends the message with a newline.\<close>

definition http_Error :: "string \<Rightarrow> nat \<Rightarrow> http_response" where
  "http_Error msg code = \<lparr>rs_Status = code, rs_Body = msg @ [CHR 0x0A]\<rparr>"

text \<open>\<open>json.NewEncoder(w).Encode\<close> also ends with a newline; the status is then 200.\<close>

definition json_reply :: "json \<Rightarrow> http_response" where
  "json_reply v = \<lparr>rs_Status = StatusOK, rs_Body = json_text v @ [CHR 0x0A]\<rparr>"

definition empty_reply :: http_response where
  "empty_reply = \<lparr>rs_Status = StatusOK, rs_Body = []\<rparr>"

text \<open>
  \<open>http.NewRequest\<close> rejects some URLs; \<open>Client.Do\<close> returns an error or a reply, with the text of
  the status line.
\<close>

record http_client =
  hc_new :: "string \<Rightarrow> unit res"
  hc_do :: "string \<Rightarrow> bytes \<Rightarrow> (http_response \<times> string) res"

lemmas http_status = StatusOK_def StatusBadRequest_def StatusNotFound_def StatusMethodNotAllowed_def
  StatusInternalServerError_def

lemmas http_methods = MethodGet_def MethodPost_def MethodPut_def MethodDelete_def

end
