(* ===== verification/Transport.thy ===== *)
theory Transport
  imports Go_HTTP Sample_Codec
begin

text \<open>
  \<open>server/pkg/transport/transport.go\<close>: the peer table, sending messages over HTTP, and the
  handlers of received messages. The peer table is guarded by the transport's mutex, so its
  operations are atomic. A call that posts a request returns, besides its result, the requests
  that were posted (URL and body). Marshalling the Raft library's message struct cannot fail.
  The HTTP server and the context deadlines are not modelled.
\<close>

text \<open>A message of the Raft library, with the fields the transport reads; the rest is opaque.\<close>

datatype MessageType = MsgSnap | MsgOther nat

record raft_Message =
  ms_Type :: MessageType
  ms_To :: u64
  ms_Rest :: bytes

record msg_codec =
  mc_json :: "raft_Message \<Rightarrow> json"
  mc_into :: "json \<Rightarrow> raft_Message option"

text \<open>What the transport relies on: a message survives being written and read as JSON.\<close>

definition msg_codec_ok :: "msg_codec \<Rightarrow> bool" where
  "msg_codec_ok M \<longleftrightarrow> (\<forall>m. wire_ok (mc_json M m) \<and> mc_into M (mc_json M m) = Some m)"

record Peer =
  pe_id :: u64
  pe_addr :: string
  pe_active :: bool

record Transport =
  tr_id :: u64
  tr_addr :: string
  tr_peers :: "(u64, Peer) gomap"
  tr_stopped :: bool

definition NewPeer :: "u64 \<Rightarrow> string \<Rightarrow> Peer" where
  "NewPeer i addr = \<lparr>pe_id = i, pe_addr = addr, pe_active = True\<rparr>"

definition NewTransport :: "u64 \<Rightarrow> string \<Rightarrow> Transport" where
  "NewTransport i addr = \<lparr>tr_id = i, tr_addr = addr, tr_peers = [], tr_stopped = False\<rparr>"

text \<open>\<open>Stop\<close>; the argument is what shutting down the HTTP server returns.\<close>

definition Transport_Stop :: "unit res \<Rightarrow> Transport \<Rightarrow> unit res \<times> Transport" where
  "Transport_Stop shutdown t =
     (if tr_stopped t then (Inr (), t) else (shutdown, t\<lparr>tr_stopped := True\<rparr>))"

definition AddPeer :: "u64 \<Rightarrow> string \<Rightarrow> Transport \<Rightarrow> Transport" where
  "AddPeer i addr t =
     (case map_of (tr_peers t) i of
        Some _ \<Rightarrow> t
      | None \<Rightarrow> t\<lparr>tr_peers := AList.update i (NewPeer i addr) (tr_peers t)\<rparr>)"

definition Peer_Stop :: "Peer \<Rightarrow> Peer" where
  "Peer_Stop p = (if pe_active p then p\<lparr>pe_active := False\<rparr> else p)"

text \<open>The stopped peer is dropped from the table; nothing else in the transport refers to it.\<close>

definition RemovePeer :: "u64 \<Rightarrow> Transport \<Rightarrow> Transport" where
  "RemovePeer i t =
     (case map_of (tr_peers t) i of
        Some p \<Rightarrow>
          (let stopped = AList.update i (Peer_Stop p) (tr_peers t)
           in t\<lparr>tr_peers := AList.delete i stopped\<rparr>)
      | None \<Rightarrow> t)"

definition raft_endpoint :: "raft_Message \<Rightarrow> string" where
  "raft_endpoint m = (if ms_Type m = MsgSnap then ''/raft/snapshot'' else ''/raft'')"

definition peer_url :: "Peer \<Rightarrow> raft_Message \<Rightarrow> string" where
  "peer_url p m = ''http://'' @ pe_addr p @ raft_endpoint m"

definition Peer_Send ::
    "http_client \<Rightarrow> msg_codec \<Rightarrow> raft_Message \<Rightarrow> Peer \<Rightarrow> unit res \<times> (string \<times> bytes) list" where
  "Peer_Send H M m p =
     (if \<not> pe_active p then (Inl (Errorf (''peer '' @ dec (unat (pe_id p)) @ '' is not active'')), [])
      else let data = json_text (mc_json M m); url = peer_url p m in
        case hc_new H url of
          Inl e \<Rightarrow> (Inl (Wrap ''failed to create request'' e), [])
        | Inr _ \<Rightarrow>
            (case hc_do H url data of
               Inl e \<Rightarrow> (Inl (Wrap ''failed to send message'' e), [(url, data)])
             | Inr (resp, status) \<Rightarrow>
                 if rs_Status resp \<noteq> StatusOK
                 then (Inl (Errorf (''peer returned error: '' @ status @ '' - '' @ rs_Body resp)), [(url, data)])
                 else (Inr (), [(url, data)])))"

definition Transport_Send ::
    "http_client \<Rightarrow> msg_codec \<Rightarrow> Transport \<Rightarrow> raft_Message \<Rightarrow> unit res \<times> (string \<times> bytes) list" where
  "Transport_Send H M t m =
     (case map_of (tr_peers t) (ms_To m) of
        None \<Rightarrow> (Inl (Errorf (''peer '' @ dec (unat (ms_To m)) @ '' not found'')), [])
      | Some p \<Rightarrow> Peer_Send H M m p)"

text \<open>\<open>SendMessages\<close>: an error is logged and the loop goes on.\<close>

fun SendMessages :: "http_client \<Rightarrow> msg_codec \<Rightarrow> Transport \<Rightarrow> raft_Message list \<Rightarrow> (string \<times> bytes) list" where
  "SendMessages H M t [] = []"
| "SendMessages H M t (m # ms) =
     (case Transport_Send H M t m of (_, posted) \<Rightarrow> posted @ SendMessages H M t ms)"

text \<open>
  The two handlers of received messages differ in the texts of their errors. The argument is the
  \<open>Process\<close> method of the message handler, over that handler's own state.
\<close>

definition handle_message ::
    "string \<Rightarrow> msg_codec \<Rightarrow> (raft_Message \<Rightarrow> 's \<Rightarrow> unit res \<times> 's) \<Rightarrow> http_request \<Rightarrow> 's \<Rightarrow> http_response \<times> 's" where
  "handle_message what M Process r s =
     (if rq_Method r \<noteq> MethodPost then (http_Error ''method not allowed'' StatusMethodNotAllowed, s)
      else case rq_Body r of
        Inl _ \<Rightarrow> (http_Error ''failed to read body'' StatusBadRequest, s)
      | Inr body \<Rightarrow>
          (case Option.bind (json_unmarshal body) (mc_into M) of
             None \<Rightarrow> (http_Error (''failed to unmarshal '' @ what) StatusBadRequest, s)
           | Some m \<Rightarrow>
               (case Process m s of
                  (Inl _, s) \<Rightarrow> (http_Error (''failed to process '' @ what) StatusInternalServerError, s)
                | (Inr _, s) \<Rightarrow> (empty_reply, s))))"

definition handleRaftMessage ::
    "msg_codec \<Rightarrow> (raft_Message \<Rightarrow> 's \<Rightarrow> unit res \<times> 's) \<Rightarrow> http_request \<Rightarrow> 's \<Rightarrow> http_response \<times> 's" where
  "handleRaftMessage = handle_message ''message''"

definition handleSnapshot ::
    "msg_codec \<Rightarrow> (raft_Message \<Rightarrow> 's \<Rightarrow> unit res \<times> 's) \<Rightarrow> http_request \<Rightarrow> 's \<Rightarrow> http_response \<times> 's" where
  "handleSnapshot = handle_message ''snapshot''"

text \<open>The routes that \<open>Start\<close> registers.\<close>

definition Transport_serve ::
    "msg_codec \<Rightarrow> (raft_Message \<Rightarrow> 's \<Rightarrow> unit res \<times> 's) \<Rightarrow> http_request \<Rightarrow> 's \<Rightarrow> http_response \<times> 's" where
  "Transport_serve M Process r s =
     (if rq_Path r = ''/raft'' then handleRaftMessage M Process r s
      else if rq_Path r = ''/raft/snapshot'' then handleSnapshot M Process r s
      else (http_Error ''404 page not found'' StatusNotFound, s))"

section \<open>Invariant and specification\<close>

text \<open>Every peer in the table has its own identifier and is active.\<close>

definition transport_ok :: "Transport \<Rightarrow> bool" where
  "transport_ok t \<longleftrightarrow>
     gomap_ok (tr_peers t) \<and> (\<forall>i p. map_of (tr_peers t) i = Some p \<longrightarrow> pe_id p = i \<and> pe_active p)"

text \<open>The table as the address of every known peer.\<close>

definition peer_addrs :: "Transport \<Rightarrow> u64 \<Rightarrow> string option" where
  "peer_addrs t i = map_option pe_addr (map_of (tr_peers t) i)"

datatype peer_op = PeerAdd u64 string | PeerRemove u64

fun transport_op :: "peer_op \<Rightarrow> Transport \<Rightarrow> Transport" where
  "transport_op (PeerAdd i a) t = AddPeer i a t"
| "transport_op (PeerRemove i) t = RemovePeer i t"

fun spec_peer_op :: "peer_op \<Rightarrow> (u64 \<Rightarrow> string option) \<Rightarrow> u64 \<Rightarrow> string option" where
  "spec_peer_op (PeerAdd i a) m = (if m i = None then m(i \<mapsto> a) else m)"
| "spec_peer_op (PeerRemove i) m = m(i := None)"

text \<open>The request that a message becomes for a peer address.\<close>

definition posted_to :: "msg_codec \<Rightarrow> raft_Message \<Rightarrow> string \<Rightarrow> string \<times> bytes" where
  "posted_to M m addr = (''http://'' @ addr @ raft_endpoint m, json_text (mc_json M m))"

text \<open>A client that accepts every URL, and the request the other side receives for what was posted.\<close>

definition any_url :: "http_client \<Rightarrow> bool" where
  "any_url H \<longleftrightarrow> (\<forall>u. hc_new H u = Inr ())"

definition received :: "raft_Message \<Rightarrow> string \<times> bytes \<Rightarrow> http_request" where
  "received m p = \<lparr>rq_Method = MethodPost, rq_Path = raft_endpoint m, rq_Body = Inr (snd p), rq_RemoteAddr = []\<rparr>"

text \<open>A concrete message encoding, client and transport.\<close>

definition sample_msg_json :: "raft_Message \<Rightarrow> json" where
  "sample_msg_json m =
     nums_json ((case ms_Type m of MsgSnap \<Rightarrow> 0 | MsgOther n \<Rightarrow> Suc n) # unat (ms_To m) # map byte_val (ms_Rest m))"

fun nums_msg :: "nat list \<Rightarrow> raft_Message option" where
  "nums_msg (t # i # d) =
     Some \<lparr>ms_Type = (case t of 0 \<Rightarrow> MsgSnap | Suc n \<Rightarrow> MsgOther n), ms_To = of_nat i, ms_Rest = map char_of d\<rparr>"
| "nums_msg _ = None"

definition sample_msg_codec :: msg_codec where
  "sample_msg_codec = \<lparr>mc_json = sample_msg_json, mc_into = (\<lambda>j. Option.bind (json_nums j) nums_msg)\<rparr>"

definition dead_client :: http_client where
  "dead_client = \<lparr>hc_new = (\<lambda>_. Inr ()), hc_do = (\<lambda>_ _. Inl (ErrLib 0))\<rparr>"

definition sample_msg :: "u64 \<Rightarrow> raft_Message" where
  "sample_msg i = \<lparr>ms_Type = MsgOther 3, ms_To = i, ms_Rest = ''x''\<rparr>"

section \<open>Lemmas\<close>

lemma sample_msg_codec_ok: "msg_codec_ok sample_msg_codec"
proof -
  have "mc_into sample_msg_codec (mc_json sample_msg_codec m) = Some m" for m
    by (cases m) (simp add: sample_msg_codec_def sample_msg_json_def comp_def split: MessageType.splits)
  then show ?thesis by (simp add: msg_codec_ok_def sample_msg_codec_def sample_msg_json_def wire_ok_nums_json)
qed

lemma AddPeer_ok [inv_intros]: "transport_ok t \<Longrightarrow> transport_ok (AddPeer i a t)"
  by (auto simp: transport_ok_def AddPeer_def NewPeer_def update_conv' split: option.splits if_splits)

lemma RemovePeer_ok [inv_intros]: "transport_ok t \<Longrightarrow> transport_ok (RemovePeer i t)"
  by (auto simp: transport_ok_def RemovePeer_def Let_def update_conv' delete_conv' split: option.splits if_splits)

lemma transport_op_ok [inv_intros]: "transport_ok t \<Longrightarrow> transport_ok (transport_op x t)"
  by (cases x) (simp_all add: inv_intros)

lemma peer_addrs_op: "peer_addrs (transport_op x t) = spec_peer_op x (peer_addrs t)"
  by (cases x)
    (auto simp: peer_addrs_def AddPeer_def RemovePeer_def NewPeer_def Let_def update_conv' delete_conv' fun_eq_iff
      split: option.splits)

lemma peer_addrs_Add: "peer_addrs (AddPeer i a t) = [i \<mapsto> a] ++ peer_addrs t"
  using peer_addrs_op [of "PeerAdd i a" t] by (auto simp: map_add_def fun_eq_iff split: option.splits)

lemma Peer_Send_posts:
  "pe_active p \<Longrightarrow> any_url H \<Longrightarrow> snd (Peer_Send H M m p) = [posted_to M m (pe_addr p)]"
  by (auto simp: Peer_Send_def any_url_def posted_to_def peer_url_def Let_def split: sum.splits prod.splits)

lemma Transport_Send_posts:
  assumes "transport_ok t" and "any_url H"
  shows "snd (Transport_Send H M t m) = (case peer_addrs t (ms_To m) of None \<Rightarrow> [] | Some a \<Rightarrow> [posted_to M m a])"
  using assms Peer_Send_posts [of _ H M m]
  by (auto simp: Transport_Send_def peer_addrs_def transport_ok_def split: option.splits)

lemma json_unmarshal_message:
  assumes "msg_codec_ok M"
  shows "Option.bind (json_unmarshal (json_text (mc_json M m))) (mc_into M) = Some m"
proof -
  have "json_ok (mc_json M m)" "json_depth (mc_json M m) \<le> maxNestingDepth" "mc_into M (mc_json M m) = Some m"
    using assms less_imp_le [of "json_depth (mc_json M m)" 100]
    by (auto simp: msg_codec_ok_def wire_ok_def maxNestingDepth_def)
  then show ?thesis by (simp add: json_unmarshal_text)
qed

lemma served_message:
  assumes "msg_codec_ok M" and "Process m s = (r, s')"
  shows "Transport_serve M Process (received m (posted_to M m addr)) s
     = (if r = Inr () then empty_reply
        else http_Error (''failed to process '' @ (if ms_Type m = MsgSnap then ''snapshot'' else ''message''))
               StatusInternalServerError, s')"
  using assms json_unmarshal_message [OF assms(1), of m]
  by (cases r)
    (auto simp: Transport_serve_def received_def posted_to_def raft_endpoint_def handleRaftMessage_def
      handleSnapshot_def handle_message_def)

section \<open>Properties\<close>

text \<open>After any sequence of additions and removals every peer in the table is active and carries its own
  identifier, and the addresses are those of the abstract table: the first address given since a node was last
  removed stays.\<close>

theorem peer_table_refines:
  "transport_ok (fold transport_op ops (NewTransport i a))
   \<and> peer_addrs (fold transport_op ops (NewTransport i a)) = fold spec_peer_op ops Map.empty"
proof -
  have "transport_ok t \<Longrightarrow> transport_ok (fold transport_op ops t)
      \<and> peer_addrs (fold transport_op ops t) = fold spec_peer_op ops (peer_addrs t)" for t
    by (induction ops arbitrary: t) (simp_all add: inv_intros peer_addrs_op)
  moreover have "transport_ok (NewTransport i a)" "peer_addrs (NewTransport i a) = Map.empty"
    by (auto simp: transport_ok_def NewTransport_def peer_addrs_def)
  ultimately show ?thesis by metis
qed

text \<open>Sending a batch posts exactly one request for every message whose receiver is a known peer, in the
  order of the batch; a message that fails, or whose receiver is unknown, does not keep the others back.\<close>

theorem SendMessages_posts:
  assumes "transport_ok t" and "any_url H"
  shows "SendMessages H M t ms
     = List.map_filter (\<lambda>m. map_option (posted_to M m) (peer_addrs t (ms_To m))) ms"
proof (induction ms)
  case (Cons m ms)
  have "SendMessages H M t (m # ms) = snd (Transport_Send H M t m) @ SendMessages H M t ms"
    by (simp split: prod.split)
  with Cons Transport_Send_posts [OF assms] show ?case
    by (auto simp: List.map_filter_simps split: option.splits)
qed (simp add: List.map_filter_simps)

theorem SendMessages_posts_witness:
  "\<exists>t. t = AddPeer 2 ''b:1'' (AddPeer 3 ''c:1'' (NewTransport 1 ''a:1'')) \<and> transport_ok t \<and> any_url dead_client
     \<and> SendMessages dead_client sample_msg_codec t (map sample_msg [2, 7, 3])
       = [posted_to sample_msg_codec (sample_msg 2) ''b:1'', posted_to sample_msg_codec (sample_msg 3) ''c:1'']"
proof -
  let ?t = "AddPeer 2 ''b:1'' (AddPeer 3 ''c:1'' (NewTransport 1 ''a:1''))"
  have t: "transport_ok ?t" by (intro inv_intros) (simp add: transport_ok_def NewTransport_def)
  have u: "any_url dead_client" by (simp add: any_url_def dead_client_def)
  from SendMessages_posts [OF t u, of sample_msg_codec "map sample_msg [2, 7, 3]"] t u show ?thesis
    by (simp add: List.map_filter_simps peer_addrs_def AddPeer_def NewTransport_def NewPeer_def sample_msg_def)
qed

text \<open>what one transport posts is what the handler of another gives to its node: the request for a message
  is served by calling \<open>Process\<close> with that very message, and the reply says whether it succeeded.\<close>

theorem message_delivered:
  assumes "msg_codec_ok M" and "Process m s = (r, s')"
  shows "Transport_serve M Process (received m (posted_to M m addr)) s
     = (if r = Inr () then empty_reply
        else http_Error (''failed to process '' @ (if ms_Type m = MsgSnap then ''snapshot'' else ''message''))
               StatusInternalServerError, s')"
  using assms by (rule served_message)

theorem message_delivered_witness:
  "msg_codec_ok sample_msg_codec
   \<and> Transport_serve sample_msg_codec (\<lambda>m s. (Inr (), s @ [m]))
       (received (sample_msg 2) (posted_to sample_msg_codec (sample_msg 2) ''b:1'')) []
     = (empty_reply, [sample_msg 2])"
  using message_delivered [OF sample_msg_codec_ok, of "\<lambda>m s. (Inr (), s @ [m])" "sample_msg 2" "[]"
      "Inr ()" "[sample_msg 2]" "''b:1''"] sample_msg_codec_ok
  by simp

end
