(* ===== verification/RaftNode.thy ===== *)
theory RaftNode
  imports Config KVStore WAL_Log Snapshotter_Spec Transport "HOL-Library.Signed_Division"
begin

text \<open>
  \<open>server/pkg/raftnode/raftnode.go\<close>: the node that drives the Raft library. The library
  (\<open>go.etcd.io/etcd/raft/v3\<close>: \<open>raft.Node\<close> and \<open>raft.MemoryStorage\<close>) is a record of functions over
  a state of its own; the node's own state is a record, and the file system is passed along.

  A handler returns \<open>None\<close> when the process panics (an assignment to a nil map). Errors that the
  code only logs are results of the sub-operations that the composed operation drops, as the code
  does. Log lines, the ticker and the channels \<open>proposeC\<close> and \<open>confChangeC\<close>, which no code uses, are
  left out.
\<close>

section \<open>The library\<close>

record raft_Status =
  st_Lead :: u64
  st_Commit :: u64
  st_Progress :: "(u64, u64) gomap"  \<comment> \<open>the \<open>Match\<close> index of every node\<close>

datatype StateType = StateFollower | StateCandidate | StateLeader | StatePreCandidate

record Ready =
  rd_HardState :: HardState
  rd_Entries :: "raft_Entry list"
  rd_CommittedEntries :: "raft_Entry list"
  rd_Messages :: "raft_Message list"
  rd_Snapshot :: raft_Snapshot
  rd_SoftState :: "StateType option"

record 'r raft_lib =
  rl_init :: 'r  \<comment> \<open>no node has been created yet\<close>
  rl_NewMemoryStorage :: "'r \<Rightarrow> 'r"
  rl_ApplySnapshot :: "raft_Snapshot \<Rightarrow> 'r \<Rightarrow> unit res \<times> 'r"
  rl_SetHardState :: "HardState \<Rightarrow> 'r \<Rightarrow> unit res \<times> 'r"
  rl_Append :: "raft_Entry list \<Rightarrow> 'r \<Rightarrow> unit res \<times> 'r"
  rl_StartNode :: "u64 \<Rightarrow> u64 list \<Rightarrow> 'r \<Rightarrow> 'r"
  rl_RestartNode :: "u64 \<Rightarrow> 'r \<Rightarrow> 'r"
  rl_Tick :: "'r \<Rightarrow> 'r"
  rl_Advance :: "'r \<Rightarrow> 'r"
  rl_Stop :: "'r \<Rightarrow> 'r"
  rl_Propose :: "bytes \<Rightarrow> 'r \<Rightarrow> unit res \<times> 'r"
  rl_ProposeConfChange :: "ConfChange \<Rightarrow> 'r \<Rightarrow> unit res \<times> 'r"
  rl_ApplyConfChange :: "ConfChange \<Rightarrow> 'r \<Rightarrow> 'r"
  rl_Step :: "raft_Message \<Rightarrow> 'r \<Rightarrow> unit res \<times> 'r"
  rl_Status :: "'r \<Rightarrow> raft_Status"
  rl_TransferLeadership :: "u64 \<Rightarrow> u64 \<Rightarrow> 'r \<Rightarrow> 'r"

section \<open>Log entries\<close>

definition EntryNormal :: "8 word" where "EntryNormal = 0"
definition EntryConfChange :: "8 word" where "EntryConfChange = 1"

record Entry =
  e_Type :: "8 word"
  e_Key :: string
  e_Value :: string

definition zero_EntryKV :: Entry where
  "zero_EntryKV = \<lparr>e_Type = 0, e_Key = [], e_Value = []\<rparr>"

text \<open>\<open>json.Marshal\<close> of an entry; an empty key or value is left out (\<open>omitempty\<close>).\<close>

definition entry_json :: "Entry \<Rightarrow> json" where
  "entry_json e =
     JObj ([(''type'', JNum (dec (unat (e_Type e))))]
       @ (if e_Key e = [] then [] else [(''key'', JStr (e_Key e))])
       @ (if e_Value e = [] then [] else [(''value'', JStr (e_Value e))]))"

definition entry_field :: "string \<times> json \<Rightarrow> Entry \<Rightarrow> Entry option" where
  "entry_field kv e =
     (if field_match ''type'' (fst kv) then
        map_option (\<lambda>t. e\<lparr>e_Type := t\<rparr>) (into_uint8 (e_Type e) (snd kv))
      else if field_match ''key'' (fst kv) then
        map_option (\<lambda>k. e\<lparr>e_Key := k\<rparr>) (into_string (e_Key e) (snd kv))
      else if field_match ''value'' (fst kv) then
        map_option (\<lambda>v. e\<lparr>e_Value := v\<rparr>) (into_string (e_Value e) (snd kv))
      else Some e)"

definition into_entry :: "json \<Rightarrow> Entry option" where
  "into_entry j =
     (case j of
        JNull \<Rightarrow> Some zero_EntryKV
      | JObj kvs \<Rightarrow> fold_opt entry_field kvs zero_EntryKV
      | _ \<Rightarrow> None)"

definition unmarshal_entry :: "bytes \<Rightarrow> Entry option" where
  "unmarshal_entry b = Option.bind (json_unmarshal b) into_entry"

section \<open>The node\<close>

text \<open>
  A proposal waits on a channel of capacity one; channels are numbered, and the buffer of a channel
  is empty (\<open>None\<close>) or holds the error that was sent (\<open>None\<close> inside for nil).
\<close>

record 'r RaftNode =
  rn_cfg :: Config
  rn_raft :: 'r
  rn_store :: KVStore
  rn_wal :: WAL
  rn_snap :: Snapshotter
  rn_transport :: "Transport option"
  rn_stopped :: bool
  rn_appliedIndex :: u64
  rn_snapshotIndex :: u64
  rn_snapshotInterval :: u64
  rn_proposals :: "(u64, nat) gomap"
  rn_chans :: "(nat, goerr option) gomap"
  rn_peers :: "(u64, string) gomap"
  rn_isLeader :: bool

text \<open>\<open>filepath.Join\<close> of a clean directory name and a plain name.\<close>

definition dir_join :: "string \<Rightarrow> string \<Rightarrow> string" where
  "dir_join d x = (if d = [] then x else d @ CHR ''/'' # x)"

definition NewRaftNode :: "'r raft_lib \<Rightarrow> Config \<Rightarrow> KVStore \<Rightarrow> fs \<Rightarrow> 'r RaftNode res \<times> fs" where
  "NewRaftNode L cfg store s =
     (let walDir = dir_join (cf_DataDir cfg) ''wal''; snapDir = dir_join (cf_DataDir cfg) ''snapshots'' in
      case MkdirAll walDir s of
        (Inl e, s) \<Rightarrow> (Inl (Wrap ''failed to create WAL directory'' e), s)
      | (Inr _, s) \<Rightarrow>
          (case MkdirAll snapDir s of
             (Inl e, s) \<Rightarrow> (Inl (Wrap ''failed to create snapshot directory'' e), s)
           | (Inr _, s) \<Rightarrow>
               (case NewWAL walDir s of
                  (Inl e, s) \<Rightarrow> (Inl (Wrap ''failed to create WAL'' e), s)
                | (Inr wal, s) \<Rightarrow>
                    (Inr \<lparr>rn_cfg = cfg, rn_raft = rl_init L, rn_store = store, rn_wal = wal,
                          rn_snap = NewSnapshotter snapDir, rn_transport = None, rn_stopped = False,
                          rn_appliedIndex = 0, rn_snapshotIndex = 0, rn_snapshotInterval = 0,
                          rn_proposals = [], rn_chans = [], rn_peers = [], rn_isLeader = False\<rparr>, s))))"

text \<open>The hash of a node identifier: \<open>hash*31 + rune\<close> in 64-bit arithmetic.\<close>

definition nodeIDToRaftID :: "string \<Rightarrow> u64" where
  "nodeIDToRaftID nodeID = fold (\<lambda>c hash. hash * 31 + of_nat (fst c)) (runes nodeID) 0"

text \<open>
  The snapshot interval: a duration in milliseconds or a plain integer. \<open>time.ParseDuration\<close> is an
  argument; it returns nanoseconds.
\<close>

definition parse_interval :: "(string \<Rightarrow> i64 res) \<Rightarrow> string \<Rightarrow> u64 res" where
  "parse_interval ParseDuration str =
     (case ParseDuration str of
        Inr d \<Rightarrow> Inr (word_of_int (sint d sdiv 1000000))
      | Inl _ \<Rightarrow>
          (case Atoi str of
             Inr n \<Rightarrow> Inr n
           | Inl _ \<Rightarrow> Inl (Errorf (''invalid snapshotInterval value '' @ str))))"

text \<open>The steps of \<open>Start\<close> that put the snapshot, the hard state and the entries back.\<close>

definition start_snapshot :: "'r raft_lib \<Rightarrow> raft_Snapshot option \<Rightarrow> 'r RaftNode \<Rightarrow> unit res \<times> 'r RaftNode" where
  "start_snapshot L snapshot rn =
     (case snapshot of
        None \<Rightarrow> (Inr (), rn)
      | Some x \<Rightarrow>
          (case rl_ApplySnapshot L x (rn_raft rn) of
             (Inl e, r) \<Rightarrow> (Inl (Wrap ''failed to apply snapshot to storage'' e), rn\<lparr>rn_raft := r\<rparr>)
           | (Inr _, r) \<Rightarrow>
               (case KV_Restore (sn_Data x) (rn_store rn) of
                  (Inl e, kv) \<Rightarrow>
                    (Inl (Wrap ''failed to restore snapshot to KV store'' e), rn\<lparr>rn_raft := r, rn_store := kv\<rparr>)
                | (Inr _, kv) \<Rightarrow>
                    (Inr (), rn\<lparr>rn_raft := r, rn_store := kv, rn_snapshotIndex := md_Index (sn_Metadata x),
                                rn_appliedIndex := md_Index (sn_Metadata x)\<rparr>))))"

definition start_hardState :: "'r raft_lib \<Rightarrow> raft_codec \<Rightarrow> HardState \<Rightarrow> 'r RaftNode \<Rightarrow> unit res \<times> 'r RaftNode" where
  "start_hardState L C h rn =
     (if cd_empty_hs C h then (Inr (), rn)
      else case rl_SetHardState L h (rn_raft rn) of
             (Inl e, r) \<Rightarrow> (Inl (Wrap ''failed to set hard state'' e), rn\<lparr>rn_raft := r\<rparr>)
           | (Inr _, r) \<Rightarrow> (Inr (), rn\<lparr>rn_raft := r\<rparr>))"

definition start_entries :: "'r raft_lib \<Rightarrow> raft_Entry list \<Rightarrow> 'r RaftNode \<Rightarrow> unit res \<times> 'r RaftNode" where
  "start_entries L es rn =
     (if es = [] then (Inr (), rn)
      else case rl_Append L es (rn_raft rn) of
             (Inl e, r) \<Rightarrow> (Inl (Wrap ''failed to append entries to storage'' e), rn\<lparr>rn_raft := r\<rparr>)
           | (Inr _, r) \<Rightarrow> (Inr (), rn\<lparr>rn_raft := r\<rparr>))"

definition start_restore ::
    "'r raft_lib \<Rightarrow> raft_codec \<Rightarrow> raft_Snapshot option \<Rightarrow> HardState \<Rightarrow> raft_Entry list \<Rightarrow> 'r RaftNode
       \<Rightarrow> unit res \<times> 'r RaftNode" where
  "start_restore L C snapshot h es rn =
     (case start_snapshot L snapshot (rn\<lparr>rn_raft := rl_NewMemoryStorage L (rn_raft rn)\<rparr>) of
        (Inl e, rn) \<Rightarrow> (Inl e, rn)
      | (Inr _, rn) \<Rightarrow>
          (case start_hardState L C h rn of
             (Inl e, rn) \<Rightarrow> (Inl e, rn)
           | (Inr _, rn) \<Rightarrow> start_entries L es rn))"

text \<open>A node without log and snapshot starts a new cluster with the configured peers.\<close>

definition start_node :: "'r raft_lib \<Rightarrow> bool \<Rightarrow> 'r RaftNode \<Rightarrow> 'r RaftNode" where
  "start_node L fresh rn =
     (let raftID = nodeIDToRaftID (cf_NodeID (rn_cfg rn)) in
      if fresh
      then rn\<lparr>rn_raft := rl_StartNode L raftID (map (nodeIDToRaftID \<circ> fst) (GetPeers (rn_cfg rn))) (rn_raft rn)\<rparr>
      else rn\<lparr>rn_raft := rl_RestartNode L raftID (rn_raft rn)\<rparr>)"

text \<open>The initial peers, without the node itself, go into the transport and the peer map.\<close>

definition start_peer :: "string \<times> string \<Rightarrow> 'r RaftNode \<Rightarrow> 'r RaftNode" where
  "start_peer p rn =
     (if fst p = cf_NodeID (rn_cfg rn) then rn
      else rn\<lparr>rn_transport := map_option (AddPeer (nodeIDToRaftID (fst p)) (snd p)) (rn_transport rn),
              rn_peers := AList.update (nodeIDToRaftID (fst p)) (snd p) (rn_peers rn)\<rparr>)"

definition start_transport :: "'r RaftNode \<Rightarrow> 'r RaftNode" where
  "start_transport rn =
     fold start_peer (GetPeers (rn_cfg rn))
       (rn\<lparr>rn_transport := Some (NewTransport (nodeIDToRaftID (cf_NodeID (rn_cfg rn))) (cf_RaftAddr (rn_cfg rn)))\<rparr>)"

definition RN_Start ::
    "'r raft_lib \<Rightarrow> raft_codec \<Rightarrow> (string \<Rightarrow> i64 res) \<Rightarrow> 'r RaftNode \<Rightarrow> fs \<Rightarrow> unit res \<times> 'r RaftNode \<times> fs" where
  "RN_Start L C ParseDuration rn s =
     (case parse_interval ParseDuration (cf_SnapshotInterval (rn_cfg rn)) of
        Inl e \<Rightarrow> (Inl e, rn, s)
      | Inr interval \<Rightarrow>
          (let rn = rn\<lparr>rn_snapshotInterval := interval\<rparr>;
               (loaded, s) = Snapshotter_Load C (rn_snap rn) s in
           if (case loaded of Inl e \<Rightarrow> \<not> IsNotExist e | Inr _ \<Rightarrow> False)
           then (Inl (Wrap ''failed to load snapshot'' (projl loaded)), rn, s)
           else let snapshot = (case loaded of Inl _ \<Rightarrow> None | Inr x \<Rightarrow> Some x) in
             case WAL_ReadAll C (rn_wal rn) s of
               (Inl e, w, s) \<Rightarrow> (Inl (Wrap ''failed to read WAL'' e), rn\<lparr>rn_wal := w\<rparr>, s)
             | (Inr (h, es), w, s) \<Rightarrow>
                 (case start_restore L C snapshot h es (rn\<lparr>rn_wal := w\<rparr>) of
                    (Inl e, rn) \<Rightarrow> (Inl e, rn, s)
                  | (Inr _, rn) \<Rightarrow>
                      (Inr (), start_transport (start_node L (es = [] \<and> snapshot = None) rn), s))))"

definition RN_Stop :: "'r raft_lib \<Rightarrow> unit res \<Rightarrow> 'r RaftNode \<Rightarrow> fs \<Rightarrow> unit res \<times> 'r RaftNode \<times> fs" where
  "RN_Stop L shutdown rn s =
     (if rn_stopped rn then (Inr (), rn, s)
      else let rn = rn\<lparr>rn_stopped := True,
                       rn_transport := map_option (snd \<circ> Transport_Stop shutdown) (rn_transport rn),
                       rn_raft := rl_Stop L (rn_raft rn)\<rparr> in
           case WAL_Close (rn_wal rn) s of
             (Inl e, w, s) \<Rightarrow> (Inl (Wrap ''failed to close WAL'' e), rn\<lparr>rn_wal := w\<rparr>, s)
           | (Inr _, w, s) \<Rightarrow> (Inr (), rn\<lparr>rn_wal := w\<rparr>, s))"

section \<open>Queries and proposals\<close>

definition RN_Propose :: "'r raft_lib \<Rightarrow> bytes \<Rightarrow> 'r RaftNode \<Rightarrow> unit res \<times> 'r RaftNode" where
  "RN_Propose L data rn = (case rl_Propose L data (rn_raft rn) of (x, r) \<Rightarrow> (x, rn\<lparr>rn_raft := r\<rparr>))"

definition RN_ProposeConfChange :: "'r raft_lib \<Rightarrow> ConfChange \<Rightarrow> 'r RaftNode \<Rightarrow> unit res \<times> 'r RaftNode" where
  "RN_ProposeConfChange L cc rn = (case rl_ProposeConfChange L cc (rn_raft rn) of (x, r) \<Rightarrow> (x, rn\<lparr>rn_raft := r\<rparr>))"

definition RN_IsLeader :: "'r RaftNode \<Rightarrow> bool" where
  "RN_IsLeader rn = rn_isLeader rn"

definition RN_GetLeader :: "'r raft_lib \<Rightarrow> 'r RaftNode \<Rightarrow> u64" where
  "RN_GetLeader L rn = st_Lead (rl_Status L (rn_raft rn))"

definition RN_GetAppliedIndex :: "'r RaftNode \<Rightarrow> u64" where
  "RN_GetAppliedIndex rn = rn_appliedIndex rn"

text \<open>The comparison \<open>Commit <= Match+10\<close> in 64-bit arithmetic.\<close>

definition IsNodeCaughtUp :: "'r raft_lib \<Rightarrow> u64 \<Rightarrow> 'r RaftNode \<Rightarrow> bool" where
  "IsNodeCaughtUp L nodeID rn =
     (let status = rl_Status L (rn_raft rn) in
      case map_of (st_Progress status) nodeID of
        Some match \<Rightarrow> st_Commit status \<le> match + 10
      | None \<Rightarrow> False)"

definition RN_TransferLeadership :: "'r raft_lib \<Rightarrow> u64 \<Rightarrow> 'r RaftNode \<Rightarrow> 'r RaftNode" where
  "RN_TransferLeadership L targetID rn =
     rn\<lparr>rn_raft := rl_TransferLeadership L (nodeIDToRaftID (cf_NodeID (rn_cfg rn))) targetID (rn_raft rn)\<rparr>"

definition RN_Process :: "'r raft_lib \<Rightarrow> raft_Message \<Rightarrow> 'r RaftNode \<Rightarrow> unit res \<times> 'r RaftNode" where
  "RN_Process L m rn = (case rl_Step L m (rn_raft rn) of (x, r) \<Rightarrow> (x, rn\<lparr>rn_raft := r\<rparr>))"

text \<open>The waiter of an index is sent the result, if its channel has room, and is forgotten.\<close>

definition notifyProposal :: "u64 \<Rightarrow> goerr option \<Rightarrow> 'r RaftNode \<Rightarrow> 'r RaftNode" where
  "notifyProposal index err rn =
     (case map_of (rn_proposals rn) index of
        None \<Rightarrow> rn
      | Some ch \<Rightarrow>
          rn\<lparr>rn_chans := (if map_of (rn_chans rn) ch = None then AList.update ch err (rn_chans rn) else rn_chans rn),
             rn_proposals := AList.delete index (rn_proposals rn)\<rparr>)"

section \<open>The event loop\<close>

text \<open>A committed configuration change reaches the library, the peer map and the transport.\<close>

definition apply_conf_change :: "'r raft_lib \<Rightarrow> ConfChange \<Rightarrow> 'r RaftNode \<Rightarrow> 'r RaftNode" where
  "apply_conf_change L cc rn0 =
     (let rn = rn0\<lparr>rn_raft := rl_ApplyConfChange L cc (rn_raft rn0)\<rparr> in
      if cc_Type cc = ConfChangeAddNode \<or> cc_Type cc = ConfChangeAddLearnerNode then
        (if cc_Context cc \<noteq> []
         then rn\<lparr>rn_peers := AList.update (cc_NodeID cc) (cc_Context cc) (rn_peers rn),
                 rn_transport := map_option (AddPeer (cc_NodeID cc) (cc_Context cc)) (rn_transport rn)\<rparr>
         else rn)
      else if cc_Type cc = ConfChangeRemoveNode then
        rn\<lparr>rn_peers := AList.delete (cc_NodeID cc) (rn_peers rn),
           rn_transport := map_option (RemovePeer (cc_NodeID cc)) (rn_transport rn)\<rparr>
      else rn)"

definition applyEntry :: "'r raft_lib \<Rightarrow> raft_codec \<Rightarrow> raft_Entry \<Rightarrow> 'r RaftNode \<Rightarrow> (unit res \<times> 'r RaftNode) option" where
  "applyEntry L C entry rn =
     (case en_Type entry of
        raftpb_EntryNormal \<Rightarrow>
          if en_Data entry = [] then Some (Inr (), rn)
          else (case unmarshal_entry (en_Data entry) of
                  None \<Rightarrow> Some (Inl (Wrap ''failed to unmarshal entry'' ErrJSON), rn)
                | Some e \<Rightarrow>
                    if e_Type e = EntryNormal
                    then map_option (\<lambda>kv. (Inr (), rn\<lparr>rn_store := kv\<rparr>)) (KV_Put (e_Key e) (e_Value e) (rn_store rn))
                    else Some (Inr (), rn))
      | raftpb_EntryConfChange \<Rightarrow>
          (case cd_cc_unmarshal C (en_Data entry) of
             Inl e \<Rightarrow> Some (Inl (Wrap ''failed to unmarshal conf change'' e), rn)
           | Inr cc \<Rightarrow> Some (Inr (), apply_conf_change L cc rn))
      | raftpb_EntryOther \<Rightarrow> Some (Inr (), rn))"

text \<open>The loop over the committed entries; an error is logged, and the index advances all the same.\<close>

fun apply_committed :: "'r raft_lib \<Rightarrow> raft_codec \<Rightarrow> raft_Entry list \<Rightarrow> 'r RaftNode \<Rightarrow> 'r RaftNode option" where
  "apply_committed L C [] rn = Some rn"
| "apply_committed L C (e # es) rn =
     (case applyEntry L C e rn of
        None \<Rightarrow> None
      | Some (_, rn) \<Rightarrow> apply_committed L C es (notifyProposal (en_Index e) None (rn\<lparr>rn_appliedIndex := en_Index e\<rparr>)))"

definition createSnapshot :: "raft_codec \<Rightarrow> 'r RaftNode \<Rightarrow> fs \<Rightarrow> unit res \<times> 'r RaftNode \<times> fs" where
  "createSnapshot C rn s =
     (case KV_Snapshot (rn_store rn) of
        Inl e \<Rightarrow> (Inl (Wrap ''failed to create store snapshot'' e), rn, s)
      | Inr data \<Rightarrow>
          (let snapshot = \<lparr>sn_Data = data,
                 sn_Metadata = \<lparr>md_ConfState = zero_ConfState, md_Index = rn_appliedIndex rn, md_Term = 0\<rparr>\<rparr> in
           case Snapshotter_Save C (rn_snap rn) snapshot s of
             (Inl e, s) \<Rightarrow> (Inl (Wrap ''failed to save snapshot'' e), rn, s)
           | (Inr _, s) \<Rightarrow>
               (case WAL_Compact C (rn_appliedIndex rn) (rn_wal rn) s of
                  (Inl e, w, s) \<Rightarrow> (Inl (Wrap ''failed to compact WAL'' e), rn\<lparr>rn_wal := w\<rparr>, s)
                | (Inr _, w, s) \<Rightarrow>
                    (Inr (), rn\<lparr>rn_wal := w, rn_snapshotIndex := rn_appliedIndex rn\<rparr>, s))))"

text \<open>The parts of one turn of the event loop for a \<open>Ready\<close>, in their order.\<close>

definition ready_save :: "'r raft_lib \<Rightarrow> raft_codec \<Rightarrow> Ready \<Rightarrow> 'r RaftNode \<Rightarrow> fs \<Rightarrow> 'r RaftNode \<times> fs" where
  "ready_save L C rd rn s =
     (case WAL_Save C (rd_HardState rd) (rd_Entries rd) (rn_wal rn) s of
        (_, w, s) \<Rightarrow>
          (rn\<lparr>rn_wal := w,
              rn_raft := (if rd_Entries rd = [] then rn_raft rn else snd (rl_Append L (rd_Entries rd) (rn_raft rn)))\<rparr>, s))"

definition ready_send :: "http_client \<Rightarrow> msg_codec \<Rightarrow> Ready \<Rightarrow> 'r RaftNode \<Rightarrow> (string \<times> bytes) list" where
  "ready_send H M rd rn =
     (case rn_transport rn of None \<Rightarrow> [] | Some t \<Rightarrow> SendMessages H M t (rd_Messages rd))"

definition ready_snapshot :: "'r raft_lib \<Rightarrow> raft_codec \<Rightarrow> Ready \<Rightarrow> 'r RaftNode \<Rightarrow> 'r RaftNode" where
  "ready_snapshot L C rd rn =
     (let x = rd_Snapshot rd in
      if cd_empty_snap C x then rn
      else rn\<lparr>rn_raft := snd (rl_ApplySnapshot L x (rn_raft rn)),
              rn_store := snd (KV_Restore (sn_Data x) (rn_store rn)),
              rn_snapshotIndex := md_Index (sn_Metadata x),
              rn_appliedIndex := md_Index (sn_Metadata x)\<rparr>)"

definition ready_compact :: "raft_codec \<Rightarrow> 'r RaftNode \<Rightarrow> fs \<Rightarrow> 'r RaftNode \<times> fs" where
  "ready_compact C rn s =
     (if rn_snapshotInterval rn \<le> rn_appliedIndex rn - rn_snapshotIndex rn
      then (case createSnapshot C rn s of (_, rn, s) \<Rightarrow> (rn, s))
      else (rn, s))"

definition ready_leader :: "Ready \<Rightarrow> 'r RaftNode \<Rightarrow> 'r RaftNode" where
  "ready_leader rd rn =
     (case rd_SoftState rd of None \<Rightarrow> rn | Some st \<Rightarrow> rn\<lparr>rn_isLeader := (st = StateLeader)\<rparr>)"

text \<open>One turn for a \<open>Ready\<close>: the new state and the requests posted to peers.\<close>

definition handle_ready ::
    "'r raft_lib \<Rightarrow> raft_codec \<Rightarrow> http_client \<Rightarrow> msg_codec \<Rightarrow> Ready \<Rightarrow> 'r RaftNode \<Rightarrow> fs
       \<Rightarrow> (('r RaftNode \<times> fs) \<times> (string \<times> bytes) list) option" where
  "handle_ready L C H M rd rn s =
     (let (rn, s) = ready_save L C rd rn s;
          posted = ready_send H M rd rn;
          rn = ready_snapshot L C rd rn in
      case apply_committed L C (rd_CommittedEntries rd) rn of
        None \<Rightarrow> None
      | Some rn \<Rightarrow>
          (let (rn, s) = ready_compact C rn s;
               rn = ready_leader rd rn
           in Some ((rn\<lparr>rn_raft := rl_Advance L (rn_raft rn)\<rparr>, s), posted)))"

end
