(* ===== verification/RaftNode_Spec.thy ===== *)
theory RaftNode_Spec
  imports RaftNode
begin

text \<open>
  The replicated state machine: what the committed entries do to the key-value store, who is told
  about it, and the bookkeeping of indices.
\<close>

section \<open>Specification\<close>

text \<open>The assignment that a committed entry stands for, if any.\<close>

definition entry_put :: "raft_Entry \<Rightarrow> (string \<times> string) option" where
  "entry_put e =
     (if en_Type e = raftpb_EntryNormal \<and> en_Data e \<noteq> [] then
        (case unmarshal_entry (en_Data e) of
           Some x \<Rightarrow> if e_Type x = EntryNormal then Some (e_Key x, e_Value x) else None
         | None \<Rightarrow> None)
      else None)"

definition entry_puts :: "raft_Entry list \<Rightarrow> (string \<times> string) list" where
  "entry_puts es = List.map_filter entry_put es"

text \<open>The entry that a client's assignment is proposed as.\<close>

definition put_entry :: "string \<Rightarrow> string \<Rightarrow> Entry" where
  "put_entry k v = \<lparr>e_Type = EntryNormal, e_Key = k, e_Value = v\<rparr>"

text \<open>The fields that applying entries leaves alone.\<close>

definition same_but_applied :: "'r RaftNode \<Rightarrow> 'r RaftNode \<Rightarrow> bool" where
  "same_but_applied rn rn' \<longleftrightarrow>
     rn_cfg rn' = rn_cfg rn \<and> rn_wal rn' = rn_wal rn \<and> rn_snap rn' = rn_snap rn
     \<and> rn_snapshotIndex rn' = rn_snapshotIndex rn \<and> rn_snapshotInterval rn' = rn_snapshotInterval rn
     \<and> rn_isLeader rn' = rn_isLeader rn \<and> rn_stopped rn' = rn_stopped rn"

text \<open>No two waiters share a channel, and the channel of a waiter is still empty.\<close>

definition waiters_ok :: "'r RaftNode \<Rightarrow> bool" where
  "waiters_ok rn \<longleftrightarrow>
     (\<forall>i ch. map_of (rn_proposals rn) i = Some ch \<longrightarrow>
        map_of (rn_chans rn) ch = None \<and> (\<forall>j. map_of (rn_proposals rn) j = Some ch \<longrightarrow> j = i))"

text \<open>A library that accepts everything, and a configuration, for concrete runs.\<close>

definition sample_lib :: "unit raft_lib" where
  "sample_lib =
     \<lparr>rl_init = (), rl_NewMemoryStorage = (\<lambda>_. ()), rl_ApplySnapshot = (\<lambda>_ _. (Inr (), ())),
      rl_SetHardState = (\<lambda>_ _. (Inr (), ())), rl_Append = (\<lambda>_ _. (Inr (), ())), rl_StartNode = (\<lambda>_ _ _. ()),
      rl_RestartNode = (\<lambda>_ _. ()), rl_Tick = (\<lambda>_. ()), rl_Advance = (\<lambda>_. ()), rl_Stop = (\<lambda>_. ()), rl_Propose = (\<lambda>_ _. (Inr (), ())),
      rl_ProposeConfChange = (\<lambda>_ _. (Inr (), ())), rl_ApplyConfChange = (\<lambda>_ _. ()), rl_Step = (\<lambda>_ _. (Inr (), ())),
      rl_Status = (\<lambda>_. \<lparr>st_Lead = 0, st_Commit = 0, st_Progress = []\<rparr>), rl_TransferLeadership = (\<lambda>_ _ _. ())\<rparr>"

definition sample_cfg :: Config where
  "sample_cfg =
     \<lparr>cf_NodeID = ''kv-0'', cf_RaftAddr = '':9000'', cf_APIAddr = '':8080'', cf_AdminAddr = '':9090'',
      cf_DataDir = ''/data'', cf_InitialPeers = [], cf_SafetyMode = ''safe'', cf_SnapshotInterval = ''10000'',
      cf_ElectionTimeoutMs = 300\<rparr>"

definition sample_node :: "unit RaftNode" where
  "sample_node =
     \<lparr>rn_cfg = sample_cfg, rn_raft = (), rn_store = NewKVStore, rn_wal = sample_wal, rn_snap = sample_snapshotter,
      rn_transport = None, rn_stopped = False, rn_appliedIndex = 4, rn_snapshotIndex = 0, rn_snapshotInterval = 10000,
      rn_proposals = [(5, 0), (6, 1)], rn_chans = [], rn_peers = [], rn_isLeader = True\<rparr>"

definition sample_put :: "u64 \<Rightarrow> string \<Rightarrow> string \<Rightarrow> raft_Entry" where
  "sample_put i k v =
     \<lparr>en_Term = 1, en_Index = i, en_Type = raftpb_EntryNormal, en_Data = json_text (entry_json (put_entry k v))\<rparr>"

section \<open>Lemmas: entries\<close>

lemma entry_field_names [simp]:
  "field_match ''key'' ''key''" "field_match ''value'' ''value''" "\<not> field_match ''type'' ''key''"
  "\<not> field_match ''type'' ''value''" "\<not> field_match ''key'' ''value''"
  by (simp_all add: field_match_def fold_name_def fold_rune_def byte_val_def)

lemma into_uint8_dec [simp]: "into_uint8 cur (JNum (dec (unat t))) = Some t" for t :: "8 word"
proof -
  have "unat t < 256" using unsigned_less [of t, where ?'a = nat] by simp
  moreover from this have "unat (of_nat (unat t) :: u64) = unat t"
    using unat_of_nat [of "unat t", where ?'a = 64] by (simp del: of_nat_unat)
  ultimately show ?thesis by (simp add: ParseUint_dec)
qed

lemma into_entry_json: "into_entry (entry_json e) = Some e"
  by (cases e) (simp add: into_entry_def entry_json_def entry_field_def zero_EntryKV_def del: into_uint8.simps)

lemma ascii_entry_names [simp]: "valid_utf8 ''key''" "valid_utf8 ''value''"
  by (simp_all add: byte_val_def)

lemma unmarshal_marshal_entry:
  assumes "valid_utf8 (e_Key e)" and "valid_utf8 (e_Value e)"
  shows "unmarshal_entry (json_text (entry_json e)) = Some e"
proof -
  have "json_ok (entry_json e)" "json_depth (entry_json e) \<le> maxNestingDepth"
    using assms by (simp_all add: entry_json_def int_lit_dec maxNestingDepth_def)
  then show ?thesis by (simp add: unmarshal_entry_def json_unmarshal_text into_entry_json)
qed

lemma entry_put_encoded:
  assumes "valid_utf8 k" and "valid_utf8 v"
  shows "entry_put \<lparr>en_Term = t, en_Index = i, en_Type = raftpb_EntryNormal,
                    en_Data = json_text (entry_json (put_entry k v))\<rparr> = Some (k, v)"
  using assms unmarshal_marshal_entry [of "put_entry k v"]
  by (simp add: entry_put_def put_entry_def EntryNormal_def) (simp add: entry_json_def)

section \<open>Lemmas: applying entries\<close>

lemma same_but_applied_refl [simp]: "same_but_applied rn rn"
  by (simp add: same_but_applied_def)

lemma same_but_applied_trans: "same_but_applied a b \<Longrightarrow> same_but_applied b c \<Longrightarrow> same_but_applied a c"
  by (simp add: same_but_applied_def)

lemma apply_conf_change_frame:
  "same_but_applied rn (apply_conf_change L cc rn)" "rn_store (apply_conf_change L cc rn) = rn_store rn"
  "rn_appliedIndex (apply_conf_change L cc rn) = rn_appliedIndex rn"
  "rn_proposals (apply_conf_change L cc rn) = rn_proposals rn" "rn_chans (apply_conf_change L cc rn) = rn_chans rn"
  by (simp_all add: apply_conf_change_def Let_def same_but_applied_def)

lemma notifyProposal_frame:
  "same_but_applied rn (notifyProposal i x rn)" "rn_store (notifyProposal i x rn) = rn_store rn"
  "rn_appliedIndex (notifyProposal i x rn) = rn_appliedIndex rn"
  by (simp_all add: notifyProposal_def same_but_applied_def split: option.split)

lemma applyEntry_effect:
  assumes "kv_ok (rn_store rn)"
  obtains r rn' where "applyEntry L C e rn = Some (r, rn')" and "same_but_applied rn rn'"
    and "rn_proposals rn' = rn_proposals rn" and "rn_chans rn' = rn_chans rn"
    and "rn_appliedIndex rn' = rn_appliedIndex rn"
    and "(case entry_put e of None \<Rightarrow> Some (rn_store rn) | Some p \<Rightarrow> KV_Put (fst p) (snd p) (rn_store rn))
           = Some (rn_store rn')"
proof -
  have "\<exists>r rn'. applyEntry L C e rn = Some (r, rn') \<and> same_but_applied rn rn'
    \<and> rn_proposals rn' = rn_proposals rn \<and> rn_chans rn' = rn_chans rn \<and> rn_appliedIndex rn' = rn_appliedIndex rn
    \<and> (case entry_put e of None \<Rightarrow> Some (rn_store rn) | Some p \<Rightarrow> KV_Put (fst p) (snd p) (rn_store rn))
        = Some (rn_store rn')"
  proof (cases "en_Type e")
    case raftpb_EntryNormal
    show ?thesis
    proof (cases "unmarshal_entry (en_Data e)")
      case None
      with raftpb_EntryNormal show ?thesis by (auto simp: applyEntry_def entry_put_def)
    next
      case (Some x)
      obtain kv where "KV_Put (e_Key x) (e_Value x) (rn_store rn) = Some kv"
        using kv.put_total [OF assms] by blast
      with Some raftpb_EntryNormal show ?thesis
        by (auto simp: applyEntry_def entry_put_def same_but_applied_def)
    qed
  qed (auto simp: applyEntry_def entry_put_def apply_conf_change_frame split: sum.splits)
  then show ?thesis using that by blast
qed

lemma entry_puts_simps [simp]:
  "entry_puts [] = []"
  "entry_puts (e # es) = (case entry_put e of None \<Rightarrow> entry_puts es | Some p \<Rightarrow> p # entry_puts es)"
  by (simp_all add: entry_puts_def List.map_filter_simps split: option.splits)

text \<open>Applying committed entries never panics on a usable store, and makes their assignments in order.\<close>

lemma apply_committed_run:
  assumes "kv_ok (rn_store rn)"
  shows "\<exists>rn'. apply_committed L C es rn = Some rn' \<and> same_but_applied rn rn' \<and> kv_ok (rn_store rn')
     \<and> fold_opt (\<lambda>p. KV_Put (fst p) (snd p)) (entry_puts es) (rn_store rn) = Some (rn_store rn')
     \<and> rn_appliedIndex rn' = (if es = [] then rn_appliedIndex rn else en_Index (last es))"
  using assms
proof (induction es arbitrary: rn)
  case (Cons e es)
  obtain r rn1 where a: "applyEntry L C e rn = Some (r, rn1)" "same_but_applied rn rn1"
    "(case entry_put e of None \<Rightarrow> Some (rn_store rn) | Some p \<Rightarrow> KV_Put (fst p) (snd p) (rn_store rn)) = Some (rn_store rn1)"
    by (rule applyEntry_effect [OF Cons.prems, of L C e])
  let ?rn2 = "notifyProposal (en_Index e) None (rn1\<lparr>rn_appliedIndex := en_Index e\<rparr>)"
  have ok1: "kv_ok (rn_store rn1)"
    using a(3) Cons.prems kv.put_ok by (auto split: option.splits)
  have s2: "rn_store ?rn2 = rn_store rn1" "rn_appliedIndex ?rn2 = en_Index e"
    by (simp_all add: notifyProposal_frame)
  have f2: "same_but_applied rn ?rn2"
    using a(2) notifyProposal_frame(1) [of "rn1\<lparr>rn_appliedIndex := en_Index e\<rparr>" "en_Index e" None]
    by (simp add: same_but_applied_def)
  from Cons.IH [of ?rn2] ok1 s2(1) obtain rn' where rn': "apply_committed L C es ?rn2 = Some rn'"
    "same_but_applied ?rn2 rn'" "kv_ok (rn_store rn')"
    "fold_opt (\<lambda>p. KV_Put (fst p) (snd p)) (entry_puts es) (rn_store ?rn2) = Some (rn_store rn')"
    "rn_appliedIndex rn' = (if es = [] then rn_appliedIndex ?rn2 else en_Index (last es))" by auto
  show ?case
    using a(1,3) rn' s2 same_but_applied_trans [OF f2 rn'(2)] by (auto split: option.splits)
qed simp

text \<open>A decoded entry holds valid UTF-8, so applying entries keeps the store valid.\<close>

lemma unmarshal_entry_utf8:
  assumes "unmarshal_entry b = Some e"
  shows "valid_utf8 (e_Key e) \<and> valid_utf8 (e_Value e)"
proof -
  have step: "valid_utf8 (e_Key y) \<and> valid_utf8 (e_Value y)"
    if "fold_opt entry_field kvs x = Some y" "valid_utf8 (e_Key x)" "valid_utf8 (e_Value x)"
      "list_all (\<lambda>kv. valid_utf8 (fst kv) \<and> json_utf8 (snd kv)) kvs" for kvs x y
    using that
  proof (induction kvs arbitrary: x)
    case (Cons kv kvs)
    then obtain z where z: "entry_field kv x = Some z" "fold_opt entry_field kvs z = Some y"
      by (auto split: option.splits)
    have "valid_utf8 t" if "into_string cur (snd kv) = Some t" "valid_utf8 cur" for cur t
      using that Cons.prems(4) by (cases "snd kv") auto
    with z(1) Cons.prems have "valid_utf8 (e_Key z) \<and> valid_utf8 (e_Value z)"
      by (auto simp: entry_field_def split: if_splits)
    with Cons.IH [OF z(2)] Cons.prems show ?case by simp
  qed simp
  from assms obtain j where j: "json_unmarshal b = Some j" "into_entry j = Some e"
    by (auto simp: unmarshal_entry_def bind_eq_Some_conv)
  from json_unmarshal_utf8 [OF j(1)] j(2) step [of _ zero_EntryKV e] show ?thesis
    by (auto simp: into_entry_def zero_EntryKV_def split: json.splits)
qed

lemma entry_put_utf8: "entry_put e = Some (k, v) \<Longrightarrow> valid_utf8 k \<and> valid_utf8 v"
  using unmarshal_entry_utf8 by (auto simp: entry_put_def split: if_splits option.splits)

lemma puts_utf8:
  "fold_opt (\<lambda>p. KV_Put (fst p) (snd p)) (entry_puts es) kv = Some kv' \<Longrightarrow> kv_utf8 kv \<Longrightarrow> kv_utf8 kv'"
proof (induction es arbitrary: kv)
  case (Cons e es)
  show ?case
  proof (cases "entry_put e")
    case None
    with Cons show ?thesis by simp
  next
    case (Some p)
    then obtain kv1 where kv1: "KV_Put (fst p) (snd p) kv = Some kv1"
      "fold_opt (\<lambda>p. KV_Put (fst p) (snd p)) (entry_puts es) kv1 = Some kv'"
      using Cons.prems(1) by (auto split: option.splits)
    have "kv_utf8 kv1"
      using KV_Put_utf8 [OF kv1(1) Cons.prems(2)] entry_put_utf8 [of e "fst p" "snd p"] Some by simp
    then show ?thesis by (rule Cons.IH [OF kv1(2)])
  qed
qed simp

section \<open>Lemmas: waiters\<close>

lemma notify_proposals: "map_of (rn_proposals (notifyProposal i x rn)) = (map_of (rn_proposals rn))(i := None)"
  by (auto simp: notifyProposal_def delete_conv' split: option.split)

lemma notify_chans:
  "map_of (rn_chans (notifyProposal i x rn)) ch =
     (if map_of (rn_proposals rn) i = Some ch \<and> map_of (rn_chans rn) ch = None then Some x else map_of (rn_chans rn) ch)"
  by (auto simp: notifyProposal_def update_conv' split: option.split)

text \<open>One turn of the loop over the committed entries, as far as the waiters are concerned.\<close>

lemma apply_committed_Cons:
  assumes "kv_ok (rn_store rn)"
  obtains rn2 where "apply_committed L C (e # es) rn = apply_committed L C es rn2" and "kv_ok (rn_store rn2)"
    and "map_of (rn_proposals rn2) = (map_of (rn_proposals rn))(en_Index e := None)"
    and "\<And>ch. map_of (rn_chans rn2) ch = (if map_of (rn_proposals rn) (en_Index e) = Some ch
           \<and> map_of (rn_chans rn) ch = None then Some None else map_of (rn_chans rn) ch)"
proof -
  obtain r rn1 where a: "applyEntry L C e rn = Some (r, rn1)" "rn_proposals rn1 = rn_proposals rn" "rn_chans rn1 = rn_chans rn"
    "(case entry_put e of None \<Rightarrow> Some (rn_store rn) | Some p \<Rightarrow> KV_Put (fst p) (snd p) (rn_store rn)) = Some (rn_store rn1)"
    by (rule applyEntry_effect [OF assms, of L C e])
  let ?rn2 = "notifyProposal (en_Index e) None (rn1\<lparr>rn_appliedIndex := en_Index e\<rparr>)"
  have "kv_ok (rn_store ?rn2)"
    using a(4) assms kv.put_ok by (auto simp: notifyProposal_frame split: option.splits)
  with a show ?thesis by (intro that [of ?rn2]) (simp_all add: notify_proposals notify_chans)
qed

lemma proposals_shrink:
  "kv_ok (rn_store rn) \<Longrightarrow> apply_committed L C es rn = Some rn' \<Longrightarrow> map_of (rn_proposals rn) i = None \<Longrightarrow>
   map_of (rn_proposals rn') i = None"
proof (induction es arbitrary: rn)
  case (Cons e es)
  obtain rn2 where rn2: "apply_committed L C (e # es) rn = apply_committed L C es rn2" "kv_ok (rn_store rn2)"
    "map_of (rn_proposals rn2) = (map_of (rn_proposals rn))(en_Index e := None)"
    by (rule apply_committed_Cons [OF Cons.prems(1), of L C e es]) blast
  with Cons show ?case by simp
qed simp

lemma unregistered_channel:
  "kv_ok (rn_store rn) \<Longrightarrow> apply_committed L C es rn = Some rn' \<Longrightarrow> \<forall>i. map_of (rn_proposals rn) i \<noteq> Some ch \<Longrightarrow>
   map_of (rn_chans rn') ch = map_of (rn_chans rn) ch"
proof (induction es arbitrary: rn)
  case (Cons e es)
  obtain rn2 where rn2: "apply_committed L C (e # es) rn = apply_committed L C es rn2" "kv_ok (rn_store rn2)"
    "map_of (rn_proposals rn2) = (map_of (rn_proposals rn))(en_Index e := None)"
    "\<And>ch. map_of (rn_chans rn2) ch = (if map_of (rn_proposals rn) (en_Index e) = Some ch
           \<and> map_of (rn_chans rn) ch = None then Some None else map_of (rn_chans rn) ch)"
    by (rule apply_committed_Cons [OF Cons.prems(1), of L C e es]) blast
  have "map_of (rn_chans rn') ch = map_of (rn_chans rn2) ch"
    using Cons.IH [OF rn2(2)] Cons.prems(2,3) rn2(1,3) by simp
  with rn2(4) Cons.prems(3) show ?case by simp
qed simp

lemma waiters_run:
  "kv_ok (rn_store rn) \<Longrightarrow> apply_committed L C es rn = Some rn' \<Longrightarrow> waiters_ok rn \<Longrightarrow> map_of (rn_proposals rn) i = Some ch \<Longrightarrow>
   if i \<in> en_Index ` set es then map_of (rn_chans rn') ch = Some None \<and> map_of (rn_proposals rn') i = None
   else map_of (rn_chans rn') ch = None \<and> map_of (rn_proposals rn') i = Some ch"
proof (induction es arbitrary: rn)
  case Nil
  then show ?case by (auto simp: waiters_ok_def)
next
  case (Cons e es)
  obtain rn2 where rn2: "apply_committed L C (e # es) rn = apply_committed L C es rn2" "kv_ok (rn_store rn2)"
    "map_of (rn_proposals rn2) = (map_of (rn_proposals rn))(en_Index e := None)"
    "\<And>ch. map_of (rn_chans rn2) ch = (if map_of (rn_proposals rn) (en_Index e) = Some ch
           \<and> map_of (rn_chans rn) ch = None then Some None else map_of (rn_chans rn) ch)"
    by (rule apply_committed_Cons [OF Cons.prems(1), of L C e es]) blast
  have ap: "apply_committed L C es rn2 = Some rn'" using Cons.prems(2) rn2(1) by simp
  have uniq: "j = i" if "map_of (rn_proposals rn) j = Some ch" for j
    using Cons.prems(3,4) that unfolding waiters_ok_def by blast
  have free: "map_of (rn_chans rn) ch = None" using Cons.prems(3,4) unfolding waiters_ok_def by blast
  show ?case
  proof (cases "en_Index e = i")
    case True
    have "\<forall>j. map_of (rn_proposals rn2) j \<noteq> Some ch" using rn2(3) uniq True by auto
    then have "map_of (rn_chans rn') ch = Some None"
      using unregistered_channel [OF rn2(2) ap] rn2(4) True Cons.prems(4) free by simp
    moreover have "map_of (rn_proposals rn') i = None"
      using proposals_shrink [OF rn2(2) ap, of i] rn2(3) True by simp
    ultimately show ?thesis using True by simp
  next
    case False
    have "waiters_ok rn2"
      using Cons.prems(3) rn2(3,4) unfolding waiters_ok_def by (auto split: if_splits)
    then show ?thesis using Cons.IH [OF rn2(2) ap] rn2(3) Cons.prems(4) False by (auto split: if_splits)
  qed
qed

section \<open>Lemmas: node identifiers\<close>

lemma raft_id_snoc:
  assumes "ascii_str s" and "byte_val c < 0x80"
  shows "nodeIDToRaftID (s @ [c]) = nodeIDToRaftID s * 31 + of_nat (byte_val c)"
  using assms runes_ascii [of s] runes_ascii [of "s @ [c]"] by (simp add: nodeIDToRaftID_def)

text \<open>The first ten names of a numbered family have different Raft identifiers.\<close>

lemma raft_id_numbered:
  assumes "ascii_str cluster"
  shows "inj_on (\<lambda>i. nodeIDToRaftID (cluster @ CHR ''-'' # dec i)) {..<10}"
proof (rule inj_onI)
  fix i j :: nat
  assume ij: "i \<in> {..<10}" "j \<in> {..<10}"
    and eq: "nodeIDToRaftID (cluster @ CHR ''-'' # dec i) = nodeIDToRaftID (cluster @ CHR ''-'' # dec j)"
  have "dec k = [digit_char k]" if "k < 10" for k using that by (subst dec.simps) simp
  moreover have "ascii_str (cluster @ ''-'')" using assms by (simp add: byte_val_def)
  ultimately have "nodeIDToRaftID (cluster @ CHR ''-'' # dec k) = nodeIDToRaftID (cluster @ ''-'') * 31 + of_nat (48 + k)"
    if "k < 10" for k
    using raft_id_snoc [of "cluster @ ''-''" "digit_char k"] that by simp
  with ij eq have "(of_nat (48 + i) :: u64) = of_nat (48 + j)" by (metis add_left_cancel lessThan_iff)
  then have "unat (of_nat (48 + i) :: u64) = unat (of_nat (48 + j) :: u64)" by simp
  with ij show "i = j" by (simp only: unat_of_nat) simp
qed

text \<open>When the comparison is what it means: as long as adding ten does not wrap around.\<close>

lemma IsNodeCaughtUp_iff:
  assumes "\<forall>m. map_of (st_Progress (rl_Status L (rn_raft rn))) i = Some m \<longrightarrow> unat m + 10 < 2 ^ 64"
  shows "IsNodeCaughtUp L i rn \<longleftrightarrow>
     (\<exists>m. map_of (st_Progress (rl_Status L (rn_raft rn))) i = Some m
        \<and> unat (st_Commit (rl_Status L (rn_raft rn))) \<le> unat m + 10)"
proof (cases "map_of (st_Progress (rl_Status L (rn_raft rn))) i")
  case None
  then show ?thesis by (simp add: IsNodeCaughtUp_def)
next
  case (Some m)
  with assms have "unat (m + 10) = unat m + 10" using u64_add_no_wrap [of m 10] by simp
  with Some show ?thesis by (simp add: IsNodeCaughtUp_def word_le_nat_alt)
qed

section \<open>Properties\<close>

text \<open>C6: applying committed entries to a usable store never panics, makes exactly the assignments that the
  entries carry, in their order (entries that do not decode, configuration changes and empty entries change
  nothing), and leaves the applied index at the last entry. Two nodes that apply the same entries to stores with
  the same contents therefore have the same contents again.\<close>

theorem state_machine_refines:
  assumes "kv_ok (rn_store rn)"
  shows "\<exists>rn'. apply_committed L C es rn = Some rn' \<and> kv_ok (rn_store rn')
     \<and> kv_lookup (rn_store rn') = kv_lookup (rn_store rn) ++ map_of (rev (entry_puts es))
     \<and> rn_appliedIndex rn' = (if es = [] then rn_appliedIndex rn else en_Index (last es))
     \<and> rn_wal rn' = rn_wal rn \<and> rn_snapshotIndex rn' = rn_snapshotIndex rn"
proof -
  obtain rn' where rn': "apply_committed L C es rn = Some rn'" "same_but_applied rn rn'" "kv_ok (rn_store rn')"
    "fold_opt (\<lambda>p. KV_Put (fst p) (snd p)) (entry_puts es) (rn_store rn) = Some (rn_store rn')"
    "rn_appliedIndex rn' = (if es = [] then rn_appliedIndex rn else en_Index (last es))"
    using apply_committed_run [OF assms] by blast
  moreover have "kv_lookup (rn_store rn') = kv_lookup (rn_store rn) ++ map_of (rev (entry_puts es))"
    using kv.puts_lookup [OF assms, of "entry_puts es"] rn'(4) by auto
  ultimately show ?thesis by (auto simp: same_but_applied_def)
qed

theorem state_machine_refines_witness:
  "\<exists>rn'. kv_ok (rn_store sample_node)
     \<and> apply_committed sample_lib sample_codec [sample_put 5 ''a'' ''1'', sample_entry 6, sample_put 7 ''a'' ''2''] sample_node
         = Some rn'
     \<and> KV_Get ''a'' (rn_store rn') = (''2'', True) \<and> rn_appliedIndex rn' = 7"
proof -
  have ok: "kv_ok (rn_store sample_node)" by (simp add: sample_node_def kv_ok_def NewKVStore_def)
  have "entry_put (sample_put i ''a'' ''1'') = Some (''a'', ''1'')" "entry_put (sample_put i ''a'' ''2'') = Some (''a'', ''2'')"
    "entry_put (sample_entry 6) = None" for i
    by (simp_all add: sample_put_def entry_put_encoded byte_val_def) (simp add: entry_put_def sample_entry_def)
  then have puts: "entry_puts [sample_put 5 ''a'' ''1'', sample_entry 6, sample_put 7 ''a'' ''2'']
      = [(''a'', ''1''), (''a'', ''2'')]" by simp
  from state_machine_refines [OF ok, of sample_lib sample_codec
      "[sample_put 5 ''a'' ''1'', sample_entry 6, sample_put 7 ''a'' ''2'']"] ok
  show ?thesis unfolding puts by (auto simp: KV_Get_def sample_put_def)
qed

end
