(* ===== verification/Storage_Frame.thy ===== *)
theory Storage_Frame
  imports WAL_Log Snapshotter_Spec
begin

text \<open>
  The log and the snapshots live in different directories of one file system. Each operation of one
  leaves the other's directory alone, so both invariants survive every operation of either.
\<close>

text \<open>Nothing has changed outside a directory; directories are never removed.\<close>

definition outside :: "string \<Rightarrow> fs \<Rightarrow> fs \<Rightarrow> bool" where
  "outside d s s' \<longleftrightarrow>
     (\<forall>p. fst p \<noteq> d \<longrightarrow> map_of (fs_nodes s') p = map_of (fs_nodes s) p \<and> file_at s' p = file_at s p)
     \<and> set (fs_dirs s) \<subseteq> set (fs_dirs s')"

lemma outside_refl [simp]: "outside d s s"
  by (simp add: outside_def)

lemma outside_trans: "outside d s t \<Longrightarrow> outside d t u \<Longrightarrow> outside d s u"
  unfolding outside_def by (metis subset_trans)

lemma outside_same:
  assumes "fs_nodes s' = fs_nodes s" and "fs_data s' = fs_data s" and "set (fs_dirs s) \<subseteq> set (fs_dirs s')"
  shows "outside d s s'"
proof -
  have "file_at s' p = file_at s p" for p by (rule file_at_cong) (simp_all add: assms)
  with assms show ?thesis by (simp add: outside_def)
qed

section \<open>The log\<close>

lemma appended_outside:
  assumes "appended f b s s'" and "fs_ok s" and "map_of (fs_nodes s) (d, n) = Some (FileNode (fd_inode f))"
  shows "outside d s s'"
proof -
  note a = assms(1) [unfolded appended_def]
  have "file_at s' p = file_at s p" if "fst p \<noteq> d" for p
  proof -
    have "i \<noteq> fd_inode f" if "map_of (fs_nodes s) p = Some (FileNode i)" for i
      using nodes_okD(3) [of "fs_nodes s" "fs_fresh s" "(d, n)" "fd_inode f" p] assms(2,3) that \<open>fst p \<noteq> d\<close>
      by (auto simp: fs_ok_def)
    with a show ?thesis by (auto simp: file_at_def split: option.splits node.splits)
  qed
  with a show ?thesis by (simp add: outside_def)
qed

lemma WAL_Save_outside:
  assumes wo: "wal_open w s" and sv: "WAL_Save C h es w s = (r, w', s')"
  shows "outside (wal_dir w) s s'"
proof -
  have "fd_open (wal_f w)" using wo by (simp add: wal_open_def)
  from WAL_Save_effect(1) [OF this sv] obtain c where "appended (wal_f w) c s s'" by (auto simp: writes_def)
  then show ?thesis
    using wo by (intro appended_outside [where n = "''wal.log''"]) (auto simp: wal_open_def wal_path_def Join_def)
qed

lemma compact_fill_outside:
  assumes wo: "wal_open w s"
    and c: "compact_fill C (filter (\<lambda>e. index < en_Index e) (wal_entries w)) w s = (r, s')"
  shows "outside (wal_dir w) s s'"
proof -
  let ?es = "filter (\<lambda>e. index < en_Index e) (wal_entries w)"
  have ok: "fs_ok s" using wo by (simp add: wal_open_def)
  obtain rc sc where cr: "Create (tmp_path (wal_dir w)) s = (rc, sc)" by (cases "Create (tmp_path (wal_dir w)) s")
  note e = Create_effect [OF ok cr]
  have out1: "outside (wal_dir w) s sc"
  proof -
    have "map_of (fs_nodes sc) q = map_of (fs_nodes s) q \<and> file_at sc q = file_at s q" if "fst q \<noteq> wal_dir w" for q
      using e(4) [of q] that by fastforce
    then show ?thesis using e(2) by (simp add: outside_def)
  qed
  show ?thesis
  proof (cases rc)
    case (Inl x)
    with c cr out1 show ?thesis by (auto simp: compact_fill_def)
  next
    case (Inr f)
    obtain s1 where tmp: "compact_tmp C f (wal_hardState w) ?es sc = (r, s1)"
      and cl: "\<exists>r2 f2. FClose f s1 = (r2, f2, s')"
      using c cr Inr by (auto simp: compact_fill_def split: prod.splits)
    have f: "fd_open f" "map_of (fs_nodes sc) (tmp_path (wal_dir w)) = Some (FileNode (fd_inode f))"
      using e(5) [OF Inr] by auto
    from compact_tmp_writes [OF f(1), of C index w sc] tmp obtain c where "appended f c sc s1"
      by (auto simp: writes_def)
    then have "outside (wal_dir w) sc s1"
      using e(1) f(2) by (intro appended_outside [where n = "snd (tmp_path (wal_dir w))"]) (auto simp: tmp_path_def wal_path_def Join_def)
    moreover have "outside (wal_dir w) s1 s'" using cl by (auto dest!: FClose_effect intro: outside_same)
    ultimately show ?thesis using out1 outside_trans by blast
  qed
qed

lemma compact_swap_outside:
  assumes wo: "wal_open w s" and tmp: "map_of (fs_nodes s) (tmp_path (wal_dir w)) = Some (FileNode i)"
    and c: "compact_swap es w s = (r, w', s')"
  shows "outside (wal_dir w) s s'"
proof -
  obtain r1 s1 where rn: "Rename (tmp_path (wal_dir w)) (wal_path (wal_dir w)) s = (r1, s1)"
    by (cases "Rename (tmp_path (wal_dir w)) (wal_path (wal_dir w)) s")
  have nd: "map_of (fs_nodes s) (wal_path (wal_dir w)) \<noteq> Some DirNode" using wo by (simp add: wal_open_def)
  note e = Rename_effect [OF tmp nd rn]
  have "map_of (fs_nodes s1) p = map_of (fs_nodes s) p" if "fst p \<noteq> wal_dir w" for p
  proof -
    have "p \<noteq> tmp_path (wal_dir w)" "p \<noteq> wal_path (wal_dir w)"
      using that by (auto simp: tmp_path_def wal_path_def Join_def)
    with e(6,7) show ?thesis by (cases "r1 = Inr ()") (simp_all add: update_conv' delete_conv')
  qed
  then have out1: "outside (wal_dir w) s s1"
    using e(1,2) by (auto simp: outside_def intro!: file_at_cong simp del: split_paired_All)
  show ?thesis
  proof (cases r1)
    case (Inl x)
    with c rn out1 show ?thesis by (auto simp: compact_swap_def)
  next
    case (Inr u)
    obtain r2 f2 s2 where cl: "FClose (wal_f w) s1 = (r2, f2, s2)" by (cases "FClose (wal_f w) s1")
    obtain r3 s3 where op: "OpenAppend False (wal_path (wal_dir w)) s2 = (r3, s3)"
      by (cases "OpenAppend False (wal_path (wal_dir w)) s2")
    have "map_of (fs_nodes s2) (wal_path (wal_dir w)) = Some (FileNode i)"
      using e(7) Inr FClose_effect [OF cl] by (simp add: update_conv')
    note o = OpenAppend_existing [OF this op]
    have "s' = s3" using c rn Inr cl op by (auto simp: compact_swap_def split: sum.splits)
    moreover have "outside (wal_dir w) s1 s3"
      using FClose_effect [OF cl] o by (intro outside_same) simp_all
    ultimately show ?thesis using out1 outside_trans by blast
  qed
qed

lemma WAL_Compact_outside:
  assumes wo: "wal_open w s" and c: "WAL_Compact C index w s = (r, w', s')"
  shows "outside (wal_dir w) s s'"
proof -
  let ?es = "filter (\<lambda>e. index < en_Index e) (wal_entries w)"
  obtain r1 s1 where fill: "compact_fill C ?es w s = (r1, s1)" by (cases "compact_fill C ?es w s")
  note f = compact_fill_effect [OF wo fill]
  note o = compact_fill_outside [OF wo fill]
  show ?thesis
  proof (cases r1)
    case (Inl e)
    with c fill o show ?thesis by (auto simp: WAL_Compact_def)
  next
    case (Inr u)
    then obtain i where "map_of (fs_nodes s1) (tmp_path (wal_dir w)) = Some (FileNode i)" using f(3) by auto
    moreover have "compact_swap ?es w s1 = (r, w', s')" using c fill Inr by (simp add: WAL_Compact_def)
    ultimately have "outside (wal_dir w) s1 s'" by (rule compact_swap_outside [OF f(1)])
    with o show ?thesis by (rule outside_trans)
  qed
qed

section \<open>The snapshots\<close>

lemma cleanup_outside:
  assumes "Snapshotter_cleanup sp keep s = (r, s')"
  shows "outside (sp_dir sp) s s'"
  using assms
proof (cases rule: cleanup_cases)
  case 1
  then show ?thesis by (intro outside_same) simp_all
next
  case 2
  note e = remove_snapshots_effect [OF 2]
  have "map_of (fs_nodes s') p = map_of (fs_nodes s) p \<and> file_at s' p = file_at s p" if "fst p \<noteq> sp_dir sp" for p
  proof -
    have "map_of (fs_nodes s') p = map_of (fs_nodes s) p" using e(7) [of p] that by (cases p) (auto simp: image_iff)
    moreover from this e(2) have "file_at s' p = file_at s p" by (intro file_at_cong) simp_all
    ultimately show ?thesis by blast
  qed
  with e(1) show ?thesis by (simp add: outside_def)
qed

lemma Save_outside:
  assumes ok: "snap_dir_ok sp s" and sv: "Snapshotter_Save C sp x s = (r, s')"
  shows "outside (sp_dir sp) s s'"
proof -
  let ?p = "Join (sp_dir sp) (snapshot_name (md_Index (sn_Metadata x)))"
  obtain r1 s1 where m: "MkdirAll (sp_dir sp) s = (r1, s1)" by (cases "MkdirAll (sp_dir sp) s")
  note e1 = MkdirAll_effect [OF m]
  have o1: "outside (sp_dir sp) s s1" using e1 by (intro outside_same) simp_all
  have ok1: "fs_ok s1" using ok e1(1,3) by (simp add: snap_dir_ok_def fs_ok_def)
  obtain r2 s2 where w: "WriteFile ?p (json_text (cd_sn C x)) s1 = (r2, s2)"
    by (cases "WriteFile ?p (json_text (cd_sn C x)) s1")
  note e2 = WriteFile_effect [OF ok1 w]
  have "map_of (fs_nodes s2) q = map_of (fs_nodes s1) q \<and> file_at s2 q = file_at s1 q" if "fst q \<noteq> sp_dir sp" for q
    using e2(4) [of q] that by (cases q) (auto simp: Join_def)
  then have o2: "outside (sp_dir sp) s1 s2" using e2(2) by (simp add: outside_def)
  obtain r3 s3 where c: "Snapshotter_cleanup sp 3 s2 = (r3, s3)" by (cases "Snapshotter_cleanup sp 3 s2")
  from sv m w c have "s' = s1 \<or> s' = s2 \<or> s' = s3"
    by (auto simp: Snapshotter_Save_def split: sum.splits)
  with o1 o2 cleanup_outside [OF c] show ?thesis using outside_trans by blast
qed

section \<open>Both invariants survive\<close>

lemma wal_inv_outside:
  assumes "wal_inv C w s" and "outside d s s'" and "fs_ok s'" and "wal_dir w \<noteq> d"
  shows "wal_inv C w s'"
proof -
  have "map_of (fs_nodes s') (wal_path (wal_dir w)) = map_of (fs_nodes s) (wal_path (wal_dir w))"
    "map_of (fs_nodes s') (tmp_path (wal_dir w)) = map_of (fs_nodes s) (tmp_path (wal_dir w))"
    "file_at s' (wal_path (wal_dir w)) = file_at s (wal_path (wal_dir w))"
    using assms(2,4) by (simp_all add: outside_def wal_path_def tmp_path_def Join_def)
  with assms show ?thesis unfolding wal_inv_def wal_open_def outside_def by auto
qed

lemma snap_inv_outside:
  assumes "snap_inv C sp s" and "outside d s s'" and "fs_ok s'" and "sp_dir sp \<noteq> d"
  shows "snap_inv C sp s'" and "snap_file sp s' = snap_file sp s"
proof -
  have n: "map_of (fs_nodes s') (sp_dir sp, name) = map_of (fs_nodes s) (sp_dir sp, name)" for name
    using assms(2,4) by (simp add: outside_def)
  show f: "snap_file sp s' = snap_file sp s"
    using assms(2,4) by (auto simp: outside_def snap_file_def Join_def)
  have "snap_dir_ok sp s'"
    using assms(1,3) assms(2) unfolding snap_inv_def snap_dir_ok_def n outside_def by blast
  with assms(1) show "snap_inv C sp s'" unfolding snap_inv_def f by simp
qed

end
