(* ===== verification/RaftNode_Durable.thy ===== *)
theory RaftNode_Durable
  imports RaftNode_Spec Storage_Frame
begin

text \<open>
  The node and its disk: an invariant that ties the node's memory to what the disk holds, that every
  turn of the event loop and every restart keeps it, and what a restart therefore recovers. These
  statements are about a file system whose calls succeed; crashes happen between turns.
\<close>

section \<open>Invariant\<close>

text \<open>A snapshot whose data the store can restore to a map that is not nil.\<close>

definition restorable :: "raft_Snapshot \<Rightarrow> bool" where
  "restorable x \<longleftrightarrow> (case unmarshal_string_map (sn_Data x) of Inr (Some _) \<Rightarrow> True | _ \<Rightarrow> False)"

definition node_dirs :: "Config \<Rightarrow> 'r RaftNode \<Rightarrow> bool" where
  "node_dirs cfg rn \<longleftrightarrow>
     rn_cfg rn = cfg \<and> wal_dir (rn_wal rn) = dir_join (cf_DataDir cfg) ''wal''
     \<and> rn_snap rn = NewSnapshotter (dir_join (cf_DataDir cfg) ''snapshots'')"

definition node_inv :: "raft_codec \<Rightarrow> Config \<Rightarrow> 'r RaftNode \<Rightarrow> fs \<Rightarrow> bool" where
  "node_inv C cfg rn s \<longleftrightarrow>
     node_dirs cfg rn \<and> reliable s
     \<and> wal_inv C (rn_wal rn) s \<and> snap_inv C (rn_snap rn) s
     \<and> (\<forall>x \<in> ran (saved_snapshots C (rn_snap rn) s). restorable x)
     \<and> kv_ok (rn_store rn) \<and> kv_utf8 (rn_store rn)"

text \<open>A \<open>Ready\<close> carries no snapshot, or one that the store can restore.\<close>

definition ready_ok :: "raft_codec \<Rightarrow> Ready \<Rightarrow> bool" where
  "ready_ok C rd \<longleftrightarrow> cd_empty_snap C (rd_Snapshot rd) \<or> restorable (rd_Snapshot rd)"

text \<open>The contents that the newest snapshot on disk restores, empty when there is none, and its index.\<close>

definition disk_contents :: "raft_codec \<Rightarrow> Snapshotter \<Rightarrow> fs \<Rightarrow> string \<Rightarrow> string option" where
  "disk_contents C sp s =
     (case snap_load C sp s of
        None \<Rightarrow> Map.empty
      | Some x \<Rightarrow> kv_lookup (snd (KV_Restore (sn_Data x) NewKVStore)))"

definition disk_index :: "raft_codec \<Rightarrow> Snapshotter \<Rightarrow> fs \<Rightarrow> u64" where
  "disk_index C sp s = (case snap_load C sp s of None \<Rightarrow> 0 | Some x \<Rightarrow> snap_index x)"

text \<open>
  What the node relies on in the library's storage: a new storage takes a snapshot with a positive
  index, and setting the hard state and appending entries return no error.
\<close>

definition lib_storage_ok :: "'r raft_lib \<Rightarrow> bool" where
  "lib_storage_ok L \<longleftrightarrow>
     (\<forall>x r. 0 < snap_index x \<longrightarrow> fst (rl_ApplySnapshot L x (rl_NewMemoryStorage L r)) = Inr ())
     \<and> (\<forall>h r. fst (rl_SetHardState L h r) = Inr ())
     \<and> (\<forall>es r. fst (rl_Append L es r) = Inr ())"

text \<open>What the server does when its process starts: a new store, a new node over the data directory, and start.\<close>

definition node_restart ::
    "'r raft_lib \<Rightarrow> raft_codec \<Rightarrow> (string \<Rightarrow> i64 res) \<Rightarrow> Config \<Rightarrow> fs \<Rightarrow> 'r RaftNode res \<times> fs" where
  "node_restart L C PD cfg s =
     (case NewRaftNode L cfg NewKVStore s of
        (Inl e, s) \<Rightarrow> (Inl e, s)
      | (Inr rn, s) \<Rightarrow>
          (case RN_Start L C PD rn s of
             (Inl e, _, s) \<Rightarrow> (Inl e, s)
           | (Inr _, rn, s) \<Rightarrow> (Inr rn, s)))"

text \<open>A node after a start from a snapshot, or without one.\<close>

definition restored_from :: "raft_Snapshot option \<Rightarrow> 'r RaftNode \<Rightarrow> 'r RaftNode \<Rightarrow> bool" where
  "restored_from snapshot rn rn' \<longleftrightarrow>
     rn_cfg rn' = rn_cfg rn \<and> rn_wal rn' = rn_wal rn \<and> rn_snap rn' = rn_snap rn
     \<and> kv_ok (rn_store rn') \<and> kv_utf8 (rn_store rn')
     \<and> kv_lookup (rn_store rn') = (case snapshot of None \<Rightarrow> Map.empty
           | Some y \<Rightarrow> kv_lookup (snd (KV_Restore (sn_Data y) NewKVStore)))
     \<and> rn_appliedIndex rn' = (case snapshot of None \<Rightarrow> 0 | Some y \<Rightarrow> snap_index y)
     \<and> rn_snapshotIndex rn' = (case snapshot of None \<Rightarrow> 0 | Some y \<Rightarrow> snap_index y)"

section \<open>Lemmas: the parts of a turn\<close>

lemma node_invD:
  assumes "node_inv C cfg rn s"
  shows "node_dirs cfg rn" "reliable s" "wal_inv C (rn_wal rn) s" "snap_inv C (rn_snap rn) s"
    "saved_snapshots C (rn_snap rn) s i = Some x \<Longrightarrow> restorable x"
    "kv_ok (rn_store rn)" "kv_utf8 (rn_store rn)" "codec_ok C" "fs_ok s" "wal_open (rn_wal rn) s"
  using assms by (auto simp: node_inv_def wal_inv_def wal_open_def ranI)

lemma dirs_differ: "node_dirs cfg rn \<Longrightarrow> wal_dir (rn_wal rn) \<noteq> sp_dir (rn_snap rn)"
  by (auto simp: node_dirs_def NewSnapshotter_def dir_join_def)

lemma saved_snapshots_cong: "snap_file sp s' = snap_file sp s \<Longrightarrow> saved_snapshots C sp s' = saved_snapshots C sp s"
  by (auto simp: saved_snapshots_def)

lemma restore_ok:
  assumes "restorable x"
  shows "\<exists>kv'. KV_Restore (sn_Data x) kv = (Inr (), kv') \<and> kv_ok kv' \<and> kv_utf8 kv'
     \<and> kv_lookup kv' = kv_lookup (snd (KV_Restore (sn_Data x) NewKVStore))"
proof -
  from assms obtain m where m: "unmarshal_string_map (sn_Data x) = Inr (Some m)"
    by (auto simp: restorable_def split: sum.splits option.splits)
  with unmarshal_string_map_ok [OF m] show ?thesis
    by (auto simp: KV_Restore_def kv_ok_def kv_utf8_def kv_lookup_def)
qed

text \<open>Changing only the library's state, the indices and the bookkeeping keeps the invariant.\<close>

lemma node_inv_cong:
  assumes "node_inv C cfg rn s" and "rn_cfg rn' = rn_cfg rn" and "rn_wal rn' = rn_wal rn"
    and "rn_snap rn' = rn_snap rn" and "kv_ok (rn_store rn')" and "kv_utf8 (rn_store rn')"
  shows "node_inv C cfg rn' s"
proof -
  have "node_dirs cfg rn'" using assms(1-4) unfolding node_inv_def node_dirs_def by metis
  with assms show ?thesis unfolding node_inv_def by simp
qed

lemma ready_save_inv:
  assumes inv: "node_inv C cfg rn s" and rs: "ready_save L C rd rn s = (rn', s')"
  shows "node_inv C cfg rn' s'"
    and "wal_entries (rn_wal rn') = wal_entries (rn_wal rn) @ rd_Entries rd"
    and "wal_hardState (rn_wal rn')
         = (if rd_HardState rd = zero_HardState then wal_hardState (rn_wal rn) else rd_HardState rd)"
    and "snap_file (rn_snap rn') s' = snap_file (rn_snap rn) s" and "rn_snap rn' = rn_snap rn"
    and "rn_store rn' = rn_store rn" and "rn_appliedIndex rn' = rn_appliedIndex rn"
    and "rn_snapshotIndex rn' = rn_snapshotIndex rn" and "rn_snapshotInterval rn' = rn_snapshotInterval rn"
proof -
  note i = node_invD [OF inv]
  obtain r w' t where sv: "WAL_Save C (rd_HardState rd) (rd_Entries rd) (rn_wal rn) s = (r, w', t)"
    by (cases "WAL_Save C (rd_HardState rd) (rd_Entries rd) (rn_wal rn) s")
  note e = WAL_Save_ok [OF i(3,2) sv]
  have out: "s' = t" "rn_wal rn' = w'" "rn_snap rn' = rn_snap rn" "rn_store rn' = rn_store rn" "rn_cfg rn' = rn_cfg rn"
    "rn_appliedIndex rn' = rn_appliedIndex rn" "rn_snapshotIndex rn' = rn_snapshotIndex rn"
    "rn_snapshotInterval rn' = rn_snapshotInterval rn"
    using rs sv by (auto simp: ready_save_def)
  have fd: "fd_open (wal_f (rn_wal rn))" using i(10) by (simp add: wal_open_def)
  have dir: "wal_dir w' = wal_dir (rn_wal rn)" using WAL_Save_effect(4,5) [OF fd sv] by simp
  have ok: "fs_ok s'" using e(2) out(1) by (simp add: wal_inv_def wal_open_def)
  note sn = snap_inv_outside [OF i(4) WAL_Save_outside [OF i(10) sv] _ dirs_differ [OF i(1), symmetric]]
  show f: "snap_file (rn_snap rn') s' = snap_file (rn_snap rn) s" using sn(2) ok out by simp
  have "saved_snapshots C (rn_snap rn') s' = saved_snapshots C (rn_snap rn) s"
    using f out(3) saved_snapshots_cong by metis
  moreover have "node_dirs cfg rn'" using i(1) out dir unfolding node_dirs_def by metis
  ultimately show "node_inv C cfg rn' s'"
    using inv e(2,3) sn(1) ok out unfolding node_inv_def by simp
  show "wal_entries (rn_wal rn') = wal_entries (rn_wal rn) @ rd_Entries rd"
    "wal_hardState (rn_wal rn')
         = (if rd_HardState rd = zero_HardState then wal_hardState (rn_wal rn) else rd_HardState rd)"
    using e(4,5) out by simp_all
qed (use rs in \<open>auto simp: ready_save_def split: prod.splits\<close>)

lemma ready_snapshot_inv:
  assumes inv: "node_inv C cfg rn s" and "ready_ok C rd"
  shows "node_inv C cfg (ready_snapshot L C rd rn) s"
proof (cases "cd_empty_snap C (rd_Snapshot rd)")
  case True
  with inv show ?thesis by (simp add: ready_snapshot_def)
next
  case False
  with assms have "restorable (rd_Snapshot rd)" by (simp add: ready_ok_def)
  with restore_ok [OF this, of "rn_store rn"] False inv show ?thesis
    by (auto simp: ready_snapshot_def Let_def intro!: node_inv_cong [OF inv])
qed

lemma apply_committed_inv:
  assumes inv: "node_inv C cfg rn s"
  obtains rn' where "apply_committed L C es rn = Some rn'" and "node_inv C cfg rn' s"
    and "same_but_applied rn rn'"
    and "kv_lookup (rn_store rn') = kv_lookup (rn_store rn) ++ map_of (rev (entry_puts es))"
    and "rn_appliedIndex rn' = (if es = [] then rn_appliedIndex rn else en_Index (last es))"
proof -
  note i = node_invD [OF inv]
  obtain rn' where rn': "apply_committed L C es rn = Some rn'" "same_but_applied rn rn'" "kv_ok (rn_store rn')"
    "fold_opt (\<lambda>p. KV_Put (fst p) (snd p)) (entry_puts es) (rn_store rn) = Some (rn_store rn')"
    "rn_appliedIndex rn' = (if es = [] then rn_appliedIndex rn else en_Index (last es))"
    using apply_committed_run [OF i(6)] by blast
  have "kv_lookup (rn_store rn') = kv_lookup (rn_store rn) ++ map_of (rev (entry_puts es))"
    using kv.puts_lookup [OF i(6), of "entry_puts es"] rn'(4) by auto
  moreover have "node_inv C cfg rn' s"
    using rn'(2,3) puts_utf8 [OF rn'(4) i(7)] by (intro node_inv_cong [OF inv]) (simp_all add: same_but_applied_def)
  ultimately show ?thesis using rn' that by blast
qed

text \<open>The snapshot that the node writes of its current state.\<close>

definition node_snapshot :: "'r RaftNode \<Rightarrow> raft_Snapshot" where
  "node_snapshot rn =
     \<lparr>sn_Data = projr (KV_Snapshot (rn_store rn)),
      sn_Metadata = \<lparr>md_ConfState = zero_ConfState, md_Index = rn_appliedIndex rn, md_Term = 0\<rparr>\<rparr>"

lemma node_snapshot_restores:
  assumes "kv_ok (rn_store rn)" and "kv_utf8 (rn_store rn)"
  shows "restorable (node_snapshot rn)"
    and "kv_lookup (snd (KV_Restore (sn_Data (node_snapshot rn)) NewKVStore)) = kv_lookup (rn_store rn)"
    and "snap_index (node_snapshot rn) = rn_appliedIndex rn"
proof -
  obtain b where b: "KV_Snapshot (rn_store rn) = Inr b" by (simp add: KV_Snapshot_def Let_def)
  obtain m where m: "unmarshal_string_map b = Inr (Some m)" "map_of m = kv_lookup (rn_store rn)"
    using KV_Snapshot_unmarshal [OF assms b] by blast
  then show "restorable (node_snapshot rn)"
    "kv_lookup (snd (KV_Restore (sn_Data (node_snapshot rn)) NewKVStore)) = kv_lookup (rn_store rn)"
    using b by (auto simp: restorable_def node_snapshot_def KV_Restore_def kv_lookup_def)
  show "snap_index (node_snapshot rn) = rn_appliedIndex rn" by (simp add: snap_index_def node_snapshot_def)
qed

lemma createSnapshot_ok:
  assumes inv: "node_inv C cfg rn s" and c: "createSnapshot C rn s = (r, rn', s')"
  shows "r = Inr ()" and "node_inv C cfg rn' s'"
    and "rn_snap rn' = rn_snap rn \<and> rn_store rn' = rn_store rn \<and> rn_appliedIndex rn' = rn_appliedIndex rn
      \<and> rn_snapshotIndex rn' = rn_appliedIndex rn"
    and "wal_hardState (rn_wal rn') = wal_hardState (rn_wal rn)"
    and "wal_entries (rn_wal rn') = filter (\<lambda>e. rn_appliedIndex rn < en_Index e) (wal_entries (rn_wal rn))"
    and "saved_snapshots C (rn_snap rn) s' = ((saved_snapshots C (rn_snap rn) s)(rn_appliedIndex rn \<mapsto> node_snapshot rn))
           |` newest 3 (insert (rn_appliedIndex rn) (dom (saved_snapshots C (rn_snap rn) s)))"
proof -
  note i = node_invD [OF inv]
  note sn = node_snapshot_restores [OF i(6,7)]
  obtain b where b: "KV_Snapshot (rn_store rn) = Inr b" by (simp add: KV_Snapshot_def Let_def)
  obtain r1 s1 where sv: "Snapshotter_Save C (rn_snap rn) (node_snapshot rn) s = (r1, s1)"
    by (cases "Snapshotter_Save C (rn_snap rn) (node_snapshot rn) s")
  note e1 = Save_result [OF i(4,2) sv, unfolded sn(3)]
  have ok: "snap_dir_ok (rn_snap rn) s" using i(4) by (simp add: snap_inv_def)
  have ok1: "fs_ok s1" using e1(2) by (simp add: snap_inv_def snap_dir_ok_def)
  have w1: "wal_inv C (rn_wal rn) s1"
    by (rule wal_inv_outside [OF i(3) Save_outside [OF ok sv] ok1 dirs_differ [OF i(1)]])
  obtain r2 w' s2 where cp: "WAL_Compact C (rn_appliedIndex rn) (rn_wal rn) s1 = (r2, w', s2)"
    by (cases "WAL_Compact C (rn_appliedIndex rn) (rn_wal rn) s1")
  note e2 = WAL_Compact_ok [OF w1 e1(3) cp]
  have wo1: "wal_open (rn_wal rn) s1" using w1 by (simp add: wal_inv_def)
  have dir: "wal_dir w' = wal_dir (rn_wal rn)" by (rule WAL_Compact_effect(1) [OF wo1 cp])
  have ok2: "fs_ok s2" using e2(2) by (simp add: wal_inv_def wal_open_def)
  note sn2 = snap_inv_outside [OF e1(2) WAL_Compact_outside [OF wo1 cp] ok2 dirs_differ [OF i(1), symmetric]]
  have out: "r = Inr ()" "s' = s2" "rn' = rn\<lparr>rn_wal := w', rn_snapshotIndex := rn_appliedIndex rn\<rparr>"
    using c b sv cp e1(1) e2(1) by (auto simp: createSnapshot_def node_snapshot_def)
  show saved: "saved_snapshots C (rn_snap rn) s' = ((saved_snapshots C (rn_snap rn) s)(rn_appliedIndex rn \<mapsto> node_snapshot rn))
           |` newest 3 (insert (rn_appliedIndex rn) (dom (saved_snapshots C (rn_snap rn) s)))"
    using e1(4) saved_snapshots_cong [OF sn2(2), of C] out(2) by simp
  have "restorable x" if "saved_snapshots C (rn_snap rn) s' j = Some x" for j x
    using that sn(1) i(5) unfolding saved by (auto simp: restrict_map_def split: if_splits)
  then have "\<forall>x \<in> ran (saved_snapshots C (rn_snap rn) s'). restorable x" by (auto simp: ran_def)
  then show "node_inv C cfg rn' s'"
    using i(1,6,7) e2(2,3) sn2(1) out dir unfolding node_inv_def node_dirs_def by simp
  show "r = Inr ()" "rn_snap rn' = rn_snap rn \<and> rn_store rn' = rn_store rn \<and> rn_appliedIndex rn' = rn_appliedIndex rn
      \<and> rn_snapshotIndex rn' = rn_appliedIndex rn"
    "wal_hardState (rn_wal rn') = wal_hardState (rn_wal rn)"
    "wal_entries (rn_wal rn') = filter (\<lambda>e. rn_appliedIndex rn < en_Index e) (wal_entries (rn_wal rn))"
    using out e2(4,5) by simp_all
qed

text \<open>A whole turn of the event loop.\<close>

lemma restricted_update:
  "dom (m(i \<mapsto> x) |` A) \<subseteq> insert i (dom m)" "ran (m(i \<mapsto> x) |` A) \<subseteq> insert x (ran m)"
  by (auto simp: ran_def restrict_map_def split: if_splits)

lemma ready_compact_effect:
  assumes inv: "node_inv C cfg rn s" and c: "ready_compact C rn s = (rn', s')"
  shows "node_inv C cfg rn' s'" and "rn_snap rn' = rn_snap rn" and "rn_appliedIndex rn' = rn_appliedIndex rn"
    and "rn_store rn' = rn_store rn"
    and "dom (saved_snapshots C (rn_snap rn) s')
           \<subseteq> insert (rn_appliedIndex rn) (dom (saved_snapshots C (rn_snap rn) s))"
    and "ran (saved_snapshots C (rn_snap rn) s') \<subseteq> insert (node_snapshot rn) (ran (saved_snapshots C (rn_snap rn) s))"
    and "{e \<in> set (wal_entries (rn_wal rn)). rn_appliedIndex rn < en_Index e} \<subseteq> set (wal_entries (rn_wal rn'))"
proof -
  consider (kept) "rn' = rn" "s' = s" | (taken) r where "createSnapshot C rn s = (r, rn', s')"
    using c by (cases "rn_snapshotInterval rn \<le> rn_appliedIndex rn - rn_snapshotIndex rn")
      (auto simp: ready_compact_def split: prod.splits)
  note cases = this
  show "node_inv C cfg rn' s'" by (cases rule: cases) (use inv createSnapshot_ok(2) [OF inv] in auto)
  show "rn_snap rn' = rn_snap rn" "rn_appliedIndex rn' = rn_appliedIndex rn" "rn_store rn' = rn_store rn"
    by (cases rule: cases; use createSnapshot_ok(3) [OF inv] in auto)+
  show "dom (saved_snapshots C (rn_snap rn) s') \<subseteq> insert (rn_appliedIndex rn) (dom (saved_snapshots C (rn_snap rn) s))"
    by (cases rule: cases) (use createSnapshot_ok(6) [OF inv] restricted_update(1) in auto)
  show "ran (saved_snapshots C (rn_snap rn) s') \<subseteq> insert (node_snapshot rn) (ran (saved_snapshots C (rn_snap rn) s))"
    by (cases rule: cases; use createSnapshot_ok(6) [OF inv] restricted_update(2) in \<open>metis subset_insertI\<close>)
  show "{e \<in> set (wal_entries (rn_wal rn)). rn_appliedIndex rn < en_Index e} \<subseteq> set (wal_entries (rn_wal rn'))"
    by (cases rule: cases) (use createSnapshot_ok(5) [OF inv] in auto)
qed

lemma node_snapshot_cong:
  "rn_store rn = rn_store rn' \<Longrightarrow> rn_appliedIndex rn = rn_appliedIndex rn' \<Longrightarrow> node_snapshot rn = node_snapshot rn'"
  by (simp add: node_snapshot_def)

lemma ready_snapshot_contents:
  assumes "ready_ok C rd"
  shows "kv_lookup (rn_store (ready_snapshot L C rd rn)) = (if cd_empty_snap C (rd_Snapshot rd) then kv_lookup (rn_store rn)
      else kv_lookup (snd (KV_Restore (sn_Data (rd_Snapshot rd)) NewKVStore)))"
proof (cases "cd_empty_snap C (rd_Snapshot rd)")
  case False
  with assms restore_ok [of "rd_Snapshot rd" "rn_store rn"] show ?thesis
    by (auto simp: ready_ok_def ready_snapshot_def Let_def)
qed (simp add: ready_snapshot_def)

lemma handle_ready_effect:
  assumes inv: "node_inv C cfg rn s" and rd: "ready_ok C rd"
  obtains rn' s' posted where "handle_ready L C H M rd rn s = Some ((rn', s'), posted)" and "node_inv C cfg rn' s'"
    and "rn_appliedIndex rn' = (if rd_CommittedEntries rd \<noteq> [] then en_Index (last (rd_CommittedEntries rd))
           else if cd_empty_snap C (rd_Snapshot rd) then rn_appliedIndex rn else snap_index (rd_Snapshot rd))"
    and "dom (saved_snapshots C (rn_snap rn') s')
           \<subseteq> insert (rn_appliedIndex rn') (dom (saved_snapshots C (rn_snap rn) s))"
    and "kv_lookup (rn_store rn') = (if cd_empty_snap C (rd_Snapshot rd) then kv_lookup (rn_store rn)
             else kv_lookup (snd (KV_Restore (sn_Data (rd_Snapshot rd)) NewKVStore)))
           ++ map_of (rev (entry_puts (rd_CommittedEntries rd)))"
    and "ran (saved_snapshots C (rn_snap rn') s') \<subseteq> insert (node_snapshot rn') (ran (saved_snapshots C (rn_snap rn) s))"
    and "{e \<in> set (wal_entries (rn_wal rn) @ rd_Entries rd). rn_appliedIndex rn' < en_Index e} \<subseteq> set (wal_entries (rn_wal rn'))"
proof -
  obtain rn1 s1 where 1: "ready_save L C rd rn s = (rn1, s1)" by (cases "ready_save L C rd rn s")
  note e1 = ready_save_inv [OF inv 1]
  have i2: "node_inv C cfg (ready_snapshot L C rd rn1) s1" by (rule ready_snapshot_inv [OF e1(1) rd])
  have a2: "rn_snap (ready_snapshot L C rd rn1) = rn_snap rn1" "rn_appliedIndex (ready_snapshot L C rd rn1)
      = (if cd_empty_snap C (rd_Snapshot rd) then rn_appliedIndex rn1 else snap_index (rd_Snapshot rd))"
    by (simp_all add: ready_snapshot_def Let_def snap_index_def)
  note k2 = ready_snapshot_contents [OF rd, where L = L and rn = rn1]
  obtain rn3 where 3: "apply_committed L C (rd_CommittedEntries rd) (ready_snapshot L C rd rn1) = Some rn3"
    "node_inv C cfg rn3 s1" "same_but_applied (ready_snapshot L C rd rn1) rn3"
    "rn_appliedIndex rn3 = (if rd_CommittedEntries rd = [] then rn_appliedIndex (ready_snapshot L C rd rn1)
       else en_Index (last (rd_CommittedEntries rd)))"
    "kv_lookup (rn_store rn3) = kv_lookup (rn_store (ready_snapshot L C rd rn1)) ++ map_of (rev (entry_puts (rd_CommittedEntries rd)))"
    using apply_committed_inv [OF i2] by metis
  obtain rn4 s4 where 4: "ready_compact C rn3 s1 = (rn4, s4)" by (cases "ready_compact C rn3 s1")
  have sp3: "rn_snap rn3 = rn_snap rn" using 3(3) a2(1) e1(5) by (simp add: same_but_applied_def)
  have sv: "saved_snapshots C (rn_snap rn) s1 = saved_snapshots C (rn_snap rn) s"
    using saved_snapshots_cong [OF e1(4) [unfolded e1(5)], of C] .
  note i4 = ready_compact_effect [OF 3(2) 4, unfolded sp3 sv]
  note i5 = i4(1)
  have w3: "wal_entries (rn_wal rn3) = wal_entries (rn_wal rn) @ rd_Entries rd"
    using 3(3) e1(2) by (simp add: same_but_applied_def ready_snapshot_def Let_def)
  let ?rn5 = "(ready_leader rd rn4)\<lparr>rn_raft := rl_Advance L (rn_raft (ready_leader rd rn4))\<rparr>"
  have f5: "rn_cfg ?rn5 = rn_cfg rn4" "rn_wal ?rn5 = rn_wal rn4" "rn_snap ?rn5 = rn_snap rn4"
    "rn_store ?rn5 = rn_store rn4" "rn_appliedIndex ?rn5 = rn_appliedIndex rn4"
    by (simp_all add: ready_leader_def split: option.split)
  show ?thesis
  proof (rule that)
    show "handle_ready L C H M rd rn s = Some ((?rn5, s4), ready_send H M rd rn1)"
      using 1 3(1) 4 by (simp add: handle_ready_def Let_def)
    show "node_inv C cfg ?rn5 s4"
      by (rule node_inv_cong [OF i5 f5(1-3)]) (simp_all only: f5(4) node_invD(6,7) [OF i5])
    show "ran (saved_snapshots C (rn_snap ?rn5) s4) \<subseteq> insert (node_snapshot ?rn5) (ran (saved_snapshots C (rn_snap rn) s))"
      using i4(2,6) f5(3) node_snapshot_cong [of ?rn5 rn3] f5(4,5) i4(3,4) by simp
    show "{e \<in> set (wal_entries (rn_wal rn) @ rd_Entries rd). rn_appliedIndex ?rn5 < en_Index e}
        \<subseteq> set (wal_entries (rn_wal ?rn5))" using i4(3,7) f5(2,5) w3 by simp
  qed (use i4(2-5) f5 3(4,5) a2 k2 e1(6,7) in simp_all)
qed

lemma handle_ready_inv:
  assumes "node_inv C cfg rn s" and "ready_ok C rd"
  obtains rn' s' posted where "handle_ready L C H M rd rn s = Some ((rn', s'), posted)" and "node_inv C cfg rn' s'"
  by (rule handle_ready_effect [OF assms, of L H M]) (rule that)

section \<open>Lemmas: restarting\<close>

text \<open>What loading returns, as a function of the snapshots on disk.\<close>

lemma snap_load_eq:
  assumes "snap_inv C sp s" and "reliable s"
  defines "D \<equiv> dom (saved_snapshots C sp s)"
  shows "D \<subseteq> {0} \<Longrightarrow> fst (Snapshotter_Load C sp s) = Inl ErrNotExist \<and> snap_load C sp s = None"
    and "\<not> D \<subseteq> {0} \<Longrightarrow> \<exists>x. fst (Snapshotter_Load C sp s) = Inr x \<and> snap_load C sp s = Some x
           \<and> saved_snapshots C sp s (Max D) = Some x \<and> snap_index x = Max D \<and> 0 < Max D"
proof -
  show "fst (Snapshotter_Load C sp s) = Inl ErrNotExist \<and> snap_load C sp s = None" if "D \<subseteq> {0}"
    using Load_result(2) [OF assms(1,2)] that unfolding D_def
    by (cases "Snapshotter_Load C sp s") (auto simp: snap_load_def)
  show "\<exists>x. fst (Snapshotter_Load C sp s) = Inr x \<and> snap_load C sp s = Some x
           \<and> saved_snapshots C sp s (Max D) = Some x \<and> snap_index x = Max D \<and> 0 < Max D" if nz: "\<not> D \<subseteq> {0}"
  proof -
    from nz obtain j where j: "j \<in> D" "j \<noteq> 0" by blast
    then have "D \<noteq> {}" by blast
    with j have m: "Max D \<in> D" "j \<le> Max D" "\<forall>k \<in> D. k \<le> Max D" using Max_in [of D] by simp_all
    with j(2) have pos: "0 < Max D" by (metis word_gt_0 word_le_0_iff)
    obtain x t where x: "Snapshotter_Load C sp s = (Inr x, t)" "saved_snapshots C sp s (Max D) = Some x"
      using Load_result(1) [OF assms(1,2), of "Max D"] m pos unfolding D_def by blast
    with snap_inv_saved(3) [OF assms(1) x(2)] pos show ?thesis by (simp add: snap_load_def)
  qed
qed

lemma Load_reads_only:
  "\<exists>t. snd (Snapshotter_Load C sp s) = s\<lparr>fs_tick := t\<rparr>"
  by (auto simp: Snapshotter_Load_def ReadDir_def ReadFile_def io_next_def Let_def
      split: os_splits intro: exI [of _ "fs_tick s"])

text \<open>The three things a start gives the library: hard state, entries and snapshot.\<close>

lemma start_hardState_ok:
  assumes "lib_storage_ok L"
  obtains r where "start_hardState L C h rn = (Inr (), rn\<lparr>rn_raft := r\<rparr>)"
proof -
  obtain r' where r': "rl_SetHardState L h (rn_raft rn) = (Inr (), r')"
    using assms unfolding lib_storage_ok_def by (metis prod.collapse)
  show ?thesis
    by (rule that [of "if cd_empty_hs C h then rn_raft rn else r'"]) (simp add: start_hardState_def r')
qed

lemma start_entries_ok:
  assumes "lib_storage_ok L"
  obtains r where "start_entries L es rn = (Inr (), rn\<lparr>rn_raft := r\<rparr>)"
proof -
  obtain r' where r': "rl_Append L es (rn_raft rn) = (Inr (), r')"
    using assms unfolding lib_storage_ok_def by (metis prod.collapse)
  show ?thesis by (rule that [of "if es = [] then rn_raft rn else r'"]) (simp add: start_entries_def r')
qed

lemma start_snapshot_ok:
  assumes L: "lib_storage_ok L" and x: "\<And>y. snapshot = Some y \<Longrightarrow> restorable y \<and> 0 < snap_index y"
    and st: "rn_store rn = NewKVStore" "rn_appliedIndex rn = 0" "rn_snapshotIndex rn = 0"
    and r: "rn_raft rn = rl_NewMemoryStorage L r0"
  obtains rn' where "start_snapshot L snapshot rn = (Inr (), rn')" and "restored_from snapshot rn rn'"
proof (cases snapshot)
  case None
  have "kv_lookup NewKVStore = Map.empty" "kv_ok NewKVStore" "kv_utf8 NewKVStore"
    by (auto simp: kv_lookup_def NewKVStore_def kv_ok_def kv_utf8_def)
  with None st show ?thesis by (intro that [of rn]) (simp_all add: start_snapshot_def restored_from_def)
next
  case (Some y)
  obtain kv' where kv': "KV_Restore (sn_Data y) NewKVStore = (Inr (), kv')" "kv_ok kv'" "kv_utf8 kv'"
    using restore_ok [of y NewKVStore] x [OF Some] by blast
  obtain r' where "rl_ApplySnapshot L y (rn_raft rn) = (Inr (), r')"
    using L x [OF Some] unfolding lib_storage_ok_def r by (metis prod.collapse)
  with Some kv' st show ?thesis
    by (intro that [of "rn\<lparr>rn_raft := r', rn_store := kv', rn_snapshotIndex := snap_index y, rn_appliedIndex := snap_index y\<rparr>"])
      (simp_all add: start_snapshot_def restored_from_def snap_index_def)
qed

lemma start_restore_ok:
  assumes L: "lib_storage_ok L" and x: "\<And>y. snapshot = Some y \<Longrightarrow> restorable y \<and> 0 < snap_index y"
    and st: "rn_store rn = NewKVStore" "rn_appliedIndex rn = 0" "rn_snapshotIndex rn = 0"
  obtains rn' where "start_restore L C snapshot h es rn = (Inr (), rn')" and "restored_from snapshot rn rn'"
proof -
  let ?rn0 = "rn\<lparr>rn_raft := rl_NewMemoryStorage L (rn_raft rn)\<rparr>"
  obtain rn1 where rn1: "start_snapshot L snapshot ?rn0 = (Inr (), rn1)" "restored_from snapshot ?rn0 rn1"
    by (rule start_snapshot_ok [OF L x, of snapshot ?rn0 "rn_raft rn"]) (simp_all add: st)
  obtain r2 where r2: "start_hardState L C h rn1 = (Inr (), rn1\<lparr>rn_raft := r2\<rparr>)" by (rule start_hardState_ok [OF L])
  obtain r3 where "start_entries L es (rn1\<lparr>rn_raft := r2\<rparr>) = (Inr (), rn1\<lparr>rn_raft := r2, rn_raft := r3\<rparr>)"
    by (rule start_entries_ok [OF L])
  with rn1 r2 show ?thesis
    by (intro that [of "rn1\<lparr>rn_raft := r3\<rparr>"]) (simp_all add: start_restore_def restored_from_def)
qed

lemma fold_start_peer:
  "rn_cfg (fold start_peer ps rn) = rn_cfg rn" "rn_wal (fold start_peer ps rn) = rn_wal rn"
  "rn_snap (fold start_peer ps rn) = rn_snap rn" "rn_store (fold start_peer ps rn) = rn_store rn"
  "rn_appliedIndex (fold start_peer ps rn) = rn_appliedIndex rn"
  "rn_snapshotIndex (fold start_peer ps rn) = rn_snapshotIndex rn"
  by (induction ps arbitrary: rn) (simp_all add: start_peer_def)

lemma start_tail_frame:
  "rn_cfg (start_transport (start_node L b rn)) = rn_cfg rn" "rn_wal (start_transport (start_node L b rn)) = rn_wal rn"
  "rn_snap (start_transport (start_node L b rn)) = rn_snap rn"
  "rn_store (start_transport (start_node L b rn)) = rn_store rn"
  "rn_appliedIndex (start_transport (start_node L b rn)) = rn_appliedIndex rn"
  "rn_snapshotIndex (start_transport (start_node L b rn)) = rn_snapshotIndex rn"
  by (simp_all add: start_transport_def start_node_def Let_def fold_start_peer)

text \<open>The node that a process creates over the directories of an earlier one.\<close>

lemma NewRaftNode_reopens:
  assumes dirs: "node_dirs cfg rn" and rel0: "reliable s" and wo0: "wal_open (rn_wal rn) s"
  obtains rn1 s1 where "NewRaftNode L cfg NewKVStore s = (Inr rn1, s1)" and "node_dirs cfg rn1"
    and "rn_wal rn1 = \<lparr>wal_dir = wal_dir (rn_wal rn), wal_f = \<lparr>fd_inode = fd_inode (wal_f (rn_wal rn)), fd_open = True\<rparr>,
               wal_hardState = zero_HardState, wal_entries = []\<rparr>"
    and "rn_snap rn1 = rn_snap rn" and "rn_store rn1 = NewKVStore" and "rn_appliedIndex rn1 = 0"
    and "rn_snapshotIndex rn1 = 0" and "set (fs_dirs s) \<subseteq> set (fs_dirs s1)" and "fs_ok s1" and "reliable s1"
    and "fs_nodes s1 = fs_nodes s" and "fs_data s1 = fs_data s" and "fs_fresh s1 = fs_fresh s" and "fs_plan s1 = fs_plan s"
proof -
  let ?wd = "dir_join (cf_DataDir cfg) ''wal''" and ?sd = "dir_join (cf_DataDir cfg) ''snapshots''"
  obtain r1 t1 where m1: "MkdirAll ?wd s = (r1, t1)" by (cases "MkdirAll ?wd s")
  note e1 = MkdirAll_effect [OF m1]
  obtain r2 t2 where m2: "MkdirAll ?sd t1 = (r2, t2)" by (cases "MkdirAll ?sd t1")
  note e2 = MkdirAll_effect [OF m2]
  have rel: "reliable t1" "reliable t2" using rel0 e1(4) e2(4) by (simp_all add: reliable_def)
  have wd: "wal_dir (rn_wal rn) = ?wd" using dirs by (simp add: node_dirs_def)
  have wo: "wal_open (rn_wal rn) t2"
    using wo0 e1(1,3,5) e2(1,3,5) by (auto simp: wal_open_def fs_ok_def)
  obtain r3 t3 where n: "NewWAL ?wd t2 = (r3, t3)" by (cases "NewWAL ?wd t2")
  note e3 = NewWAL_reopens [OF wo rel(2), unfolded wd, OF n]
  let ?w = "\<lparr>wal_dir = ?wd, wal_f = \<lparr>fd_inode = fd_inode (wal_f (rn_wal rn)), fd_open = True\<rparr>,
               wal_hardState = zero_HardState, wal_entries = []\<rparr>"
  have nodes: "fs_nodes t3 = fs_nodes s" "fs_data t3 = fs_data s" "fs_fresh t3 = fs_fresh s"
    "set (fs_dirs s) \<subseteq> set (fs_dirs t3)" using e1 e2 e3 by auto
  show ?thesis
  proof (rule that)
    show "NewRaftNode L cfg NewKVStore s
      = (Inr \<lparr>rn_cfg = cfg, rn_raft = rl_init L, rn_store = NewKVStore, rn_wal = ?w,
              rn_snap = NewSnapshotter ?sd, rn_transport = None, rn_stopped = False,
              rn_appliedIndex = 0, rn_snapshotIndex = 0, rn_snapshotInterval = 0,
              rn_proposals = [], rn_chans = [], rn_peers = [], rn_isLeader = False\<rparr>, t3)"
      using m1 e1(7) [OF rel0] m2 e2(7) [OF rel(1)] n e3(1) by (simp add: NewRaftNode_def Let_def)
    show "set (fs_dirs s) \<subseteq> set (fs_dirs t3)" by (rule nodes(4))
    show "fs_ok t3" using wo0 nodes by (simp add: fs_ok_def wal_open_def)
    show "reliable t3" using rel(2) e3(5) by (simp add: reliable_def)
  qed (use dirs nodes e1(4) e2(4) e3(5) in \<open>simp_all add: node_dirs_def\<close>)
qed

lemma ReadAll_reads_only: "\<exists>t. snd (snd (WAL_ReadAll C w s)) = s\<lparr>fs_tick := t\<rparr>"
  by (auto simp: WAL_ReadAll_def ReadFile_def io_next_def split: os_splits)

lemma snap_load_same:
  assumes "snap_inv C sp s" "reliable s" "snap_inv C sp s'" "reliable s'" "snap_file sp s' = snap_file sp s"
  shows "snap_load C sp s' = snap_load C sp s"
  using snap_load_eq [OF assms(1,2)] snap_load_eq [OF assms(3,4)] saved_snapshots_cong [OF assms(5), of C]
  by (cases "dom (saved_snapshots C sp s) \<subseteq> {0}") auto

text \<open>\<open>Start\<close> on a data directory in order.\<close>

lemma RN_Start_ok:
  assumes L: "lib_storage_ok L" and iv: "parse_interval PD (cf_SnapshotInterval (rn_cfg rn1)) = Inr n"
    and w: "codec_ok C" "wal_open (rn_wal rn1) s1" "reliable s1" "list_all wf_record rs"
      "file_at s1 (wal_path (wal_dir (rn_wal rn1))) = Some (log_text C rs)"
      "fold replay_record rs (zero_HardState, []) = (h, es)"
    and sn: "snap_inv C (rn_snap rn1) s1" "\<forall>x \<in> ran (saved_snapshots C (rn_snap rn1) s1). restorable x"
    and st: "rn_store rn1 = NewKVStore" "rn_appliedIndex rn1 = 0" "rn_snapshotIndex rn1 = 0"
  obtains rn' s' t where "RN_Start L C PD rn1 s1 = (Inr (), rn', s')" and "s' = s1\<lparr>fs_tick := t\<rparr>"
    and "wal_inv C (rn_wal rn') s'" and "rn_cfg rn' = rn_cfg rn1" and "rn_snap rn' = rn_snap rn1"
    and "wal_dir (rn_wal rn') = wal_dir (rn_wal rn1)"
    and "wal_hardState (rn_wal rn') = h" and "wal_entries (rn_wal rn') = es"
    and "kv_ok (rn_store rn')" and "kv_utf8 (rn_store rn')"
    and "kv_lookup (rn_store rn') = disk_contents C (rn_snap rn1) s1"
    and "rn_appliedIndex rn' = disk_index C (rn_snap rn1) s1" and "rn_snapshotIndex rn' = disk_index C (rn_snap rn1) s1"
proof -
  let ?sp = "rn_snap rn1" and ?snap = "snap_load C (rn_snap rn1) s1"
  obtain res s2 where ld: "Snapshotter_Load C ?sp s1 = (res, s2)" by (cases "Snapshotter_Load C ?sp s1")
  obtain t2 where s2: "s2 = s1\<lparr>fs_tick := t2\<rparr>" using Load_reads_only [of C ?sp s1] ld by auto
  have res: "\<not> (case res of Inl e \<Rightarrow> \<not> IsNotExist e | Inr _ \<Rightarrow> False)"
    "(case res of Inl _ \<Rightarrow> None | Inr x \<Rightarrow> Some x) = ?snap"
    using snap_load_eq [OF sn(1) w(3)] ld
    by (cases "dom (saved_snapshots C ?sp s1) \<subseteq> {0}"; auto simp: IsNotExist_def)+
  have x: "restorable y \<and> 0 < snap_index y" if "?snap = Some y" for y
    using snap_load_eq [OF sn(1) w(3)] that sn(2)
    by (cases "dom (saved_snapshots C ?sp s1) \<subseteq> {0}") (auto simp: ran_def)
  obtain r3 w3 s3 where rd: "WAL_ReadAll C (rn_wal rn1) s2 = (r3, w3, s3)" by (cases "WAL_ReadAll C (rn_wal rn1) s2")
  have w2: "wal_open (rn_wal rn1) s2" "reliable s2" "file_at s2 (wal_path (wal_dir (rn_wal rn1))) = Some (log_text C rs)"
    using w(2,3,5) s2 by (simp_all add: wal_open_def fs_ok_def reliable_def)
  note ra = WAL_ReadAll_ok [OF w(1) w2(2,1) w(4) w2(3) w(6) rd]
  obtain t3 where s3: "s3 = s1\<lparr>fs_tick := t3\<rparr>" using ReadAll_reads_only [of C "rn_wal rn1" s2] rd s2 by auto
  let ?rn2 = "rn1\<lparr>rn_snapshotInterval := n, rn_wal := w3\<rparr>"
  obtain rn3 where r3: "start_restore L C ?snap h es ?rn2 = (Inr (), rn3)" "restored_from ?snap ?rn2 rn3"
    by (rule start_restore_ok [OF L x, of ?snap ?rn2 C h es]) (simp_all add: st)
  note rn3 = r3(1) r3(2) [unfolded restored_from_def, folded disk_contents_def disk_index_def, simplified]
  have "RN_Start L C PD rn1 s1 = (Inr (), start_transport (start_node L (es = [] \<and> ?snap = None) rn3), s3)"
    using iv ld res rd ra(1) rn3(1) by (simp add: RN_Start_def)
  then show ?thesis
    by (rule that [where t = t3]) (use ra rn3 s3 in \<open>simp_all add: start_tail_frame\<close>)
qed

lemma node_restart_ok:
  assumes inv: "node_inv C cfg rn s" and L: "lib_storage_ok L"
    and iv: "parse_interval PD (cf_SnapshotInterval cfg) = Inr n"
  obtains rn' s' where "node_restart L C PD cfg s = (Inr rn', s')" and "node_inv C cfg rn' s'"
    and "wal_hardState (rn_wal rn') = wal_hardState (rn_wal rn)" and "wal_entries (rn_wal rn') = wal_entries (rn_wal rn)"
    and "kv_lookup (rn_store rn') = disk_contents C (rn_snap rn) s"
    and "rn_appliedIndex rn' = disk_index C (rn_snap rn) s" and "rn_snapshotIndex rn' = disk_index C (rn_snap rn) s"
    and "saved_snapshots C (rn_snap rn') s' = saved_snapshots C (rn_snap rn) s"
proof -
  note i = node_invD [OF inv]
  obtain rn1 s1 where nw: "NewRaftNode L cfg NewKVStore s = (Inr rn1, s1)" "node_dirs cfg rn1"
    "rn_wal rn1 = \<lparr>wal_dir = wal_dir (rn_wal rn), wal_f = \<lparr>fd_inode = fd_inode (wal_f (rn_wal rn)), fd_open = True\<rparr>,
               wal_hardState = zero_HardState, wal_entries = []\<rparr>"
    "rn_snap rn1 = rn_snap rn" "rn_store rn1 = NewKVStore" "rn_appliedIndex rn1 = 0" "rn_snapshotIndex rn1 = 0"
    "set (fs_dirs s) \<subseteq> set (fs_dirs s1)" "fs_ok s1" "reliable s1" "fs_nodes s1 = fs_nodes s" "fs_data s1 = fs_data s"
    by (rule NewRaftNode_reopens [OF i(1,2,10), of L])
  obtain rs where rs: "list_all wf_record rs" "file_at s (wal_path (wal_dir (rn_wal rn))) = Some (log_text C rs)"
    "fold replay_record rs (zero_HardState, []) = (wal_hardState (rn_wal rn), wal_entries (rn_wal rn))"
    using i(3) by (auto simp: wal_inv_def)
  have wo: "wal_open (rn_wal rn1) s1" using i(10) nw(3,8,9,11) by (auto simp: wal_open_def)
  have fl: "file_at s1 (wal_path (wal_dir (rn_wal rn1))) = Some (log_text C rs)"
    using rs(2) nw(3) file_at_cong [OF nw(12), of "wal_path (wal_dir (rn_wal rn))"] nw(11) by simp
  have out: "outside (wal_dir (rn_wal rn)) s t" if "fs_nodes t = fs_nodes s" "fs_data t = fs_data s"
    "set (fs_dirs s) \<subseteq> set (fs_dirs t)" for t using that by (rule outside_same)
  note sn = snap_inv_outside [OF i(4) out [OF nw(11,12,8)] nw(9) dirs_differ [OF i(1), symmetric]]
  have res: "\<forall>x \<in> ran (saved_snapshots C (rn_snap rn1) s1). restorable x"
    using inv saved_snapshots_cong [OF sn(2), of C] nw(4) by (simp add: node_inv_def)
  have iv1: "parse_interval PD (cf_SnapshotInterval (rn_cfg rn1)) = Inr n"
    using iv nw(2) by (simp add: node_dirs_def)
  obtain rn' s' t where st: "RN_Start L C PD rn1 s1 = (Inr (), rn', s')" "s' = s1\<lparr>fs_tick := t\<rparr>"
    "wal_inv C (rn_wal rn') s'" "rn_cfg rn' = rn_cfg rn1" "rn_snap rn' = rn_snap rn1"
    "wal_dir (rn_wal rn') = wal_dir (rn_wal rn1)"
    "wal_hardState (rn_wal rn') = wal_hardState (rn_wal rn)" "wal_entries (rn_wal rn') = wal_entries (rn_wal rn)"
    "kv_ok (rn_store rn')" "kv_utf8 (rn_store rn')" "kv_lookup (rn_store rn') = disk_contents C (rn_snap rn1) s1"
    "rn_appliedIndex rn' = disk_index C (rn_snap rn1) s1" "rn_snapshotIndex rn' = disk_index C (rn_snap rn1) s1"
    using RN_Start_ok [OF L iv1 i(8) wo nw(10) rs(1) fl rs(3) _ res nw(5,6,7)] sn(1) nw(4) by auto
  have s': "fs_nodes s' = fs_nodes s" "fs_data s' = fs_data s" "set (fs_dirs s) \<subseteq> set (fs_dirs s')" "fs_ok s'" "reliable s'"
    using st(2) nw(8-12) by (simp_all add: fs_ok_def reliable_def)
  note sn' = snap_inv_outside [OF i(4) out [OF s'(1-3)] s'(4) dirs_differ [OF i(1), symmetric]]
  have dirs: "node_dirs cfg rn'" using nw(2) st(4-6) unfolding node_dirs_def by metis
  have "node_inv C cfg rn' s'"
    using dirs s'(5) st(3,5,9,10) sn'(1) inv saved_snapshots_cong [OF sn'(2), of C] nw(4)
    unfolding node_inv_def by simp
  moreover have "saved_snapshots C (rn_snap rn') s' = saved_snapshots C (rn_snap rn) s"
    using saved_snapshots_cong [OF sn'(2), of C] st(5) nw(4) by simp
  moreover have "snap_load C (rn_snap rn1) s1 = snap_load C (rn_snap rn) s"
    using snap_load_same [OF i(4,2) sn(1) nw(10) sn(2)] nw(4) by simp
  moreover have "node_restart L C PD cfg s = (Inr rn', s')" using nw(1) st(1) by (simp add: node_restart_def)
  ultimately show ?thesis
    using that st(7,8,11-13) unfolding disk_contents_def disk_index_def by simp
qed

end
