(* ===== verification/Go_Flag.thy ===== *)
theory Go_Flag
  imports Go_Strings
begin

text \<open>
  What the programs use of \<open>flag\<close>: \<open>flag.Parse\<close> on a set of flags, in the order of \<open>FlagSet.parseOne\<close>. A flag is written
  \<open>-name=value\<close> or \<open>--name=value\<close>, or with the value in the next argument; a boolean flag without a value is set to true,
  and never takes the next argument. Parsing stops at the first argument that is not a flag. With the policy of the
  command line (\<open>ExitOnError\<close>) a request for help ends the process with code 0, any other problem with code 2: the result
  is the exit code (\<open>Inl\<close>) or the values of the flags.
\<close>

text \<open>\<open>fg_bool\<close> says of a name whether it is a flag, and whether that flag is boolean; \<open>fg_set\<close> is the \<open>Set\<close> of its value.\<close>

record 'f flag_set =
  fg_bool :: "string \<Rightarrow> bool option"
  fg_set :: "string \<Rightarrow> string \<Rightarrow> 'f \<Rightarrow> 'f option"

text \<open>The text of a flag without its one or two dashes; \<open>None\<close> for an argument that ends the flags.\<close>

definition flag_text :: "string \<Rightarrow> string option" where
  "flag_text s =
     (if length s < 2 \<or> hd s \<noteq> CHR ''-'' then None
      else if s = ''--'' then None
      else if s ! 1 = CHR ''-'' then Some (drop 2 s)
      else Some (drop 1 s))"

definition split_flag :: "string \<Rightarrow> string \<times> string option" where
  "split_flag t =
     (if CHR ''='' \<in> set t
      then (takeWhile (\<lambda>c. c \<noteq> CHR ''='') t, Some (tl (dropWhile (\<lambda>c. c \<noteq> CHR ''='') t)))
      else (t, None))"

fun flag_parse :: "'f flag_set \<Rightarrow> string list \<Rightarrow> 'f \<Rightarrow> nat + 'f" where
  "flag_parse F [] f = Inr f"
| "flag_parse F (s # args) f =
     (case flag_text s of
        None \<Rightarrow> Inr f
      | Some t \<Rightarrow>
          if t = [] \<or> hd t = CHR ''-'' \<or> hd t = CHR ''='' then Inl 2
          else
            (case fg_bool F (fst (split_flag t)) of
               None \<Rightarrow> Inl (if fst (split_flag t) = ''help'' \<or> fst (split_flag t) = ''h'' then 0 else 2)
             | Some b \<Rightarrow>
                 (case snd (split_flag t) of
                    Some v \<Rightarrow>
                      (case fg_set F (fst (split_flag t)) v f of None \<Rightarrow> Inl 2 | Some f \<Rightarrow> flag_parse F args f)
                  | None \<Rightarrow>
                      if b then
                        (case fg_set F (fst (split_flag t)) ''true'' f of None \<Rightarrow> Inl 2 | Some f \<Rightarrow> flag_parse F args f)
                      else
                        (case args of
                           [] \<Rightarrow> Inl 2
                         | v # args \<Rightarrow>
                             (case fg_set F (fst (split_flag t)) v f of None \<Rightarrow> Inl 2 | Some f \<Rightarrow> flag_parse F args f)))))"

text \<open>\<open>strconv.ParseBool\<close>, the \<open>Set\<close> of a boolean flag.\<close>

definition ParseBool :: "string \<Rightarrow> bool option" where
  "ParseBool s =
     (if s \<in> {''1'', ''t'', ''T'', ''TRUE'', ''true'', ''True''} then Some True
      else if s \<in> {''0'', ''f'', ''F'', ''FALSE'', ''false'', ''False''} then Some False
      else None)"

text \<open>A flag with its value in the same argument.\<close>

lemma split_flag_value:
  assumes "CHR ''='' \<notin> set name"
  shows "split_flag (name @ CHR ''='' # v) = (name, Some v)"
proof -
  have "takeWhile (\<lambda>c. c \<noteq> CHR ''='') (name @ CHR ''='' # v) = name"
    "dropWhile (\<lambda>c. c \<noteq> CHR ''='') (name @ CHR ''='' # v) = CHR ''='' # v"
    using assms by (auto simp: takeWhile_append dropWhile_append)
  then show ?thesis
    by (simp add: split_flag_def)
qed

end
