(* ===== verification/Server.thy ===== *)
theory Server
  imports RaftNode Go_Flag
begin

text \<open>
  \<open>server/cmd/server/main.go\<close>: the command line, the configuration made from it, starting the node and stopping it.
  Running the two servers in goroutines and waiting for a signal is left out; a fatal error ends the process, and is
  an error here.

  All flags take a value; the parser of an integer flag (\<open>strconv.ParseInt\<close> with base 0) is an argument.
\<close>

section \<open>The command line\<close>

record flags =
  fl_id :: string
  fl_raft_addr :: string
  fl_api_addr :: string
  fl_admin_addr :: string
  fl_data_dir :: string
  fl_peers :: string
  fl_safety_mode :: string
  fl_snapshot_interval :: string
  fl_election_timeout :: int

definition default_flags :: flags where
  "default_flags =
     \<lparr>fl_id = [], fl_raft_addr = '':9000'', fl_api_addr = '':8080'', fl_admin_addr = '':9090'', fl_data_dir = ''./data'',
      fl_peers = [], fl_safety_mode = ''safe'', fl_snapshot_interval = ''10000'', fl_election_timeout = 300\<rparr>"

definition server_flag_names :: "string list" where
  "server_flag_names =
     [''id'', ''raft-addr'', ''api-addr'', ''admin-addr'', ''data-dir'', ''peers'', ''safety-mode'', ''snapshot-interval'',
      ''election-timeout'']"

definition set_flag :: "(string \<Rightarrow> int res) \<Rightarrow> string \<Rightarrow> string \<Rightarrow> flags \<Rightarrow> flags option" where
  "set_flag ParseInt name v f =
     (if name = ''id'' then Some (f\<lparr>fl_id := v\<rparr>)
      else if name = ''raft-addr'' then Some (f\<lparr>fl_raft_addr := v\<rparr>)
      else if name = ''api-addr'' then Some (f\<lparr>fl_api_addr := v\<rparr>)
      else if name = ''admin-addr'' then Some (f\<lparr>fl_admin_addr := v\<rparr>)
      else if name = ''data-dir'' then Some (f\<lparr>fl_data_dir := v\<rparr>)
      else if name = ''peers'' then Some (f\<lparr>fl_peers := v\<rparr>)
      else if name = ''safety-mode'' then Some (f\<lparr>fl_safety_mode := v\<rparr>)
      else if name = ''snapshot-interval'' then Some (f\<lparr>fl_snapshot_interval := v\<rparr>)
      else if name = ''election-timeout'' then
        (case ParseInt v of Inl _ \<Rightarrow> None | Inr n \<Rightarrow> Some (f\<lparr>fl_election_timeout := n\<rparr>))
      else None)"

definition server_flags :: "(string \<Rightarrow> int res) \<Rightarrow> flags flag_set" where
  "server_flags ParseInt =
     \<lparr>fg_bool = (\<lambda>name. if name \<in> set server_flag_names then Some False else None), fg_set = set_flag ParseInt\<rparr>"

definition parse_flags :: "(string \<Rightarrow> int res) \<Rightarrow> string list \<Rightarrow> flags \<Rightarrow> nat + flags" where
  "parse_flags ParseInt = flag_parse (server_flags ParseInt)"

section \<open>The process\<close>

text \<open>Without an identifier on the command line the node is named after the host.\<close>

definition server_config :: "string res \<Rightarrow> flags \<Rightarrow> Config res" where
  "server_config hostname f =
     (case (if fl_id f = [] then hostname else Inr (fl_id f)) of
        Inl _ \<Rightarrow> Inl (Errorf ''node ID not specified and cannot determine hostname'')
      | Inr nodeID \<Rightarrow>
          Inr \<lparr>cf_NodeID = nodeID, cf_RaftAddr = fl_raft_addr f, cf_APIAddr = fl_api_addr f,
               cf_AdminAddr = fl_admin_addr f, cf_DataDir = fl_data_dir f, cf_InitialPeers = fl_peers f,
               cf_SafetyMode = fl_safety_mode f, cf_SnapshotInterval = fl_snapshot_interval f,
               cf_ElectionTimeoutMs = fl_election_timeout f\<rparr>)"

definition server_boot ::
    "'r raft_lib \<Rightarrow> raft_codec \<Rightarrow> (string \<Rightarrow> i64 res) \<Rightarrow> Config \<Rightarrow> fs \<Rightarrow> 'r RaftNode res \<times> fs" where
  "server_boot L C ParseDuration cfg s =
     (case MkdirAll (cf_DataDir cfg) s of
        (Inl e, s) \<Rightarrow> (Inl (Wrap ''Failed to create data directory'' e), s)
      | (Inr _, s) \<Rightarrow>
          (case NewRaftNode L cfg NewKVStore s of
             (Inl e, s) \<Rightarrow> (Inl (Wrap ''Failed to create Raft node'' e), s)
           | (Inr node, s) \<Rightarrow>
               (case RN_Start L C ParseDuration node s of
                  (Inl e, node, s) \<Rightarrow> (Inl (Wrap ''Failed to start Raft node'' e), s)
                | (Inr _, node, s) \<Rightarrow> (Inr node, s))))"

text \<open>On a signal the node is stopped; an error is only logged.\<close>

definition server_shutdown :: "'r raft_lib \<Rightarrow> unit res \<Rightarrow> 'r RaftNode \<Rightarrow> fs \<Rightarrow> 'r RaftNode \<times> fs" where
  "server_shutdown L shutdown node s = (case RN_Stop L shutdown node s of (_, node, s) \<Rightarrow> (node, s))"

lemmas server_flag_defs = parse_flags_def server_flags_def server_flag_names_def set_flag_def flag_text_def split_flag_def

end
