(* ===== verification/RaftNode_Runs.thy ===== *)
theory RaftNode_Runs
  imports RaftNode_Durable Server
begin

text \<open>
  The runs of a server over the life of its data directory: the process is started on an empty file system, its node
  handles what the library hands it, passes on proposals and messages, and between any two turns the process may
  crash, or be shut down on a signal, and be started again. The file system's calls succeed; the library and the
  peers are arbitrary.
\<close>

inductive node_run ::
    "'r raft_lib \<Rightarrow> raft_codec \<Rightarrow> http_client \<Rightarrow> msg_codec \<Rightarrow> (string \<Rightarrow> i64 res) \<Rightarrow> Config
       \<Rightarrow> 'r RaftNode \<Rightarrow> fs \<Rightarrow> bool"
  for L C H M PD cfg where
  boot: "server_boot L C PD cfg (empty_fs (\<lambda>_. IoOk)) = (Inr rn, s) \<Longrightarrow> node_run L C H M PD cfg rn s"
| ready: "node_run L C H M PD cfg rn s \<Longrightarrow> ready_ok C rd \<Longrightarrow>
    handle_ready L C H M rd rn s = Some ((rn', s'), posted) \<Longrightarrow> node_run L C H M PD cfg rn' s'"
| propose: "node_run L C H M PD cfg rn s \<Longrightarrow> RN_Propose L b rn = (r, rn') \<Longrightarrow> node_run L C H M PD cfg rn' s"
| conf: "node_run L C H M PD cfg rn s \<Longrightarrow> RN_ProposeConfChange L cc rn = (r, rn') \<Longrightarrow> node_run L C H M PD cfg rn' s"
| receive: "node_run L C H M PD cfg rn s \<Longrightarrow> RN_Process L m rn = (r, rn') \<Longrightarrow> node_run L C H M PD cfg rn' s"
| transfer: "node_run L C H M PD cfg rn s \<Longrightarrow> node_run L C H M PD cfg (RN_TransferLeadership L i rn) s"
| crash: "node_run L C H M PD cfg rn s \<Longrightarrow> server_boot L C PD cfg s = (Inr rn', s') \<Longrightarrow> node_run L C H M PD cfg rn' s'"
| stop: "node_run L C H M PD cfg rn s \<Longrightarrow> server_shutdown L r rn s = (rn1, s1) \<Longrightarrow>
    server_boot L C PD cfg s1 = (Inr rn', s') \<Longrightarrow> node_run L C H M PD cfg rn' s'"

text \<open>Ingredients of concrete runs.\<close>

definition no_duration :: "string \<Rightarrow> i64 res" where
  "no_duration s = Inl (Errorf ''invalid duration'')"

definition sample_ready :: "raft_Entry list \<Rightarrow> raft_Snapshot \<Rightarrow> Ready" where
  "sample_ready es x =
     \<lparr>rd_HardState = sample_hs, rd_Entries = es, rd_CommittedEntries = es, rd_Messages = [], rd_Snapshot = x,
      rd_SoftState = Some StateLeader\<rparr>"

definition leader_snapshot :: raft_Snapshot where
  "leader_snapshot =
     \<lparr>sn_Data = projr (KV_Snapshot NewKVStore),
      sn_Metadata = \<lparr>md_ConfState = zero_ConfState, md_Index = 9, md_Term = 0\<rparr>\<rparr>"

definition uncommitted_ready :: "u64 \<Rightarrow> Ready" where
  "uncommitted_ready t =
     (sample_ready [] zero_Snapshot)\<lparr>rd_Entries := [(sample_entry 5)\<lparr>en_Term := t\<rparr>]\<rparr>"

section \<open>Lemmas\<close>

lemma NewWAL_creates:
  assumes "reliable s" and "fs_ok s" and "map_of (fs_nodes s) (wal_path d) = None"
    and "map_of (fs_nodes s) (tmp_path d) \<noteq> Some DirNode"
  obtains w s' where "NewWAL d s = (Inr w, s')" and "wal_open w s'" and "wal_dir w = d"
    and "wal_hardState w = zero_HardState" and "wal_entries w = []" and "file_at s' (wal_path d) = Some []"
    and "reliable s'" and "outside d s s'"
proof -
  let ?s1 = "s\<lparr>fs_tick := Suc (fs_tick s), fs_dirs := List.insert d (fs_dirs s)\<rparr>"
  let ?s2 = "?s1\<lparr>fs_tick := Suc (Suc (fs_tick s))\<rparr>"
  let ?w = "\<lparr>wal_dir = d, wal_f = \<lparr>fd_inode = fs_fresh s, fd_open = True\<rparr>, wal_hardState = zero_HardState, wal_entries = []\<rparr>"
  let ?s' = "new_file (wal_path d) ?s2"
  have nok: "nodes_ok (fs_nodes s) (fs_fresh s)" using assms(2) by (simp add: fs_ok_def)
  have "fs_fresh s \<noteq> i" if "map_of (fs_nodes s) p = Some (FileNode i)" for p i
    using nodes_okD(2) [OF nok that] by simp
  then have fa: "file_at ?s' p = file_at s p" if "p \<noteq> wal_path d" for p
    using that by (cases p) (auto simp: file_at_def new_file_def update_conv' split: option.splits node.splits)
  show ?thesis
  proof (rule that)
    show "NewWAL d s = (Inr ?w, ?s')"
      using assms(1,3) by (simp add: NewWAL_def MkdirAll_def OpenAppend_def io_next_def reliable_def new_file_def
          wal_path_def Join_def)
    show "wal_open ?w ?s'"
      using nok assms(4) nodes_ok_new [OF nok]
      by (auto simp: wal_open_def fs_ok_def new_file_def update_conv')
    show "file_at ?s' (wal_path d) = Some []" by (simp add: file_at_def new_file_def update_conv')
    show "reliable ?s'" using assms(1) by (simp add: reliable_def new_file_def)
    have "map_of (fs_nodes ?s') p = map_of (fs_nodes s) p" if "p \<noteq> wal_path d" for p
      using that by (simp add: new_file_def update_conv')
    moreover have "p \<noteq> wal_path d" if "fst p \<noteq> d" for p using that by (auto simp: wal_path_def Join_def)
    moreover have "set (fs_dirs s) \<subseteq> set (fs_dirs ?s')" by (auto simp: new_file_def)
    ultimately show "outside d s ?s'" using fa unfolding outside_def by blast
  qed simp_all
qed

text \<open>The node's first start, on a file system without files.\<close>

lemma first_start_ok:
  assumes C: "codec_ok C" and L: "lib_storage_ok L" and iv: "parse_interval PD (cf_SnapshotInterval cfg) = Inr n"
    and s0: "reliable s0" "fs_ok s0" "fs_nodes s0 = []"
  obtains rn s where "node_restart L C PD cfg s0 = (Inr rn, s)" and "node_inv C cfg rn s"
    and "saved_snapshots C (rn_snap rn) s = Map.empty" and "kv_lookup (rn_store rn) = Map.empty" and "rn_appliedIndex rn = 0"
proof -
  let ?wd = "dir_join (cf_DataDir cfg) ''wal''" and ?sd = "dir_join (cf_DataDir cfg) ''snapshots''"
  let ?sp = "NewSnapshotter (dir_join (cf_DataDir cfg) ''snapshots'')"
  obtain r1 s1 where m1: "MkdirAll ?wd s0 = (r1, s1)" by (cases "MkdirAll ?wd s0")
  note e1 = MkdirAll_effect [OF m1]
  obtain r2 s2 where m2: "MkdirAll ?sd s1 = (r2, s2)" by (cases "MkdirAll ?sd s1")
  note e2 = MkdirAll_effect [OF m2]
  have ok2: "reliable s2" "fs_ok s2" "fs_nodes s2 = []"
    using s0 e1 e2 by (auto simp: reliable_def fs_ok_def)
  have m: "r1 = Inr ()" "r2 = Inr ()" using s0 e1 e2 by (auto simp: reliable_def)
  obtain w s3 where nw: "NewWAL ?wd s2 = (Inr w, s3)" "wal_open w s3" "wal_dir w = ?wd"
    "wal_hardState w = zero_HardState" "wal_entries w = []" "file_at s3 (wal_path ?wd) = Some []" "reliable s3"
    "outside ?wd s2 s3"
    using NewWAL_creates [OF ok2(1,2), of ?wd] ok2(3) by auto
  define rn1 where "rn1 = \<lparr>rn_cfg = cfg, rn_raft = rl_init L, rn_store = NewKVStore, rn_wal = w, rn_snap = ?sp,
      rn_transport = None, rn_stopped = False, rn_appliedIndex = 0, rn_snapshotIndex = 0, rn_snapshotInterval = 0,
      rn_proposals = [], rn_chans = [], rn_peers = [], rn_isLeader = False\<rparr>"
  have new: "NewRaftNode L cfg NewKVStore s0 = (Inr rn1, s3)"
    using m m1 m2 nw(1) by (simp add: NewRaftNode_def Let_def rn1_def)
  have dirs: "node_dirs cfg rn1" by (simp add: node_dirs_def rn1_def nw(3))
  have sp: "sp_dir ?sp \<noteq> ?wd" using dirs_differ [OF dirs] nw(3) by (simp add: rn1_def)
  have si2: "snap_inv C ?sp s2" using empty_dir_inv [OF C] ok2(2,3)
    by (simp add: snap_inv_def snap_dir_ok_def snap_file_def file_at_def)
  have ok3: "fs_ok s3" using nw(2) by (simp add: wal_open_def)
  note si3 = snap_inv_outside [OF si2 nw(8) ok3 sp]
  have none: "saved_snapshots C ?sp s3 = Map.empty"
    using si3(2) ok2(3) by (auto simp: saved_snapshots_def snap_file_def file_at_def)
  have rn1: "rn_wal rn1 = w" "rn_snap rn1 = ?sp" "rn_store rn1 = NewKVStore" "rn_appliedIndex rn1 = 0"
    "rn_snapshotIndex rn1 = 0" "rn_cfg rn1 = cfg" by (simp_all add: rn1_def)
  obtain rn s t where st: "RN_Start L C PD rn1 s3 = (Inr (), rn, s)" "s = s3\<lparr>fs_tick := t\<rparr>" "wal_inv C (rn_wal rn) s"
    "rn_cfg rn = rn_cfg rn1" "rn_snap rn = rn_snap rn1" "wal_dir (rn_wal rn) = wal_dir (rn_wal rn1)"
    "kv_ok (rn_store rn)" "kv_utf8 (rn_store rn)" "kv_lookup (rn_store rn) = disk_contents C (rn_snap rn1) s3"
    "rn_appliedIndex rn = disk_index C (rn_snap rn1) s3"
    by (rule RN_Start_ok [OF L, of PD rn1 n C s3 "[]" zero_HardState "[]"])
      (use iv C nw si3(1) none rn1 in \<open>simp_all add: ran_def\<close>)
  have s: "fs_ok s" "reliable s" using ok3 nw(7) st(2) by (simp_all add: fs_ok_def reliable_def)
  have "outside ?wd s3 s" using st(2) by (intro outside_same) simp_all
  note si = snap_inv_outside [OF si3(1) this s(1) sp]
  have "node_dirs cfg rn" using dirs st(4-6) unfolding node_dirs_def by metis
  then have "node_inv C cfg rn s"
    using s(2) st(3,5,7,8) si(1) none saved_snapshots_cong [OF si(2), of C] rn1(2)
    unfolding node_inv_def by (simp add: ran_def)
  moreover have "saved_snapshots C (rn_snap rn) s = Map.empty"
    using none saved_snapshots_cong [OF si(2), of C] rn1(2) st(5) by simp
  moreover have "snap_load C ?sp s3 = None" using snap_load_eq(1) [OF si3(1) nw(7)] none by simp
  ultimately show ?thesis
    using new st(1,9,10) rn1(2) by (intro that [of rn s]) (simp_all add: node_restart_def disk_contents_def disk_index_def)
qed

text \<open>Making a directory and closing a file change nothing that the invariant speaks of.\<close>

lemma node_inv_touch:
  assumes inv: "node_inv C cfg rn s"
    and same: "fs_nodes s' = fs_nodes s" "fs_data s' = fs_data s" "fs_fresh s' = fs_fresh s" "fs_plan s' = fs_plan s"
      "set (fs_dirs s) \<subseteq> set (fs_dirs s')"
  shows "node_inv C cfg rn s'" and "disk_contents C (rn_snap rn) s' = disk_contents C (rn_snap rn) s"
    and "disk_index C (rn_snap rn) s' = disk_index C (rn_snap rn) s"
    and "saved_snapshots C (rn_snap rn) s' = saved_snapshots C (rn_snap rn) s"
proof -
  note i = node_invD [OF inv]
  have ok: "fs_ok s'" "reliable s'" using i(2,9) same by (simp_all add: fs_ok_def reliable_def)
  have out: "outside d s s'" for d using same by (intro outside_same) simp_all
  note sn = snap_inv_outside [OF i(4) out ok(1) dirs_differ [OF i(1), symmetric]]
  note w = wal_inv_outside [OF i(3) out ok(1) dirs_differ [OF i(1)]]
  show "node_inv C cfg rn s'"
    using inv ok(2) sn(1) w saved_snapshots_cong [OF sn(2), of C] unfolding node_inv_def by simp
  show "saved_snapshots C (rn_snap rn) s' = saved_snapshots C (rn_snap rn) s" by (rule saved_snapshots_cong [OF sn(2)])
  have "snap_load C (rn_snap rn) s' = snap_load C (rn_snap rn) s" by (rule snap_load_same [OF i(4,2) sn(1) ok(2) sn(2)])
  then show "disk_contents C (rn_snap rn) s' = disk_contents C (rn_snap rn) s"
    "disk_index C (rn_snap rn) s' = disk_index C (rn_snap rn) s" by (simp_all add: disk_contents_def disk_index_def)
qed

lemma server_boot_iff:
  "server_boot L C PD cfg s = (Inr rn, s') \<longleftrightarrow>
     (\<exists>u s1. MkdirAll (cf_DataDir cfg) s = (Inr u, s1) \<and> node_restart L C PD cfg s1 = (Inr rn, s'))"
  by (auto simp: server_boot_def node_restart_def split: prod.splits sum.splits)

text \<open>The first start of the process, and every later one.\<close>

lemma boot_ok:
  assumes "codec_ok C" and "lib_storage_ok L" and "parse_interval PD (cf_SnapshotInterval cfg) = Inr n"
  obtains rn s where "server_boot L C PD cfg (empty_fs (\<lambda>_. IoOk)) = (Inr rn, s)" and "node_inv C cfg rn s"
    and "saved_snapshots C (rn_snap rn) s = Map.empty" and "kv_lookup (rn_store rn) = Map.empty" and "rn_appliedIndex rn = 0"
proof -
  obtain r s1 where m: "MkdirAll (cf_DataDir cfg) (empty_fs (\<lambda>_. IoOk)) = (r, s1)"
    by (cases "MkdirAll (cf_DataDir cfg) (empty_fs (\<lambda>_. IoOk))")
  note e = MkdirAll_effect [OF m]
  have "reliable s1" "fs_ok s1" "fs_nodes s1 = []"
    using e(1-4) by (simp_all add: reliable_def empty_fs_def fs_ok_def nodes_ok_def)
  then obtain rn s where st: "node_restart L C PD cfg s1 = (Inr rn, s)" "node_inv C cfg rn s"
    "saved_snapshots C (rn_snap rn) s = Map.empty" "kv_lookup (rn_store rn) = Map.empty" "rn_appliedIndex rn = 0"
    by (rule first_start_ok [OF assms])
  have "r = Inr ()" by (rule e(7)) (simp add: reliable_def empty_fs_def)
  with m st show ?thesis by (intro that [of rn s]) (auto simp: server_boot_iff)
qed

lemma server_boot_ok:
  assumes inv: "node_inv C cfg rn s" and L: "lib_storage_ok L"
    and iv: "parse_interval PD (cf_SnapshotInterval cfg) = Inr n"
  obtains rn' s' where "server_boot L C PD cfg s = (Inr rn', s')" and "node_inv C cfg rn' s'"
    and "wal_hardState (rn_wal rn') = wal_hardState (rn_wal rn)" and "wal_entries (rn_wal rn') = wal_entries (rn_wal rn)"
    and "kv_lookup (rn_store rn') = disk_contents C (rn_snap rn) s"
    and "rn_appliedIndex rn' = disk_index C (rn_snap rn) s"
    and "saved_snapshots C (rn_snap rn') s' = saved_snapshots C (rn_snap rn) s"
proof -
  obtain r s1 where m: "MkdirAll (cf_DataDir cfg) s = (r, s1)" by (cases "MkdirAll (cf_DataDir cfg) s")
  note e = MkdirAll_effect [OF m]
  note t = node_inv_touch [OF inv e(1-5)]
  obtain rn' s' where st: "node_restart L C PD cfg s1 = (Inr rn', s')" "node_inv C cfg rn' s'"
    "wal_hardState (rn_wal rn') = wal_hardState (rn_wal rn)" "wal_entries (rn_wal rn') = wal_entries (rn_wal rn)"
    "kv_lookup (rn_store rn') = disk_contents C (rn_snap rn) s1" "rn_appliedIndex rn' = disk_index C (rn_snap rn) s1"
    "saved_snapshots C (rn_snap rn') s' = saved_snapshots C (rn_snap rn) s1"
    by (rule node_restart_ok [OF t(1) L iv])
  have "server_boot L C PD cfg s = (Inr rn', s')" using m e(7) node_invD(2) [OF inv] st(1) by (auto simp: server_boot_iff)
  with st t(2-4) show ?thesis by (intro that [of rn' s']) simp_all
qed

text \<open>Shutting down closes the log; on disk everything stays as it was.\<close>

lemma server_shutdown_disk:
  assumes "server_shutdown L r rn s = (rn', s')"
  shows "fs_nodes s' = fs_nodes s" "fs_data s' = fs_data s" "fs_fresh s' = fs_fresh s" "fs_plan s' = fs_plan s"
    "set (fs_dirs s) \<subseteq> set (fs_dirs s')"
  using assms
  by (auto simp: server_shutdown_def RN_Stop_def Let_def WAL_Close_def dest!: FClose_effect
      split: prod.splits sum.splits if_splits)

lemma node_run_inv:
  assumes "node_run L C H M PD cfg rn s" and C: "codec_ok C" and L: "lib_storage_ok L"
    and iv: "parse_interval PD (cf_SnapshotInterval cfg) = Inr n"
  shows "node_inv C cfg rn s"
  using assms(1)
proof induction
  case (boot rn s)
  then show ?case using boot_ok [OF C L iv] by (metis Pair_inject sum.inject(2))
next
  case (ready rn s rd rn' s' posted)
  then show ?case using handle_ready_inv [OF ready.IH ready.hyps(2), of L H M] by (metis Pair_inject option.inject)
next
  case (crash rn s rn' s')
  then show ?case using server_boot_ok [OF crash.IH L iv] by (metis Pair_inject sum.inject(2))
next
  case (stop rn s r rn1 s1 rn' s')
  then show ?case using server_boot_ok [OF node_inv_touch(1) [OF stop.IH server_shutdown_disk [OF stop.hyps(2)]] L iv]
    by (metis Pair_inject sum.inject(2))
qed (auto simp: RN_Propose_def RN_ProposeConfChange_def RN_Process_def RN_TransferLeadership_def node_inv_def
    node_dirs_def split: prod.splits)

text \<open>The snapshot interval is the configured one in every state of a run.\<close>

lemma start_restore_interval:
  "start_restore L C sn h es rn = (r, rn') \<Longrightarrow> rn_snapshotInterval rn' = rn_snapshotInterval rn"
  by (auto simp: start_restore_def start_snapshot_def start_hardState_def start_entries_def
      split: prod.splits sum.splits option.splits if_splits)

lemma start_tail_interval:
  "rn_snapshotInterval (start_transport (start_node L b rn)) = rn_snapshotInterval rn"
proof -
  have "rn_snapshotInterval (fold start_peer ps x) = rn_snapshotInterval x" for ps and x :: "'a RaftNode"
    by (induction ps arbitrary: x) (simp_all add: start_peer_def)
  then show ?thesis by (simp add: start_transport_def start_node_def Let_def)
qed

lemma node_restart_interval:
  assumes "node_restart L C PD cfg s = (Inr rn, s')" and iv: "parse_interval PD (cf_SnapshotInterval cfg) = Inr n"
  shows "rn_snapshotInterval rn = n"
proof -
  from assms(1) obtain rn1 s1 u where nw: "NewRaftNode L cfg NewKVStore s = (Inr rn1, s1)"
    and st: "RN_Start L C PD rn1 s1 = (Inr u, rn, s')"
    by (auto simp: node_restart_def split: prod.splits sum.splits)
  have "rn_cfg rn1 = cfg" using nw by (auto simp: NewRaftNode_def Let_def split: prod.splits sum.splits)
  with iv st show ?thesis
    by (auto simp: RN_Start_def Let_def start_tail_interval dest!: start_restore_interval
        split: prod.splits sum.splits if_splits)
qed

lemma createSnapshot_interval:
  "createSnapshot C rn s = (r, rn', s') \<Longrightarrow> rn_snapshotInterval rn' = rn_snapshotInterval rn"
  by (auto simp: createSnapshot_def Let_def split: prod.splits sum.splits)

lemma handle_ready_interval:
  assumes inv: "node_inv C cfg rn s" and rd: "ready_ok C rd"
    and h: "handle_ready L C H M rd rn s = Some ((rn', s'), posted)"
  shows "rn_snapshotInterval rn' = rn_snapshotInterval rn"
proof -
  obtain rn1 s1 where 1: "ready_save L C rd rn s = (rn1, s1)" by (cases "ready_save L C rd rn s")
  note e1 = ready_save_inv [OF inv 1]
  obtain rn3 where 3: "apply_committed L C (rd_CommittedEntries rd) (ready_snapshot L C rd rn1) = Some rn3"
    "same_but_applied (ready_snapshot L C rd rn1) rn3"
    using apply_committed_inv [OF ready_snapshot_inv [OF e1(1) rd]] by metis
  obtain rn4 s4 where 4: "ready_compact C rn3 s1 = (rn4, s4)" by (cases "ready_compact C rn3 s1")
  have "rn_snapshotInterval rn4 = rn_snapshotInterval rn3"
    using 4 createSnapshot_interval by (auto simp: ready_compact_def split: if_splits prod.splits)
  moreover have "rn_snapshotInterval rn3 = rn_snapshotInterval rn"
    using 3(2) e1(9) by (simp add: same_but_applied_def ready_snapshot_def Let_def)
  moreover have "rn_snapshotInterval rn' = rn_snapshotInterval rn4"
    using h 1 3(1) 4 by (auto simp: handle_ready_def Let_def ready_leader_def split: option.splits)
  ultimately show ?thesis by simp
qed

lemma node_run_interval:
  assumes "node_run L C H M PD cfg rn s" and C: "codec_ok C" and L: "lib_storage_ok L"
    and iv: "parse_interval PD (cf_SnapshotInterval cfg) = Inr n"
  shows "rn_snapshotInterval rn = n"
  using assms(1)
proof induction
  case (ready rn s rd rn' s' posted)
  then show ?case using handle_ready_interval [OF node_run_inv [OF ready.hyps(1) C L iv]] by metis
qed (auto simp: RN_Propose_def RN_ProposeConfChange_def RN_Process_def RN_TransferLeadership_def
    server_boot_iff dest: node_restart_interval [OF _ iv] split: prod.splits)

lemma sample_lib_ok: "lib_storage_ok sample_lib"
  by (simp add: lib_storage_ok_def sample_lib_def)

lemma sample_interval: "parse_interval no_duration (cf_SnapshotInterval sample_cfg) = Inr 10000"
  by (simp add: parse_interval_def no_duration_def sample_cfg_def Atoi_def is_digit_def byte_val_def)

lemma zero_snapshot_ok: "ready_ok sample_codec (sample_ready es zero_Snapshot)"
  using codec_okD(14) [OF sample_codec_ok, of zero_Snapshot]
  by (simp add: ready_ok_def sample_ready_def zero_Snapshot_def)

text \<open>A run that has applied one entry and has written no snapshot with a larger index.\<close>

lemma sample_run:
  obtains rn s where "node_run sample_lib sample_codec dead_client sample_msg_codec no_duration sample_cfg rn s"
    and "rn_appliedIndex rn = 5" and "dom (saved_snapshots sample_codec (rn_snap rn) s) \<subseteq> {5}"
proof -
  let ?run = "node_run sample_lib sample_codec dead_client sample_msg_codec no_duration sample_cfg"
  obtain rn0 s0 where b: "server_boot sample_lib sample_codec no_duration sample_cfg (empty_fs (\<lambda>_. IoOk)) = (Inr rn0, s0)"
    "node_inv sample_codec sample_cfg rn0 s0" "saved_snapshots sample_codec (rn_snap rn0) s0 = Map.empty"
    by (rule boot_ok [OF sample_codec_ok sample_lib_ok sample_interval])
  let ?rd = "sample_ready [sample_entry 5] zero_Snapshot"
  obtain rn s posted where h: "handle_ready sample_lib sample_codec dead_client sample_msg_codec ?rd rn0 s0
      = Some ((rn, s), posted)"
    "rn_appliedIndex rn = (if rd_CommittedEntries ?rd \<noteq> [] then en_Index (last (rd_CommittedEntries ?rd))
       else if cd_empty_snap sample_codec (rd_Snapshot ?rd) then rn_appliedIndex rn0 else snap_index (rd_Snapshot ?rd))"
    "dom (saved_snapshots sample_codec (rn_snap rn) s)
       \<subseteq> insert (rn_appliedIndex rn) (dom (saved_snapshots sample_codec (rn_snap rn0) s0))"
    by (rule handle_ready_effect [OF b(2) zero_snapshot_ok])
  have "?run rn s" by (rule node_run.ready [OF node_run.boot [OF b(1)] zero_snapshot_ok h(1)])
  moreover have "rn_appliedIndex rn = 5" using h(2) by (simp add: sample_ready_def sample_entry_def)
  moreover have "dom (saved_snapshots sample_codec (rn_snap rn) s) \<subseteq> {5}" using h(3) b(3) calculation(2) by simp
  ultimately show ?thesis by (rule that)
qed

text \<open>Turns that bring an entry but commit none.\<close>

lemma uncommitted_ready_ok: "ready_ok sample_codec (uncommitted_ready t)"
  using zero_snapshot_ok [of "[]"] by (simp add: uncommitted_ready_def ready_ok_def)

lemma uncommitted_turn:
  assumes inv: "node_inv sample_codec cfg rn s" and a: "rn_appliedIndex rn = 0"
  obtains rn' s' posted where "handle_ready L sample_codec H M (uncommitted_ready t) rn s = Some ((rn', s'), posted)"
    and "node_inv sample_codec cfg rn' s'" and "rn_appliedIndex rn' = 0"
    and "(sample_entry 5)\<lparr>en_Term := t\<rparr> \<in> set (wal_entries (rn_wal rn'))"
proof -
  have rd: "rd_CommittedEntries (uncommitted_ready t) = []" "rd_Snapshot (uncommitted_ready t) = zero_Snapshot"
    "rd_Entries (uncommitted_ready t) = [(sample_entry 5)\<lparr>en_Term := t\<rparr>]"
    by (simp_all add: uncommitted_ready_def sample_ready_def)
  have ez: "cd_empty_snap sample_codec zero_Snapshot"
    using codec_okD(14) [OF sample_codec_ok, of zero_Snapshot] by (simp add: zero_Snapshot_def)
  note e = handle_ready_effect [OF inv uncommitted_ready_ok [of t], where L = L and H = H and M = M, unfolded rd]
  show ?thesis by (rule e) (rule that, (auto simp: a ez sample_entry_def)+)
qed

section \<open>Properties\<close>



text \<open>C23: a turn of the event loop never panics in any run whose \<open>Ready\<close> values carry restorable snapshots.\<close>

theorem ready_never_panics:
  assumes "node_run L C H M PD cfg rn s" and "codec_ok C" and "lib_storage_ok L"
    and "parse_interval PD (cf_SnapshotInterval cfg) = Inr n" and "ready_ok C rd"
  shows "\<exists>rn' s' posted. handle_ready L C H M rd rn s = Some ((rn', s'), posted)"
  using handle_ready_inv [OF node_run_inv [OF assms(1-4)] assms(5)] by metis

theorem ready_never_panics_witness:
  "\<exists>rn s rn' s' posted. node_run sample_lib sample_codec dead_client sample_msg_codec no_duration sample_cfg rn s
     \<and> handle_ready sample_lib sample_codec dead_client sample_msg_codec (sample_ready [sample_entry 6] zero_Snapshot) rn s
         = Some ((rn', s'), posted)"
proof -
  obtain rn s where r: "node_run sample_lib sample_codec dead_client sample_msg_codec no_duration sample_cfg rn s"
    by (rule sample_run)
  from ready_never_panics [OF r sample_codec_ok sample_lib_ok sample_interval zero_snapshot_ok] r show ?thesis by blast
qed

text \<open>C2: a snapshot loses nothing: after \<open>createSnapshot\<close> at an applied index that is not behind the snapshots on
  disk, a restart finds every key with the value it had, the same applied index, the hard state, and exactly the
  log entries above that index.\<close>

theorem snapshot_then_restart:
  assumes "node_run L C H M PD cfg rn s" and "codec_ok C" and "lib_storage_ok L"
    and "parse_interval PD (cf_SnapshotInterval cfg) = Inr n"
    and "0 < rn_appliedIndex rn" and "\<forall>j \<in> dom (saved_snapshots C (rn_snap rn) s). j \<le> rn_appliedIndex rn"
    and "createSnapshot C rn s = (r, rn1, s1)"
  shows "r = Inr () \<and> (\<exists>rn2 s2. server_boot L C PD cfg s1 = (Inr rn2, s2)
     \<and> kv_lookup (rn_store rn2) = kv_lookup (rn_store rn) \<and> rn_appliedIndex rn2 = rn_appliedIndex rn
     \<and> wal_hardState (rn_wal rn2) = wal_hardState (rn_wal rn)
     \<and> wal_entries (rn_wal rn2) = filter (\<lambda>e. rn_appliedIndex rn < en_Index e) (wal_entries (rn_wal rn)))"
proof -
  have inv: "node_inv C cfg rn s" by (rule node_run_inv [OF assms(1-4)])
  note c = createSnapshot_ok [OF inv assms(7)]
  note i = node_invD [OF inv]
  note sn = node_snapshot_restores [OF i(6,7)]
  let ?sp = "rn_snap rn"
  have sp: "rn_snap rn1 = ?sp" "rn_store rn1 = rn_store rn" using c(3) by simp_all
  have ok: "snap_state_ok C ?sp s" using i(2,4) by (simp add: snap_state_ok_def)
  obtain t where t: "snap_save C ?sp (node_snapshot rn) s = Some t" using snap.save_total [OF ok] by blast
  have saved: "saved_snapshots C ?sp s1 = saved_snapshots C ?sp t"
    using c(6) snap.save_saved [OF ok t] sn(3) by simp
  note nw = snap.save_newest [OF ok t, unfolded sn(3), OF assms(6)]
  note i1 = node_invD [OF c(2), unfolded sp]
  have "snap_state_ok C ?sp s1" using i1(2,4) by (simp add: snap_state_ok_def)
  then have "snap_load C ?sp s1 = Some (node_snapshot rn)"
    using snap.load_newest [of C ?sp s1 "rn_appliedIndex rn"] nw assms(5) unfolding saved by auto
  then have "disk_contents C ?sp s1 = kv_lookup (rn_store rn)" "disk_index C ?sp s1 = rn_appliedIndex rn"
    using sn(2,3) by (simp_all add: disk_contents_def disk_index_def)
  with server_boot_ok [OF c(2) assms(3,4)] c(1,4,5) sp show ?thesis by metis
qed

theorem snapshot_then_restart_witness:
  "\<exists>rn s rn1 s1 rn2 s2. node_run sample_lib sample_codec dead_client sample_msg_codec no_duration sample_cfg rn s
     \<and> rn_appliedIndex rn = 5 \<and> createSnapshot sample_codec rn s = (Inr (), rn1, s1)
     \<and> server_boot sample_lib sample_codec no_duration sample_cfg s1 = (Inr rn2, s2)
     \<and> kv_lookup (rn_store rn2) = kv_lookup (rn_store rn) \<and> rn_appliedIndex rn2 = 5"
proof -
  obtain rn s where r: "node_run sample_lib sample_codec dead_client sample_msg_codec no_duration sample_cfg rn s"
    "rn_appliedIndex rn = 5" "dom (saved_snapshots sample_codec (rn_snap rn) s) \<subseteq> {5}" by (rule sample_run)
  obtain x rn1 s1 where c: "createSnapshot sample_codec rn s = (x, rn1, s1)" by (cases "createSnapshot sample_codec rn s")
  have le: "\<forall>j \<in> dom (saved_snapshots sample_codec (rn_snap rn) s). j \<le> rn_appliedIndex rn" using r(2,3) by auto
  have pos: "0 < rn_appliedIndex rn" using r(2) by simp
  from snapshot_then_restart [OF r(1) sample_codec_ok sample_lib_ok sample_interval pos le c]
  have "x = Inr ()" and "\<exists>rn2 s2. server_boot sample_lib sample_codec no_duration sample_cfg s1 = (Inr rn2, s2)
     \<and> kv_lookup (rn_store rn2) = kv_lookup (rn_store rn) \<and> rn_appliedIndex rn2 = 5" using r(2) by auto
  with r(1,2) c show ?thesis by blast
qed



text \<open>C40: the log on disk only grows: when the entries of a turn replace an earlier, uncommitted one of the same index, as
  they do after a change of leaders, a restart reads the replaced entry as well as its replacement and gives both to the
  library's storage.\<close>

theorem replaced_entry_survives:
  assumes "node_run L C H M PD cfg rn s" and "codec_ok C" and "lib_storage_ok L"
    and "parse_interval PD (cf_SnapshotInterval cfg) = Inr n" and "ready_ok C rd"
    and "handle_ready L C H M rd rn s = Some ((rn1, s1), posted)"
    and "e \<in> set (wal_entries (rn_wal rn))" and "e' \<in> set (rd_Entries rd)"
    and "en_Index e' = en_Index e" and "rn_appliedIndex rn1 < en_Index e"
  shows "\<exists>rn2 s2. server_boot L C PD cfg s1 = (Inr rn2, s2) \<and> {e, e'} \<subseteq> set (wal_entries (rn_wal rn2))"
proof -
  have inv: "node_inv C cfg rn s" by (rule node_run_inv [OF assms(1-4)])
  obtain rn0 s0 p0 where h: "handle_ready L C H M rd rn s = Some ((rn0, s0), p0)" "node_inv C cfg rn0 s0"
    "{e \<in> set (wal_entries (rn_wal rn) @ rd_Entries rd). rn_appliedIndex rn0 < en_Index e} \<subseteq> set (wal_entries (rn_wal rn0))"
    by (rule handle_ready_effect [OF inv assms(5), of L H M])
  with assms(6) have 1: "node_inv C cfg rn1 s1"
    "{e \<in> set (wal_entries (rn_wal rn) @ rd_Entries rd). rn_appliedIndex rn1 < en_Index e} \<subseteq> set (wal_entries (rn_wal rn1))"
    by simp_all
  then have both: "{e, e'} \<subseteq> set (wal_entries (rn_wal rn1))" using assms(7-10) by auto
  obtain rn2 s2 where "server_boot L C PD cfg s1 = (Inr rn2, s2)" "wal_entries (rn_wal rn2) = wal_entries (rn_wal rn1)"
    by (rule server_boot_ok [OF 1(1) assms(3,4)])
  with both show ?thesis by auto
qed

theorem replaced_entry_survives_witness:
  "\<exists>rn s rn1 s1 posted rn2 s2.
     node_run sample_lib sample_codec dead_client sample_msg_codec no_duration sample_cfg rn s
     \<and> handle_ready sample_lib sample_codec dead_client sample_msg_codec (uncommitted_ready 2) rn s = Some ((rn1, s1), posted)
     \<and> server_boot sample_lib sample_codec no_duration sample_cfg s1 = (Inr rn2, s2)
     \<and> {(sample_entry 5)\<lparr>en_Term := 1\<rparr>, (sample_entry 5)\<lparr>en_Term := 2\<rparr>} \<subseteq> set (wal_entries (rn_wal rn2))"
proof -
  obtain rn0 s0 where b: "server_boot sample_lib sample_codec no_duration sample_cfg (empty_fs (\<lambda>_. IoOk)) = (Inr rn0, s0)"
    "node_inv sample_codec sample_cfg rn0 s0" "rn_appliedIndex rn0 = 0"
    by (rule boot_ok [OF sample_codec_ok sample_lib_ok sample_interval])
  obtain rn s p where 1: "handle_ready sample_lib sample_codec dead_client sample_msg_codec (uncommitted_ready 1) rn0 s0
      = Some ((rn, s), p)" "node_inv sample_codec sample_cfg rn s" "rn_appliedIndex rn = 0"
    "(sample_entry 5)\<lparr>en_Term := 1\<rparr> \<in> set (wal_entries (rn_wal rn))" by (rule uncommitted_turn [OF b(2,3)])
  obtain rn1 s1 p1 where 2: "handle_ready sample_lib sample_codec dead_client sample_msg_codec (uncommitted_ready 2) rn s
      = Some ((rn1, s1), p1)" "rn_appliedIndex rn1 = 0" by (rule uncommitted_turn [OF 1(2,3)])
  have run: "node_run sample_lib sample_codec dead_client sample_msg_codec no_duration sample_cfg rn s"
    by (rule node_run.ready [OF node_run.boot [OF b(1)] uncommitted_ready_ok 1(1)])
  from replaced_entry_survives [OF run sample_codec_ok sample_lib_ok sample_interval uncommitted_ready_ok 2(1) 1(4),
      of "(sample_entry 5)\<lparr>en_Term := 2\<rparr>"] 2(2) run 2(1)
  show ?thesis by (fastforce simp: uncommitted_ready_def sample_entry_def)
qed

end
