(* ===== verification/ServerMain.thy ===== *)
theory ServerMain
  imports RaftNode_Runs
begin

text \<open>
  \<open>server/cmd/server/main.go\<close> as a process, with the servers of \<open>server/pkg/server\<close> (\<open>NewAPIServer\<close>, \<open>Start\<close>, \<open>Stop\<close> in \<open>api.go\<close>,
  \<open>NewAdminServer\<close>, \<open>Serve\<close>, \<open>Stop\<close> in \<open>admin.go\<close>). After the start there are three goroutines: one per server, which
  waits for its server to return and ends the process when it fails, and \<open>main\<close>, which waits for a signal, stops the
  node, then the API server, and returns. What happens is a sequence of events, in any order; what the HTTP and gRPC
  libraries do is what the events say.
\<close>

section \<open>The servers\<close>

text \<open>Of a server, its address and whether it has been stopped.\<close>

record APIServer =
  ap_addr :: string
  ap_stopped :: bool

definition NewAPIServer :: "string \<Rightarrow> APIServer" where
  "NewAPIServer addr = \<lparr>ap_addr = addr, ap_stopped = False\<rparr>"

definition APIServer_Stop :: "unit res \<Rightarrow> APIServer \<Rightarrow> unit res \<times> APIServer" where
  "APIServer_Stop shutdown a = (shutdown, a\<lparr>ap_stopped := True\<rparr>)"

record AdminServer =
  ad_addr :: string
  ad_stopped :: bool

definition NewAdminServer :: "string \<Rightarrow> AdminServer" where
  "NewAdminServer addr = \<lparr>ad_addr = addr, ad_stopped = False\<rparr>"

definition AdminServer_Stop :: "AdminServer \<Rightarrow> unit res \<times> AdminServer" where
  "AdminServer_Stop a = (Inr (), a\<lparr>ad_stopped := True\<rparr>)"

section \<open>The process\<close>

datatype main_pc = Waiting | StoppingNode | StoppingAPI | Exited nat

record 'r process =
  pr_main :: main_pc
  pr_node :: "'r RaftNode"
  pr_api :: APIServer
  pr_admin :: AdminServer
  pr_fs :: fs

definition launch :: "Config \<Rightarrow> 'r RaftNode \<Rightarrow> fs \<Rightarrow> 'r process" where
  "launch cfg node s =
     \<lparr>pr_main = Waiting, pr_node = node, pr_api = NewAPIServer (cf_APIAddr cfg),
      pr_admin = NewAdminServer (cf_AdminAddr cfg), pr_fs = s\<rparr>"

text \<open>
  From the command line to the running process, or to an exit code: what \<open>flag.Parse\<close> exits with, or 1 for \<open>log.Fatal\<close>.
\<close>

definition server_main ::
    "'r raft_lib \<Rightarrow> raft_codec \<Rightarrow> (string \<Rightarrow> i64 res) \<Rightarrow> (string \<Rightarrow> int res) \<Rightarrow> string res \<Rightarrow> string list \<Rightarrow> fs
       \<Rightarrow> nat + 'r process" where
  "server_main L C ParseDuration ParseInt hostname args s =
     (case parse_flags ParseInt args default_flags of
        Inl code \<Rightarrow> Inl code
      | Inr f \<Rightarrow>
          (case server_config hostname f of
             Inl _ \<Rightarrow> Inl 1
           | Inr cfg \<Rightarrow>
               (case server_boot L C ParseDuration cfg s of
                  (Inl _, s) \<Rightarrow> Inl 1
                | (Inr node, s) \<Rightarrow> Inr (launch cfg node s))))"

text \<open>
  The events: \<open>ListenAndServe\<close> of the API server returns, with \<open>ErrServerClosed\<close> (\<open>None\<close>) or an error; \<open>net.Listen\<close> for the
  administrative server returns; its \<open>Serve\<close> returns; a signal arrives; \<open>main\<close> goes on, with what the call it makes returns.
\<close>

datatype proc_event =
    ApiReturned "goerr option"
  | AdminListened "unit res"
  | AdminReturned "unit res"
  | Signal
  | MainStep "unit res"

fun fatal_event :: "proc_event \<Rightarrow> bool" where
  "fatal_event (ApiReturned e) \<longleftrightarrow> e \<noteq> None"
| "fatal_event (AdminListened r) \<longleftrightarrow> isl r"
| "fatal_event (AdminReturned r) \<longleftrightarrow> isl r"
| "fatal_event Signal \<longleftrightarrow> False"
| "fatal_event (MainStep r) \<longleftrightarrow> False"

fun main_step :: "'r raft_lib \<Rightarrow> proc_event \<Rightarrow> 'r process \<Rightarrow> 'r process" where
  "main_step L Signal p = (if pr_main p = Waiting then p\<lparr>pr_main := StoppingNode\<rparr> else p)"
| "main_step L (MainStep r) p =
     (if pr_main p = StoppingNode then
        (case server_shutdown L r (pr_node p) (pr_fs p) of
           (node, s) \<Rightarrow> p\<lparr>pr_main := StoppingAPI, pr_node := node, pr_fs := s\<rparr>)
      else if pr_main p = StoppingAPI then p\<lparr>pr_main := Exited 0, pr_api := snd (APIServer_Stop r (pr_api p))\<rparr>
      else p)"
| "main_step L _ p = p"

definition proc_step :: "'r raft_lib \<Rightarrow> proc_event \<Rightarrow> 'r process \<Rightarrow> 'r process" where
  "proc_step L ev p =
     (case pr_main p of
        Exited _ \<Rightarrow> p
      | _ \<Rightarrow> if fatal_event ev then p\<lparr>pr_main := Exited 1\<rparr> else main_step L ev p)"

section \<open>Invariant and progress\<close>

text \<open>What the events can do to a process launched with a node \<open>rn\<close>: how far \<open>main\<close> is says whether the node is stopped.\<close>

definition proc_inv :: "'r raft_lib \<Rightarrow> 'r RaftNode \<Rightarrow> fs \<Rightarrow> 'r process \<Rightarrow> bool" where
  "proc_inv L rn s p \<longleftrightarrow>
     (case pr_main p of
        Waiting \<Rightarrow> pr_node p = rn \<and> pr_fs p = s
      | StoppingNode \<Rightarrow> pr_node p = rn \<and> pr_fs p = s
      | StoppingAPI \<Rightarrow> (\<exists>r. (pr_node p, pr_fs p) = server_shutdown L r rn s)
      | Exited n \<Rightarrow> n = 1 \<and> (pr_node p, pr_fs p) = (rn, s)
          \<or> n \<le> 1 \<and> (\<exists>r. (pr_node p, pr_fs p) = server_shutdown L r rn s))
     \<and> (pr_main p = Exited 0 \<longrightarrow> ap_stopped (pr_api p)) \<and> \<not> ad_stopped (pr_admin p)"

text \<open>How far the shutdown has come.\<close>

fun progress :: "main_pc \<Rightarrow> nat" where
  "progress Waiting = 0"
| "progress StoppingNode = 1"
| "progress StoppingAPI = 2"
| "progress (Exited n) = 3"

definition sample_args :: "string list" where
  "sample_args = [''--id'', ''kv-0'', ''-data-dir=/data'']"

section \<open>Lemmas\<close>

lemma proc_inv_launch: "proc_inv L rn s (launch cfg rn s)"
  by (simp add: proc_inv_def launch_def NewAdminServer_def)

lemma proc_inv_step: "proc_inv L rn s p \<Longrightarrow> proc_inv L rn s (proc_step L ev p)"
  by (cases ev; cases "pr_main p")
    (auto simp: proc_inv_def proc_step_def APIServer_Stop_def split: prod.split, metis+)

interpretation proc: stepping "proc_step L" "proc_inv L rn s" for L rn s
  by unfold_locales (rule proc_inv_step)

lemma proc_step_progress:
  assumes "\<not> fatal_event ev" and "pr_main p \<noteq> Exited 1"
  shows "progress (pr_main p) \<le> progress (pr_main (proc_step L ev p))" and "pr_main (proc_step L ev p) \<noteq> Exited 1"
    and "ev = Signal \<Longrightarrow> 1 \<le> progress (pr_main (proc_step L ev p))"
    and "\<exists>r. ev = MainStep r \<Longrightarrow> 1 \<le> progress (pr_main p)
      \<Longrightarrow> min 3 (Suc (progress (pr_main p))) \<le> progress (pr_main (proc_step L ev p))"
  using assms by (cases ev; cases "pr_main p"; auto simp: proc_step_def split: prod.split)+

lemma proc_steps_progress:
  assumes "list_all (\<lambda>ev. \<not> fatal_event ev) evs" and "pr_main p \<noteq> Exited 1"
  shows "progress (pr_main p) \<le> progress (pr_main (fold (proc_step L) evs p)) \<and> pr_main (fold (proc_step L) evs p) \<noteq> Exited 1"
  using assms
proof (induction evs arbitrary: p)
  case (Cons ev evs)
  then show ?case
    using proc_step_progress [of ev p L] Cons.IH [of "proc_step L ev p"] by fastforce
qed simp

lemma server_main_iff:
  assumes "parse_flags PI args default_flags = Inr f" and "server_config host f = Inr cfg"
    and "server_boot L C PD cfg s = (Inr rn, s')"
  shows "server_main L C PD PI host args s = Inr (launch cfg rn s')"
  using assms by (simp add: server_main_def)

lemma sample_args_cfg:
  "\<exists>f. parse_flags (\<lambda>_. Inl ErrIO) sample_args default_flags = Inr f \<and> server_config (Inl ErrIO) f = Inr sample_cfg"
  by (simp add: sample_args_def server_flag_defs default_flags_def server_config_def sample_cfg_def)

section \<open>Properties\<close>



text \<open>The shutdown completes: unless a server fails, a process that gets a signal and whose \<open>main\<close> then goes on twice
  has exited with code 0, whatever else happens in between.\<close>

theorem shutdown_completes:
  assumes "list_all (\<lambda>ev. \<not> fatal_event ev) (e1 @ e2 @ e3 @ e4)"
  shows "pr_main (fold (proc_step L) (e1 @ Signal # e2 @ MainStep r # e3 @ MainStep r' # e4) (launch cfg rn s)) = Exited 0"
proof -
  let ?run = "fold (proc_step L)" and ?p0 = "launch cfg rn s"
  let ?p1 = "proc_step L Signal (?run e1 ?p0)"
  let ?p2 = "proc_step L (MainStep r) (?run e2 ?p1)"
  let ?p3 = "proc_step L (MainStep r') (?run e3 ?p2)"
  let ?p4 = "?run e4 ?p3"
  have e: "list_all (\<lambda>ev. \<not> fatal_event ev) e1" "list_all (\<lambda>ev. \<not> fatal_event ev) e2"
    "list_all (\<lambda>ev. \<not> fatal_event ev) e3" "list_all (\<lambda>ev. \<not> fatal_event ev) e4"
    using assms by auto
  have p1: "pr_main ?p1 \<noteq> Exited 1" "1 \<le> progress (pr_main ?p1)"
    using proc_steps_progress [OF e(1), of ?p0 L] proc_step_progress [of Signal "?run e1 ?p0" L] by (auto simp: launch_def)
  have p2: "pr_main ?p2 \<noteq> Exited 1" "2 \<le> progress (pr_main ?p2)"
    using p1 proc_steps_progress [OF e(2) p1(1), of L] proc_step_progress [of "MainStep r" "?run e2 ?p1" L] by auto
  have p3: "pr_main ?p3 \<noteq> Exited 1" "3 \<le> progress (pr_main ?p3)"
    using p2 proc_steps_progress [OF e(3) p2(1), of L] proc_step_progress [of "MainStep r'" "?run e3 ?p2" L] by auto
  have "pr_main ?p4 \<noteq> Exited 1" "3 \<le> progress (pr_main ?p4)"
    using p3 proc_steps_progress [OF e(4) p3(1), of L] by auto
  moreover have "proc_inv L rn s ?p4"
    by (intro proc.run_inv proc_inv_step proc_inv_launch)
  ultimately have "pr_main ?p4 = Exited 0"
    by (cases "pr_main ?p4") (auto simp: proc_inv_def le_Suc_eq)
  then show ?thesis
    by simp
qed

theorem shutdown_completes_witness:
  "pr_main (fold (proc_step sample_lib)
     ([] @ Signal # [AdminListened (Inr ())] @ MainStep (Inl ErrIO) # [Signal] @ MainStep (Inr ()) # [ApiReturned None])
     (launch sample_cfg sample_node s)) = Exited 0"
  by (rule shutdown_completes) simp

end
