(* ===== verification/Proposals.thy ===== *)
theory Proposals
  imports RaftNode_Spec
begin

text \<open>
  \<open>ProposeAndWait\<close> of \<open>server/pkg/raftnode/raftnode.go\<close> as concurrent code: every request runs in a goroutine of
  its own, next to the event loop, and the steps between two synchronisations of a call are interleaved with those
  of all others. A call is numbered, and its number is that of the channel it creates.

  The event loop applies an entry and sets the applied index in one step and notifies the waiter in the next, so a
  call can read the new index in between. The other parts of a turn, and the calls of the transport and of the
  administrative service, do not touch the waiters; they are steps as well.
\<close>

section \<open>The steps of a call\<close>

datatype pw_state = PWStart | PWLeader | PWProposed | PWRead | PWWait | PWExpired | PWDone "goerr option"

record pw_call =
  pw_data :: bytes
  pw_expected :: u64
  pw_pc :: pw_state

definition pw_check_leader :: "'r RaftNode \<Rightarrow> pw_call \<Rightarrow> pw_call" where
  "pw_check_leader rn c =
     c\<lparr>pw_pc := (if RN_IsLeader rn then PWLeader else PWDone (Some (Errorf ''not the leader'')))\<rparr>"

definition pw_propose :: "'r raft_lib \<Rightarrow> 'r RaftNode \<Rightarrow> pw_call \<Rightarrow> 'r RaftNode \<times> pw_call" where
  "pw_propose L rn c =
     (case RN_Propose L (pw_data c) rn of
        (Inl e, rn) \<Rightarrow> (rn, c\<lparr>pw_pc := PWDone (Some (Wrap ''failed to propose'' e))\<rparr>)
      | (Inr _, rn) \<Rightarrow> (rn, c\<lparr>pw_pc := PWProposed\<rparr>))"

text \<open>\<open>expectedIndex := rn.appliedIndex + 1\<close>, read without a lock, in 64-bit arithmetic.\<close>

definition pw_read :: "'r RaftNode \<Rightarrow> pw_call \<Rightarrow> pw_call" where
  "pw_read rn c = c\<lparr>pw_expected := rn_appliedIndex rn + 1, pw_pc := PWRead\<rparr>"

definition pw_register :: "nat \<Rightarrow> 'r RaftNode \<Rightarrow> pw_call \<Rightarrow> 'r RaftNode \<times> pw_call" where
  "pw_register i rn c =
     (rn\<lparr>rn_proposals := AList.update (pw_expected c) i (rn_proposals rn)\<rparr>, c\<lparr>pw_pc := PWWait\<rparr>)"

text \<open>The two branches of the \<open>select\<close>: a received error, and an expired context with its clean-up.\<close>

definition pw_receive :: "nat \<Rightarrow> 'r RaftNode \<Rightarrow> pw_call \<Rightarrow> ('r RaftNode \<times> pw_call) option" where
  "pw_receive i rn c =
     (case map_of (rn_chans rn) i of
        None \<Rightarrow> None
      | Some err \<Rightarrow> Some (rn\<lparr>rn_chans := AList.delete i (rn_chans rn)\<rparr>, c\<lparr>pw_pc := PWDone err\<rparr>))"

definition pw_cleanup :: "'r RaftNode \<Rightarrow> pw_call \<Rightarrow> 'r RaftNode \<times> pw_call" where
  "pw_cleanup rn c =
     (rn\<lparr>rn_proposals := AList.delete (pw_expected c) (rn_proposals rn)\<rparr>, c\<lparr>pw_pc := PWDone (Some ErrDeadline)\<rparr>)"

text \<open>
  The whole call, given what happens while it waits: the state of the node when the \<open>select\<close> fires, and whether
  the branch of the expired context is taken. Without either branch ready the call does not return.
\<close>

definition ProposeAndWait ::
    "'r raft_lib \<Rightarrow> ('r RaftNode \<Rightarrow> 'r RaftNode \<times> bool) \<Rightarrow> nat \<Rightarrow> bytes \<Rightarrow> 'r RaftNode
       \<Rightarrow> (goerr option \<times> 'r RaftNode) option" where
  "ProposeAndWait L wait i data rn =
     (case pw_check_leader rn \<lparr>pw_data = data, pw_expected = 0, pw_pc = PWStart\<rparr> of c \<Rightarrow>
      if pw_pc c \<noteq> PWLeader then Some (Some (Errorf ''not the leader''), rn)
      else case pw_propose L rn c of (rn, c) \<Rightarrow>
        (case pw_pc c of
           PWDone err \<Rightarrow> Some (err, rn)
         | _ \<Rightarrow>
             (case pw_register i rn (pw_read rn c) of (rn, c) \<Rightarrow>
              case wait rn of (rn, expired) \<Rightarrow>
                if expired then Some (Some ErrDeadline, fst (pw_cleanup rn c))
                else (case map_of (rn_chans rn) i of
                        None \<Rightarrow> None
                      | Some err \<Rightarrow> Some (err, rn\<lparr>rn_chans := AList.delete i (rn_chans rn)\<rparr>)))))"

section \<open>Calls and event loop together\<close>

record 'r proposal_sys =
  ps_node :: "'r RaftNode"
  ps_calls :: "nat \<Rightarrow> pw_call"
  ps_pending :: "u64 option"  \<comment> \<open>applied, the waiter not yet notified\<close>
  ps_applied :: "raft_Entry list"

text \<open>The parts of a turn and the other calls that reach the node.\<close>

inductive node_part :: "'r raft_lib \<Rightarrow> raft_codec \<Rightarrow> 'r RaftNode \<Rightarrow> 'r RaftNode \<Rightarrow> bool" for L C where
  save: "node_part L C rn (fst (ready_save L C rd rn s))"
| snapshot: "node_part L C rn (ready_snapshot L C rd rn)"
| compact: "node_part L C rn (fst (ready_compact C rn s))"
| leader: "node_part L C rn (ready_leader rd rn)"
| advance: "node_part L C rn (rn\<lparr>rn_raft := rl_Advance L (rn_raft rn)\<rparr>)"
| process: "node_part L C rn (snd (RN_Process L m rn))"
| conf_change: "node_part L C rn (snd (RN_ProposeConfChange L cc rn))"
| transfer: "node_part L C rn (RN_TransferLeadership L target rn)"

definition set_call :: "nat \<Rightarrow> 'r RaftNode \<times> pw_call \<Rightarrow> 'r proposal_sys \<Rightarrow> 'r proposal_sys" where
  "set_call i nc s = s\<lparr>ps_node := fst nc, ps_calls := (ps_calls s)(i := snd nc)\<rparr>"

inductive sys_step :: "'r raft_lib \<Rightarrow> raft_codec \<Rightarrow> 'r proposal_sys \<Rightarrow> 'r proposal_sys \<Rightarrow> bool" for L C where
  check: "pw_pc (ps_calls s i) = PWStart \<Longrightarrow>
     sys_step L C s (set_call i (ps_node s, pw_check_leader (ps_node s) (ps_calls s i)) s)"
| propose: "pw_pc (ps_calls s i) = PWLeader \<Longrightarrow>
     sys_step L C s (set_call i (pw_propose L (ps_node s) (ps_calls s i)) s)"
| read: "pw_pc (ps_calls s i) = PWProposed \<Longrightarrow>
     sys_step L C s (set_call i (ps_node s, pw_read (ps_node s) (ps_calls s i)) s)"
| register: "pw_pc (ps_calls s i) = PWRead \<Longrightarrow>
     sys_step L C s (set_call i (pw_register i (ps_node s) (ps_calls s i)) s)"
| receive: "pw_pc (ps_calls s i) = PWWait \<Longrightarrow> pw_receive i (ps_node s) (ps_calls s i) = Some nc \<Longrightarrow>
     sys_step L C s (set_call i nc s)"
| expire: "pw_pc (ps_calls s i) = PWWait \<Longrightarrow>
     sys_step L C s (set_call i (ps_node s, (ps_calls s i)\<lparr>pw_pc := PWExpired\<rparr>) s)"
| cleanup: "pw_pc (ps_calls s i) = PWExpired \<Longrightarrow>
     sys_step L C s (set_call i (pw_cleanup (ps_node s) (ps_calls s i)) s)"
| apply_one: "ps_pending s = None \<Longrightarrow> applyEntry L C e (ps_node s) = Some (r, rn) \<Longrightarrow>
     sys_step L C s (s\<lparr>ps_node := rn\<lparr>rn_appliedIndex := en_Index e\<rparr>, ps_pending := Some (en_Index e),
       ps_applied := ps_applied s @ [e]\<rparr>)"
| notify: "ps_pending s = Some k \<Longrightarrow>
     sys_step L C s (s\<lparr>ps_node := notifyProposal k None (ps_node s), ps_pending := None\<rparr>)"
| part: "node_part L C (ps_node s) rn \<Longrightarrow> sys_step L C s (s\<lparr>ps_node := rn\<rparr>)"

text \<open>A node without waiters, and calls that have not begun.\<close>

definition sys_init :: "'r RaftNode \<Rightarrow> (nat \<Rightarrow> bytes) \<Rightarrow> 'r proposal_sys" where
  "sys_init rn data =
     \<lparr>ps_node = rn\<lparr>rn_proposals := [], rn_chans := []\<rparr>,
      ps_calls = (\<lambda>i. \<lparr>pw_data = data i, pw_expected = 0, pw_pc = PWStart\<rparr>),
      ps_pending = None, ps_applied = []\<rparr>"

text \<open>The state after a notification.\<close>

abbreviation notified :: "u64 \<Rightarrow> 'r proposal_sys \<Rightarrow> 'r proposal_sys" where
  "notified k s \<equiv> s\<lparr>ps_node := notifyProposal k None (ps_node s), ps_pending := None\<rparr>"

abbreviation sys_run :: "'r raft_lib \<Rightarrow> raft_codec \<Rightarrow> 'r proposal_sys \<Rightarrow> 'r proposal_sys \<Rightarrow> bool" where
  "sys_run L C \<equiv> (sys_step L C)\<^sup>*\<^sup>*"

section \<open>Invariant\<close>

text \<open>
  A registered call is waiting (or about to clean up) at the index it is registered for, and its channel is empty.
  A filled channel holds nil, belongs to a call that has registered, and an entry of its index has been applied;
  the same holds of a call that returned nil.
\<close>

definition registered_ok :: "'r proposal_sys \<Rightarrow> bool" where
  "registered_ok s \<longleftrightarrow>
     (\<forall>e i. map_of (rn_proposals (ps_node s)) e = Some i \<longrightarrow>
        pw_pc (ps_calls s i) \<in> {PWWait, PWExpired} \<and> pw_expected (ps_calls s i) = e
        \<and> map_of (rn_chans (ps_node s)) i = None)"

definition answered_ok :: "'r proposal_sys \<Rightarrow> bool" where
  "answered_ok s \<longleftrightarrow>
     (\<forall>i err. map_of (rn_chans (ps_node s)) i = Some err \<longrightarrow>
        err = None \<and> pw_pc (ps_calls s i) \<notin> {PWStart, PWLeader, PWProposed, PWRead}
        \<and> pw_expected (ps_calls s i) \<in> en_Index ` set (ps_applied s))
   \<and> (\<forall>i. pw_pc (ps_calls s i) = PWDone None \<longrightarrow> pw_expected (ps_calls s i) \<in> en_Index ` set (ps_applied s))
   \<and> (\<forall>k. ps_pending s = Some k \<longrightarrow> k \<in> en_Index ` set (ps_applied s))"

text \<open>A waiting call that nobody will answer: it is not registered, and its channel is empty.\<close>

definition starved :: "nat \<Rightarrow> 'r proposal_sys \<Rightarrow> bool" where
  "starved i s \<longleftrightarrow>
     pw_pc (ps_calls s i) = PWDone (Some ErrDeadline)
   \<or> (pw_pc (ps_calls s i) \<in> {PWWait, PWExpired} \<and> map_of (rn_chans (ps_node s)) i = None
      \<and> i \<notin> ran (map_of (rn_proposals (ps_node s))))"

section \<open>Lemmas\<close>

lemma set_call_simps [simp]:
  "ps_node (set_call i nc s) = fst nc" "ps_calls (set_call i nc s) = (ps_calls s)(i := snd nc)"
  "ps_pending (set_call i nc s) = ps_pending s" "ps_applied (set_call i nc s) = ps_applied s"
  by (simp_all add: set_call_def)

lemma createSnapshot_waiters:
  "rn_proposals (fst (snd (createSnapshot C rn s))) = rn_proposals rn"
  "rn_chans (fst (snd (createSnapshot C rn s))) = rn_chans rn"
  by (auto simp: createSnapshot_def Let_def split: sum.split prod.split)

lemma node_part_waiters:
  "node_part L C rn rn' \<Longrightarrow> rn_proposals rn' = rn_proposals rn \<and> rn_chans rn' = rn_chans rn"
proof (induction rule: node_part.induct)
  case (compact rn s)
  show ?case
    using createSnapshot_waiters [of C rn s] by (auto simp: ready_compact_def split: prod.split)
qed (auto simp: ready_save_def ready_snapshot_def ready_leader_def RN_Process_def RN_ProposeConfChange_def
    RN_TransferLeadership_def Let_def split: prod.split option.split)

lemma pw_propose_waiters:
  assumes "pw_propose L rn c = (rn', c')"
  shows "rn_proposals rn' = rn_proposals rn" "rn_chans rn' = rn_chans rn"
    and "pw_data c' = pw_data c" "pw_expected c' = pw_expected c" "pw_pc c' \<notin> {PWWait, PWExpired, PWDone None}"
  using assms by (auto simp: pw_propose_def RN_Propose_def split: prod.splits sum.splits)

lemma applyEntry_waiters:
  assumes "applyEntry L C e rn = Some (r, rn')"
  shows "rn_proposals rn' = rn_proposals rn \<and> rn_chans rn' = rn_chans rn"
  using assms
  by (auto simp: applyEntry_def apply_conf_change_def Let_def split: raft_EntryType.splits option.splits sum.splits if_splits)

lemma early_channel:
  assumes "answered_ok s" and "pw_pc (ps_calls s i) \<in> {PWStart, PWLeader, PWProposed, PWRead}"
  shows "map_of (rn_chans (ps_node s)) i = None"
  using assms by (cases "map_of (rn_chans (ps_node s)) i") (auto simp: answered_ok_def)

lemma registered_okD:
  assumes "registered_ok s" and "map_of (rn_proposals (ps_node s)) e = Some i"
  shows "pw_pc (ps_calls s i) = PWWait \<or> pw_pc (ps_calls s i) = PWExpired" and "pw_expected (ps_calls s i) = e"
    and "map_of (rn_chans (ps_node s)) i = None"
  using assms unfolding registered_ok_def by blast+

lemma early_unregistered:
  assumes "registered_ok s" and "pw_pc (ps_calls s i) \<notin> {PWWait, PWExpired}"
  shows "map_of (rn_proposals (ps_node s)) e \<noteq> Some i"
  using assms by (auto simp: registered_ok_def)

lemma notify_registered:
  assumes "registered_ok s"
  shows "registered_ok (notified k s)"
  unfolding registered_ok_def
proof (intro allI impI)
  fix e i
  assume "map_of (rn_proposals (ps_node (notified k s))) e = Some i"
  then have e: "map_of (rn_proposals (ps_node s)) e = Some i" "e \<noteq> k"
    by (auto simp: notify_proposals split: if_splits)
  note reg = registered_okD [OF assms e(1)]
  have "map_of (rn_proposals (ps_node s)) k \<noteq> Some i" using registered_okD(2) [OF assms] reg(2) e(2) by blast
  with reg show "pw_pc (ps_calls (notified k s) i) \<in> {PWWait, PWExpired} \<and> pw_expected (ps_calls (notified k s) i) = e
      \<and> map_of (rn_chans (ps_node (notified k s))) i = None"
    by (auto simp: notify_chans)
qed

lemma notify_answered:
  assumes reg: "registered_ok s" and ans: "answered_ok s" and k: "ps_pending s = Some k"
  shows "answered_ok (notified k s)"
proof -
  have "err = None \<and> pw_pc (ps_calls s i) \<notin> {PWStart, PWLeader, PWProposed, PWRead}
        \<and> pw_expected (ps_calls s i) \<in> en_Index ` set (ps_applied s)"
    if ch: "map_of (rn_chans (notifyProposal k None (ps_node s))) i = Some err" for i err
  proof -
    consider "map_of (rn_chans (ps_node s)) i = Some err" | "map_of (rn_proposals (ps_node s)) k = Some i" "err = None"
      using ch by (auto simp: notify_chans split: if_splits)
    then show ?thesis
    proof cases
      case 1
      with ans show ?thesis by (simp add: answered_ok_def)
    next
      case 2
      with ans k registered_okD [OF reg 2(1)] show ?thesis by (auto simp: answered_ok_def)
    qed
  qed
  then show ?thesis using ans by (simp add: answered_ok_def)
qed

lemma step_registered:
  assumes "sys_step L C s t" and "registered_ok s" and "answered_ok s"
  shows "registered_ok t"
  using assms
proof (cases rule: sys_step.cases)
  case (check i)
  then show ?thesis using assms(2) by (fastforce simp: registered_ok_def pw_check_leader_def)
next
  case (propose i)
  obtain rn c where pp: "pw_propose L (ps_node s) (ps_calls s i) = (rn, c)" by fastforce
  from propose pw_propose_waiters [OF pp] show ?thesis
    using assms(2) early_unregistered [OF assms(2), of i] by (auto simp: registered_ok_def pp)
next
  case (read i)
  then show ?thesis using assms(2) by (fastforce simp: registered_ok_def pw_read_def)
next
  case (register i)
  then show ?thesis using assms(2) early_channel [OF assms(3), of i]
    by (fastforce simp: registered_ok_def pw_register_def update_conv' split: if_splits)
next
  case (receive i nc)
  then show ?thesis using assms(2)
    by (fastforce simp: registered_ok_def pw_receive_def delete_conv' split: option.splits)
next
  case (expire i)
  then show ?thesis using assms(2) by (fastforce simp: registered_ok_def)
next
  case (cleanup i)
  then show ?thesis using assms(2)
    by (fastforce simp: registered_ok_def pw_cleanup_def delete_conv' split: if_splits)
next
  case (apply_one e r rn)
  then show ?thesis using assms(2) applyEntry_waiters [OF apply_one(3)] by (simp add: registered_ok_def)
next
  case (notify k)
  then show ?thesis using notify_registered [OF assms(2)] by simp
next
  case (part rn)
  then show ?thesis using assms(2) node_part_waiters [OF part(2)] by (simp add: registered_ok_def)
qed

lemma step_answered:
  assumes "sys_step L C s t" and "registered_ok s" and "answered_ok s"
  shows "answered_ok t"
  using assms
proof (cases rule: sys_step.cases)
  case (check i)
  then show ?thesis using assms(3) early_channel [OF assms(3), of i]
    by (auto simp: answered_ok_def pw_check_leader_def)
next
  case (propose i)
  obtain rn c where pp: "pw_propose L (ps_node s) (ps_calls s i) = (rn, c)" by fastforce
  from propose pw_propose_waiters [OF pp] show ?thesis
    using assms(3) early_channel [OF assms(3), of i] by (auto simp: answered_ok_def pp)
next
  case (read i)
  then show ?thesis using assms(3) early_channel [OF assms(3), of i] by (auto simp: answered_ok_def pw_read_def)
next
  case (register i)
  then show ?thesis using assms(3) by (fastforce simp: answered_ok_def pw_register_def)
next
  case (receive i nc)
  then show ?thesis using assms(3)
    by (fastforce simp: answered_ok_def pw_receive_def delete_conv' split: option.splits if_splits)
next
  case (expire i)
  then show ?thesis using assms(3) by (fastforce simp: answered_ok_def)
next
  case (cleanup i)
  then show ?thesis using assms(3) by (fastforce simp: answered_ok_def pw_cleanup_def)
next
  case (apply_one e r rn)
  then show ?thesis using assms(3) applyEntry_waiters [OF apply_one(3)] by (fastforce simp: answered_ok_def)
next
  case (notify k)
  then show ?thesis using notify_answered [OF assms(2,3)] by simp
next
  case (part rn)
  then show ?thesis using assms(3) node_part_waiters [OF part(2)] by (simp add: answered_ok_def)
qed

lemma run_invariant:
  assumes "sys_run L C (sys_init rn data) s"
  shows "registered_ok s" and "answered_ok s"
proof -
  from assms have "registered_ok s \<and> answered_ok s"
  proof (induction rule: rtranclp_induct)
    case base
    show ?case by (simp add: sys_init_def registered_ok_def answered_ok_def)
  next
    case (step s t)
    then show ?case using step_registered step_answered by blast
  qed
  then show "registered_ok s" "answered_ok s" by blast+
qed

lemma starved_step:
  assumes "sys_step L C s t" and "starved i s"
  shows "starved i t"
  using assms
proof (cases rule: sys_step.cases)
  case (propose j)
  obtain rn c where pp: "pw_propose L (ps_node s) (ps_calls s j) = (rn, c)" by fastforce
  from propose pw_propose_waiters [OF pp] show ?thesis using assms(2) by (auto simp: starved_def pp)
next
  case (apply_one e r rn)
  then show ?thesis using assms(2) applyEntry_waiters [OF apply_one(3)] by (simp add: starved_def)
next
  case (notify k)
  then show ?thesis using assms(2) by (auto simp: starved_def notify_chans notify_proposals ran_def split: if_splits)
next
  case (part rn)
  then show ?thesis using assms(2) node_part_waiters [OF part(2)] by (simp add: starved_def)
qed (use assms(2) in \<open>auto simp: starved_def pw_check_leader_def pw_read_def pw_register_def pw_receive_def
    pw_cleanup_def update_conv' delete_conv' ran_def split: option.splits if_splits\<close>)

lemma starved_run: "sys_run L C s t \<Longrightarrow> starved i s \<Longrightarrow> starved i t"
  by (induction rule: rtranclp_induct) (blast intro: starved_step)+

text \<open>The loop of a turn over its committed entries is a run of the system.\<close>

lemma apply_committed_is_run:
  "apply_committed L C es (ps_node s) = Some rn \<Longrightarrow> ps_pending s = None \<Longrightarrow>
   sys_run L C s (s\<lparr>ps_node := rn, ps_applied := ps_applied s @ es\<rparr>)"
proof (induction es arbitrary: s)
  case Nil
  then have "s\<lparr>ps_node := rn, ps_applied := ps_applied s @ []\<rparr> = s" by simp
  then show ?case by (simp only:)
next
  case (Cons e es)
  obtain r rn1 where e: "applyEntry L C e (ps_node s) = Some (r, rn1)"
    using Cons.prems(1) by (auto split: option.splits)
  let ?s1 = "s\<lparr>ps_node := rn1\<lparr>rn_appliedIndex := en_Index e\<rparr>, ps_pending := Some (en_Index e),
    ps_applied := ps_applied s @ [e]\<rparr>"
  let ?s2 = "?s1\<lparr>ps_node := notifyProposal (en_Index e) None (ps_node ?s1), ps_pending := None\<rparr>"
  have s1: "sys_step L C s ?s1" by (rule sys_step.apply_one [OF Cons.prems(2) e])
  have s2: "sys_step L C ?s1 ?s2" by (rule sys_step.notify) simp
  have run: "sys_run L C ?s2 (?s2\<lparr>ps_node := rn, ps_applied := ps_applied ?s2 @ es\<rparr>)"
    using Cons.prems e by (intro Cons.IH) simp_all
  have eq: "?s2\<lparr>ps_node := rn, ps_applied := ps_applied ?s2 @ es\<rparr> = s\<lparr>ps_node := rn, ps_applied := ps_applied s @ e # es\<rparr>"
    using Cons.prems(2) by simp
  from converse_rtranclp_into_rtranclp [OF s1 converse_rtranclp_into_rtranclp [OF s2 run]] show ?case
    unfolding eq .
qed

lemma registered_waiters_ok: "registered_ok s \<Longrightarrow> waiters_ok (ps_node s)"
  unfolding waiters_ok_def using registered_okD(2, 3) by metis

text \<open>The steps of a call up to its registration, on a leader whose library accepts the proposal.\<close>

lemma call_reads:
  assumes "pw_pc (ps_calls s i) = PWStart" and "rn_isLeader (ps_node s)"
    and "rl_Propose L (pw_data (ps_calls s i)) (rn_raft (ps_node s)) = (Inr u, r)"
  shows "sys_run L C s (set_call i ((ps_node s)\<lparr>rn_raft := r\<rparr>,
    (ps_calls s i)\<lparr>pw_expected := rn_appliedIndex (ps_node s) + 1, pw_pc := PWRead\<rparr>) s)"
proof -
  let ?c = "ps_calls s i" and ?rn = "ps_node s"
  let ?s1 = "set_call i (?rn, ?c\<lparr>pw_pc := PWLeader\<rparr>) s"
  let ?s2 = "set_call i (?rn\<lparr>rn_raft := r\<rparr>, ?c\<lparr>pw_pc := PWProposed\<rparr>) s"
  let ?s3 = "set_call i (?rn\<lparr>rn_raft := r\<rparr>, ?c\<lparr>pw_expected := rn_appliedIndex ?rn + 1, pw_pc := PWRead\<rparr>) s"
  have "sys_step L C s ?s1"
    using sys_step.check [of s i L C] assms(1, 2) by (simp add: pw_check_leader_def RN_IsLeader_def)
  moreover have "sys_step L C ?s1 ?s2"
    using sys_step.propose [of ?s1 i L C] assms(3) by (simp add: pw_propose_def RN_Propose_def set_call_def)
  moreover have "sys_step L C ?s2 ?s3"
    using sys_step.read [of ?s2 i L C] by (simp add: pw_read_def set_call_def)
  ultimately show ?thesis by (meson converse_rtranclp_into_rtranclp r_into_rtranclp)
qed

text \<open>A registered call is answered by the loop, and can then receive the answer.\<close>

lemma registered_call_run:
  assumes "sys_run L C (sys_init rn data) s" and "pw_pc (ps_calls s i) = PWWait" and "ps_pending s = None"
    and "map_of (rn_proposals (ps_node s)) (pw_expected (ps_calls s i)) = Some i" and "kv_ok (rn_store (ps_node s))"
    and "pw_expected (ps_calls s i) \<in> en_Index ` set es"
  shows "\<exists>t. sys_run L C s t \<and> pw_pc (ps_calls t i) = PWDone None \<and> ps_applied t = ps_applied s @ es"
proof -
  obtain rn' where ap: "apply_committed L C es (ps_node s) = Some rn'" using apply_committed_run [OF assms(5)] by blast
  let ?t = "s\<lparr>ps_node := rn', ps_applied := ps_applied s @ es\<rparr>"
  have "map_of (rn_chans rn') i = Some None"
    using waiters_run [OF assms(5) ap registered_waiters_ok [OF run_invariant(1) [OF assms(1)]] assms(4)] assms(6) by simp
  then have rc: "pw_receive i (ps_node ?t) (ps_calls ?t i) = Some (rn'\<lparr>rn_chans := AList.delete i (rn_chans rn')\<rparr>,
      (ps_calls s i)\<lparr>pw_pc := PWDone None\<rparr>)" (is "_ = Some ?nc") by (simp add: pw_receive_def)
  have "sys_run L C s ?t" by (rule apply_committed_is_run [OF ap assms(3)])
  moreover have "sys_step L C ?t (set_call i ?nc ?t)" by (rule sys_step.receive [OF _ rc]) (simp add: assms(2))
  ultimately have "sys_run L C s (set_call i ?nc ?t)" by (rule rtranclp.rtrancl_into_rtrancl)
  then show ?thesis by (intro exI [of _ "set_call i ?nc ?t"]) simp
qed

text \<open>Two calls on the sample node: the first waits at index 5, the second has read the same index.\<close>

definition pair_state :: "unit proposal_sys" where
  "pair_state =
     (sys_init sample_node (\<lambda>i. dec i))\<lparr>ps_node := sample_node\<lparr>rn_proposals := [(5, 0)], rn_chans := []\<rparr>,
       ps_calls := (\<lambda>i. \<lparr>pw_data = dec i, pw_expected = 0, pw_pc = PWStart\<rparr>)
         (0 := \<lparr>pw_data = dec 0, pw_expected = 5, pw_pc = PWWait\<rparr>,
          1 := \<lparr>pw_data = dec 1, pw_expected = 5, pw_pc = PWRead\<rparr>)\<rparr>"

lemma pair_run: "sys_run sample_lib C (sys_init sample_node (\<lambda>i. dec i)) pair_state"
proof -
  let ?s0 = "sys_init sample_node (\<lambda>i. dec i)"
  let ?s1 = "set_call 0 (ps_node ?s0, (ps_calls ?s0 0)\<lparr>pw_expected := 5, pw_pc := PWRead\<rparr>) ?s0"
  let ?s2 = "set_call 0 (pw_register 0 (ps_node ?s1) (ps_calls ?s1 0)) ?s1"
  have "sys_run sample_lib C ?s0 ?s1"
    using call_reads [of ?s0 0 sample_lib _ _ C] by (simp add: sys_init_def sample_node_def sample_lib_def)
  moreover have "sys_step sample_lib C ?s1 ?s2" by (rule sys_step.register) simp
  moreover have "sys_run sample_lib C ?s2 pair_state"
    using call_reads [of ?s2 1 sample_lib _ _ C]
    by (simp add: sys_init_def sample_node_def sample_lib_def pair_state_def pw_register_def set_call_def)
  ultimately show ?thesis by (meson rtranclp.rtrancl_into_rtrancl rtranclp_trans)
qed

lemma pair_answer:
  "\<exists>t. sys_run sample_lib sample_codec pair_state t \<and> pw_pc (ps_calls t 0) = PWDone None
     \<and> ps_applied t = [sample_put 5 ''k'' ''v'']"
  using registered_call_run [OF pair_run, of 0 "[sample_put 5 ''k'' ''v'']" sample_codec]
  by (simp add: pair_state_def sys_init_def sample_node_def kv_ok_def NewKVStore_def sample_put_def)

lemma run_keeps_data: "sys_run L C s t \<Longrightarrow> pw_data (ps_calls t i) = pw_data (ps_calls s i)"
proof (induction rule: rtranclp_induct)
  case (step s t)
  have "pw_data (ps_calls t i) = pw_data (ps_calls s i)"
    using step(2)
  proof (cases rule: sys_step.cases)
    case (propose j)
    then show ?thesis by (auto simp: pw_propose_def split: prod.splits sum.splits)
  qed (auto simp: pw_check_leader_def pw_read_def pw_register_def pw_receive_def pw_cleanup_def split: option.splits)
  with step show ?case by simp
qed simp

section \<open>Properties\<close>

text \<open>C9: in every interleaving of calls and event loop, a call that returns without an error was answered for the
  index it expected: an entry of that index has been applied.\<close>

theorem answered_means_applied:
  assumes "sys_run L C (sys_init rn data) s" and "pw_pc (ps_calls s i) = PWDone None"
  shows "\<exists>e \<in> set (ps_applied s). en_Index e = pw_expected (ps_calls s i)"
  using run_invariant(2) [OF assms(1)] assms(2) unfolding answered_ok_def by (metis imageE)

theorem answered_means_applied_witness:
  "\<exists>t. sys_run sample_lib sample_codec (sys_init sample_node (\<lambda>i. dec i)) t \<and> pw_pc (ps_calls t 0) = PWDone None
     \<and> (\<exists>e \<in> set (ps_applied t). en_Index e = pw_expected (ps_calls t 0))"
proof -
  obtain t where t: "sys_run sample_lib sample_codec pair_state t" "pw_pc (ps_calls t 0) = PWDone None"
    using pair_answer by blast
  from rtranclp_trans [OF pair_run t(1)] answered_means_applied [OF _ t(2)] t(2) show ?thesis by blast
qed

text \<open>C8: a call that is still registered when the loop applies an entry of its index gets its answer: the system can
  run to a state in which it has returned without an error.\<close>

theorem registered_call_returns:
  assumes "sys_run L C (sys_init rn data) s" and "pw_pc (ps_calls s i) = PWWait" and "ps_pending s = None"
    and "map_of (rn_proposals (ps_node s)) (pw_expected (ps_calls s i)) = Some i" and "kv_ok (rn_store (ps_node s))"
    and "pw_expected (ps_calls s i) \<in> en_Index ` set es"
  shows "\<exists>t. sys_run L C s t \<and> pw_pc (ps_calls t i) = PWDone None \<and> ps_applied t = ps_applied s @ es"
  using assms by (rule registered_call_run)

theorem registered_call_returns_witness:
  "\<exists>t. sys_run sample_lib sample_codec pair_state t \<and> pw_pc (ps_calls t 0) = PWDone None
     \<and> ps_applied t = [sample_put 5 ''k'' ''v'']"
  using registered_call_returns [OF pair_run, of 0 "[sample_put 5 ''k'' ''v'']" sample_codec]
  by (simp add: pair_state_def sys_init_def sample_node_def kv_ok_def NewKVStore_def sample_put_def)

text \<open>C36: two calls that expect the same index get in each other's way: when another call registers at the index of a
  waiting call, or cleans up there after its own timeout, the waiting call is lost. Whatever happens afterwards,
  it is not answered, and can only return with the deadline error.\<close>

theorem shared_index_starves:
  assumes "sys_run L C (sys_init rn data) s" and "pw_pc (ps_calls s i) = PWWait" and "map_of (rn_chans (ps_node s)) i = None"
    and "j \<noteq> i" and "pw_expected (ps_calls s j) = pw_expected (ps_calls s i)"
    and "t = set_call j (if pw_pc (ps_calls s j) = PWRead then pw_register j (ps_node s) (ps_calls s j)
                         else pw_cleanup (ps_node s) (ps_calls s j)) s"
    and "sys_run L C t u"
  shows "pw_pc (ps_calls u i) \<in> {PWWait, PWExpired, PWDone (Some ErrDeadline)}"
proof -
  have "i \<notin> ran (map_of (rn_proposals (ps_node t)))"
    using registered_okD(2) [OF run_invariant(1) [OF assms(1)]] assms(4-6)
    by (auto simp: ran_def pw_register_def pw_cleanup_def update_conv' delete_conv' split: if_splits)
  then have "starved i t"
    using assms(2-4, 6) by (auto simp: starved_def pw_register_def pw_cleanup_def)
  from starved_run [OF assms(7) this] show ?thesis by (auto simp: starved_def)
qed

theorem shared_index_starves_witness:
  "pw_pc (ps_calls pair_state 0) = PWWait \<and> pw_pc (ps_calls pair_state 1) = PWRead \<and>
   (\<nexists>u. sys_run sample_lib sample_codec (set_call 1 (pw_register 1 (ps_node pair_state) (ps_calls pair_state 1)) pair_state) u
      \<and> pw_pc (ps_calls u 0) = PWDone None)"
proof -
  have p: "pw_pc (ps_calls pair_state 0) = PWWait" "pw_pc (ps_calls pair_state 1) = PWRead"
    "map_of (rn_chans (ps_node pair_state)) 0 = None"
    "pw_expected (ps_calls pair_state 1) = pw_expected (ps_calls pair_state 0)"
    by (simp_all add: pair_state_def)
  from p shared_index_starves [OF pair_run p(1, 3) _ p(4) refl, of sample_codec] show ?thesis by (fastforce simp: p(2))
qed

text \<open>An answer says nothing about the caller's own entry: there is a run in which a call returns without an error
  although the only entry that was applied holds other data than the call proposed.\<close>

theorem answer_for_other_entry:
  "\<exists>t. sys_run sample_lib sample_codec (sys_init sample_node (\<lambda>i. dec i)) t \<and> pw_pc (ps_calls t 0) = PWDone None
     \<and> ps_applied t = [sample_put 5 ''k'' ''v''] \<and> pw_data (ps_calls t 0) \<noteq> en_Data (sample_put 5 ''k'' ''v'')"
proof -
  obtain t where t: "sys_run sample_lib sample_codec pair_state t" "pw_pc (ps_calls t 0) = PWDone None"
    "ps_applied t = [sample_put 5 ''k'' ''v'']"
    using pair_answer by blast
  have "pw_data (ps_calls t 0) = dec 0" using run_keeps_data [OF t(1), of 0] by (simp add: pair_state_def)
  moreover have "dec 0 \<noteq> en_Data (sample_put 5 ''k'' ''v'')"
    by (subst dec.simps) (simp add: sample_put_def entry_json_def put_entry_def)
  ultimately show ?thesis using rtranclp_trans [OF pair_run t(1)] t by auto
qed

end
