(* ===== verification/API.thy ===== *)
theory API
  imports Proposals
begin

text \<open>
  \<open>server/pkg/server/api.go\<close>: the HTTP handlers for clients. The node and the store they share are the state; the
  store is the one inside the node. A handler that proposes an entry waits for it: what the rest of the program does
  meanwhile is an argument (\<open>wait\<close>, see \<open>ProposeAndWait\<close>), and a handler that never gets out of its wait has no reply.

  \<open>clock\<close> gives the successive readings of \<open>time.Now()\<close> in a request, in nanoseconds. The texts of errors that come
  out of libraries, and the text of a time, are arguments too. \<open>json.Marshal\<close> of an entry cannot fail, so its error
  branch has no counterpart. Paths are those that reach the handlers: the multiplexer of \<open>net/http\<close> redirects
  requests for unclean paths and for \<open>/kv\<close> by itself.
\<close>

section \<open>Replies\<close>

text \<open>\<open>%v\<close> of an error.\<close>

fun error_text :: "(goerr \<Rightarrow> string) \<Rightarrow> goerr \<Rightarrow> string" where
  "error_text lib (Errorf msg) = msg"
| "error_text lib (Wrap msg e) = msg @ '': '' @ error_text lib e"
| "error_text lib ErrDeadline = ''context deadline exceeded''"
| "error_text lib e = lib e"

text \<open>An operation in the history, with its JSON tags; empty values and results are left out.\<close>

definition operation_json :: "(int \<Rightarrow> string) \<Rightarrow> Operation \<Rightarrow> json" where
  "operation_json time op =
     JObj ([(''type'', JStr (op_Type op)), (''key'', JStr (op_Key op))]
       @ (if op_Value op = [] then [] else [(''value'', JStr (op_Value op))])
       @ [(''client_id'', JStr (op_ClientID op)),
          (''op_id'', JNum (let n = sint (op_OpID op) in if n < 0 then CHR ''-'' # dec (nat (- n)) else dec (nat n))),
          (''start_time'', JStr (time (op_StartTime op))), (''end_time'', JStr (time (op_EndTime op)))]
       @ (if op_Result op = [] then [] else [(''result'', JStr (op_Result op))])
       @ [(''success'', JBool (op_Success op))])"

section \<open>Requests\<close>

text \<open>The body of a PUT: a struct with one field.\<close>

definition put_field :: "string \<times> json \<Rightarrow> string \<Rightarrow> string option" where
  "put_field kv v = (if field_match ''value'' (fst kv) then into_string v (snd kv) else Some v)"

definition unmarshal_put :: "bytes \<Rightarrow> string option" where
  "unmarshal_put b =
     Option.bind (json_unmarshal b) (\<lambda>j.
       case j of
         JNull \<Rightarrow> Some []
       | JObj kvs \<Rightarrow> fold_opt put_field kvs []
       | _ \<Rightarrow> None)"

section \<open>Handlers\<close>

definition record_op :: "Operation \<Rightarrow> 'r RaftNode \<Rightarrow> 'r RaftNode" where
  "record_op op rn = rn\<lparr>rn_store := RecordOperation op (rn_store rn)\<rparr>"

text \<open>The operation that a request leaves in the history.\<close>

definition request_op :: "(nat \<Rightarrow> int) \<Rightarrow> http_request \<Rightarrow> string \<Rightarrow> string \<Rightarrow> string \<Rightarrow> bool \<Rightarrow> Operation" where
  "request_op clock r type key value success =
     \<lparr>op_Type = type, op_Key = key, op_Value = value, op_ClientID = rq_RemoteAddr r,
      op_OpID = word_of_int (clock 2), op_StartTime = clock 0, op_EndTime = clock 1, op_Result = [],
      op_Success = success\<rparr>"

definition handleGet :: "(nat \<Rightarrow> int) \<Rightarrow> http_request \<Rightarrow> string \<Rightarrow> 'r RaftNode \<Rightarrow> http_response \<times> 'r RaftNode" where
  "handleGet clock r key rn =
     (case KV_Get key (rn_store rn) of (value, exists) \<Rightarrow>
      let rn = record_op (request_op clock r OpGet key value exists) rn in
      if \<not> exists then (http_Error ''key not found'' StatusNotFound, rn)
      else (json_reply (JObj [(''key'', JStr key), (''value'', JStr value)]), rn))"

definition entry_data :: "string \<Rightarrow> string \<Rightarrow> bytes" where
  "entry_data key value = json_text (entry_json \<lparr>e_Type = EntryNormal, e_Key = key, e_Value = value\<rparr>)"

definition proposal_failed :: "(goerr \<Rightarrow> string) \<Rightarrow> goerr \<Rightarrow> http_response" where
  "proposal_failed lib err = http_Error (''proposal failed: '' @ error_text lib err) StatusInternalServerError"

definition handlePut ::
    "'r raft_lib \<Rightarrow> (goerr \<Rightarrow> string) \<Rightarrow> ('r RaftNode \<Rightarrow> 'r RaftNode \<times> bool) \<Rightarrow> nat \<Rightarrow> (nat \<Rightarrow> int)
       \<Rightarrow> http_request \<Rightarrow> string \<Rightarrow> 'r RaftNode \<Rightarrow> (http_response \<times> 'r RaftNode) option" where
  "handlePut L lib wait i clock r key rn =
     (case rq_Body r of
        Inl _ \<Rightarrow> Some (http_Error ''failed to read body'' StatusBadRequest, rn)
      | Inr body \<Rightarrow>
          (case unmarshal_put body of
             None \<Rightarrow> Some (http_Error ''invalid JSON'' StatusBadRequest, rn)
           | Some value \<Rightarrow>
               (case ProposeAndWait L wait i (entry_data key value) rn of
                  None \<Rightarrow> None
                | Some (Some err, rn) \<Rightarrow> Some (proposal_failed lib err, rn)
                | Some (None, rn) \<Rightarrow>
                    Some (json_reply (JObj [(''key'', JStr key), (''status'', JStr ''ok'')]),
                      record_op (request_op clock r OpPut key value True) rn))))"

text \<open>A delete proposes an empty value.\<close>

definition handleDelete ::
    "'r raft_lib \<Rightarrow> (goerr \<Rightarrow> string) \<Rightarrow> ('r RaftNode \<Rightarrow> 'r RaftNode \<times> bool) \<Rightarrow> nat
       \<Rightarrow> http_request \<Rightarrow> string \<Rightarrow> 'r RaftNode \<Rightarrow> (http_response \<times> 'r RaftNode) option" where
  "handleDelete L lib wait i r key rn =
     (case ProposeAndWait L wait i (entry_data key []) rn of
        None \<Rightarrow> None
      | Some (Some err, rn) \<Rightarrow> Some (proposal_failed lib err, rn)
      | Some (None, rn) \<Rightarrow> Some (json_reply (JObj [(''status'', JStr ''ok'')]), rn))"

definition handleKV ::
    "'r raft_lib \<Rightarrow> (goerr \<Rightarrow> string) \<Rightarrow> ('r RaftNode \<Rightarrow> 'r RaftNode \<times> bool) \<Rightarrow> nat \<Rightarrow> (nat \<Rightarrow> int)
       \<Rightarrow> http_request \<Rightarrow> 'r RaftNode \<Rightarrow> (http_response \<times> 'r RaftNode) option" where
  "handleKV L lib wait i clock r rn =
     (let key = drop (length ''/kv/'') (rq_Path r) in
      if key = [] then Some (http_Error ''key is required'' StatusBadRequest, rn)
      else if rq_Method r = MethodGet then Some (handleGet clock r key rn)
      else if rq_Method r = MethodPost \<or> rq_Method r = MethodPut then handlePut L lib wait i clock r key rn
      else if rq_Method r = MethodDelete then handleDelete L lib wait i r key rn
      else Some (http_Error ''method not allowed'' StatusMethodNotAllowed, rn))"

definition handleHistory :: "(int \<Rightarrow> string) \<Rightarrow> http_request \<Rightarrow> 'r RaftNode \<Rightarrow> http_response" where
  "handleHistory time r rn =
     (if rq_Method r \<noteq> MethodGet then http_Error ''method not allowed'' StatusMethodNotAllowed
      else json_reply (JArr (map (operation_json time) (GetHistory (rn_store rn)))))"

text \<open>The keys of the map are written in their order.\<close>

definition handleHealth :: "'r raft_lib \<Rightarrow> 'r RaftNode \<Rightarrow> http_response" where
  "handleHealth L rn =
     json_reply (JObj [(''is_leader'', JBool (RN_IsLeader rn)), (''leader_id'', JNum (dec (unat (RN_GetLeader L rn)))),
       (''status'', JStr ''ok'')])"

text \<open>The routes that \<open>NewAPIServer\<close> registers.\<close>

definition API_serve ::
    "'r raft_lib \<Rightarrow> (goerr \<Rightarrow> string) \<Rightarrow> (int \<Rightarrow> string) \<Rightarrow> ('r RaftNode \<Rightarrow> 'r RaftNode \<times> bool) \<Rightarrow> nat \<Rightarrow> (nat \<Rightarrow> int)
       \<Rightarrow> http_request \<Rightarrow> 'r RaftNode \<Rightarrow> (http_response \<times> 'r RaftNode) option" where
  "API_serve L lib time wait i clock r rn =
     (if take (length ''/kv/'') (rq_Path r) = ''/kv/'' then handleKV L lib wait i clock r rn
      else if rq_Path r = ''/history'' then Some (handleHistory time r rn, rn)
      else if rq_Path r = ''/health'' then Some (handleHealth L rn, rn)
      else Some (http_Error ''404 page not found'' StatusNotFound, rn))"

end
