(* ===== verification/Replication.thy ===== *)
theory Replication
  imports RaftNode_Runs API
begin

text \<open>
  Several servers together. The library's part is the log on which they agree: it grows by one entry at a time, and a
  \<open>Ready\<close> hands a node the entries that follow those it has applied, or a snapshot that some member has on its disk,
  which is what the documentation of the library promises. Everything else is the code of the members, interleaved in
  any order, with crashes, shutdowns and starts: what the replicas hold and what a client reads from one of them.
\<close>

section \<open>The cluster\<close>

record 'r replica_set =
  gs_log :: "raft_Entry list"
  gs_sent :: "raft_Snapshot set"
  gs_nodes :: "nat \<Rightarrow> ('r RaftNode \<times> fs) option"

definition no_replicas :: "'r replica_set" where
  "no_replicas = \<lparr>gs_log = [], gs_sent = {}, gs_nodes = Map.empty\<rparr>"

text \<open>What calls from outside the event loop do to a node: the library's state, the waiters and the history.\<close>

inductive node_call :: "'r raft_lib \<Rightarrow> 'r RaftNode \<Rightarrow> 'r RaftNode \<Rightarrow> bool" for L where
  propose: "node_call L rn (snd (RN_Propose L data rn))"
| conf: "node_call L rn (snd (RN_ProposeConfChange L cc rn))"
| receive: "node_call L rn (snd (RN_Process L m rn))"
| transfer: "node_call L rn (RN_TransferLeadership L i rn)"
| waiters: "node_call L rn (rn\<lparr>rn_proposals := ps, rn_chans := cs\<rparr>)"
| record_in_history: "node_call L rn (record_op op rn)"

definition delivered_from :: "raft_codec \<Rightarrow> 'r RaftNode \<Rightarrow> Ready \<Rightarrow> u64" where
  "delivered_from C rn rd =
     (if cd_empty_snap C (rd_Snapshot rd) then rn_appliedIndex rn else snap_index (rd_Snapshot rd))"

definition delivers :: "raft_codec \<Rightarrow> raft_Entry list \<Rightarrow> raft_Snapshot set \<Rightarrow> 'r RaftNode \<Rightarrow> Ready \<Rightarrow> bool" where
  "delivers C G sent rn rd \<longleftrightarrow>
     (cd_empty_snap C (rd_Snapshot rd) \<or> rd_Snapshot rd \<in> sent)
     \<and> (\<exists>k. rd_CommittedEntries rd = take k (drop (unat (delivered_from C rn rd)) G))"

inductive replica_step ::
    "'r raft_lib \<Rightarrow> raft_codec \<Rightarrow> http_client \<Rightarrow> msg_codec \<Rightarrow> (string \<Rightarrow> i64 res) \<Rightarrow> (nat \<Rightarrow> Config)
       \<Rightarrow> 'r replica_set \<Rightarrow> 'r replica_set \<Rightarrow> bool"
  for L C H M PD cfgs where
  commit: "en_Index e = of_nat (Suc (length (gs_log g))) \<Longrightarrow> Suc (length (gs_log g)) < 2 ^ 64 \<Longrightarrow>
     replica_step L C H M PD cfgs g (g\<lparr>gs_log := gs_log g @ [e]\<rparr>)"
| boot: "gs_nodes g i = None \<Longrightarrow> server_boot L C PD (cfgs i) (empty_fs (\<lambda>_. IoOk)) = (Inr rn, s) \<Longrightarrow>
     replica_step L C H M PD cfgs g (g\<lparr>gs_nodes := (gs_nodes g)(i \<mapsto> (rn, s))\<rparr>)"
| turn: "gs_nodes g i = Some (rn, s) \<Longrightarrow> delivers C (gs_log g) (gs_sent g) rn rd \<Longrightarrow>
     handle_ready L C H M rd rn s = Some ((rn', s'), posted) \<Longrightarrow>
     replica_step L C H M PD cfgs g (g\<lparr>gs_nodes := (gs_nodes g)(i \<mapsto> (rn', s'))\<rparr>)"
| call: "gs_nodes g i = Some (rn, s) \<Longrightarrow> node_call L rn rn' \<Longrightarrow>
     replica_step L C H M PD cfgs g (g\<lparr>gs_nodes := (gs_nodes g)(i \<mapsto> (rn', s))\<rparr>)"
| restart: "gs_nodes g i = Some (rn, s) \<Longrightarrow> t \<in> {s, snd (server_shutdown L r rn s)} \<Longrightarrow>
     server_boot L C PD (cfgs i) t = (Inr rn', s') \<Longrightarrow>
     replica_step L C H M PD cfgs g (g\<lparr>gs_nodes := (gs_nodes g)(i \<mapsto> (rn', s'))\<rparr>)"
| offer: "gs_nodes g i = Some (rn, s) \<Longrightarrow> x \<in> ran (saved_snapshots C (rn_snap rn) s) \<Longrightarrow>
     replica_step L C H M PD cfgs g (g\<lparr>gs_sent := insert x (gs_sent g)\<rparr>)"

abbreviation replica_run where
  "replica_run L C H M PD cfgs g \<equiv> (replica_step L C H M PD cfgs)\<^sup>*\<^sup>* no_replicas g"

section \<open>Specification\<close>

text \<open>What a prefix of the log makes of an empty store.\<close>

definition log_contents :: "raft_Entry list \<Rightarrow> u64 \<Rightarrow> string \<Rightarrow> string option" where
  "log_contents G i = map_of (rev (entry_puts (take (unat i) G)))"

definition log_ok :: "raft_Entry list \<Rightarrow> bool" where
  "log_ok G \<longleftrightarrow> length G < 2 ^ 64 \<and> (\<forall>i < length G. en_Index (G ! i) = of_nat (Suc i))"

definition snap_matches :: "raft_Entry list \<Rightarrow> raft_Snapshot \<Rightarrow> bool" where
  "snap_matches G x \<longleftrightarrow>
     unat (snap_index x) \<le> length G \<and> restorable x
     \<and> kv_lookup (snd (KV_Restore (sn_Data x) NewKVStore)) = log_contents G (snap_index x)"

definition member_ok :: "raft_codec \<Rightarrow> Config \<Rightarrow> raft_Entry list \<Rightarrow> 'r RaftNode \<Rightarrow> fs \<Rightarrow> bool" where
  "member_ok C cfg G rn s \<longleftrightarrow>
     node_inv C cfg rn s \<and> unat (rn_appliedIndex rn) \<le> length G
     \<and> kv_lookup (rn_store rn) = log_contents G (rn_appliedIndex rn)
     \<and> (\<forall>x \<in> ran (saved_snapshots C (rn_snap rn) s). snap_matches G x)"

definition replicas_ok :: "raft_codec \<Rightarrow> (nat \<Rightarrow> Config) \<Rightarrow> 'r replica_set \<Rightarrow> bool" where
  "replicas_ok C cfgs g \<longleftrightarrow>
     log_ok (gs_log g) \<and> (\<forall>x \<in> gs_sent g. snap_matches (gs_log g) x)
     \<and> (\<forall>i rn s. gs_nodes g i = Some (rn, s) \<longrightarrow> member_ok C (cfgs i) (gs_log g) rn s)"

text \<open>Every member is configured with a snapshot interval that can be parsed.\<close>

definition intervals_ok :: "(string \<Rightarrow> i64 res) \<Rightarrow> (nat \<Rightarrow> Config) \<Rightarrow> bool" where
  "intervals_ok PD cfgs \<longleftrightarrow> (\<forall>i. \<exists>n. parse_interval PD (cf_SnapshotInterval (cfgs i)) = Inr n)"

definition sample_get :: http_request where
  "sample_get = \<lparr>rq_Method = MethodGet, rq_Path = ''/kv/k'', rq_Body = Inr [], rq_RemoteAddr = ''10.0.0.9:5000''\<rparr>"

section \<open>Lemmas: the log\<close>

lemma log_contents_append: "unat i \<le> length G \<Longrightarrow> log_contents (G @ es) i = log_contents G i"
  by (simp add: log_contents_def)

lemma log_contents_0 [simp]: "log_contents G 0 = Map.empty"
  by (simp add: log_contents_def)

lemma log_ok_append:
  assumes "log_ok G" and "en_Index e = of_nat (Suc (length G))" and "Suc (length G) < 2 ^ 64"
  shows "log_ok (G @ [e])"
  using assms by (auto simp: log_ok_def nth_append less_Suc_eq)

lemma snap_matches_append: "snap_matches G x \<Longrightarrow> snap_matches (G @ es) x"
  by (simp add: snap_matches_def log_contents_append)

lemma member_ok_append: "member_ok C cfg G rn s \<Longrightarrow> member_ok C cfg (G @ es) rn s"
  by (simp add: member_ok_def log_contents_append snap_matches_append)

lemma entry_puts_append: "entry_puts (es @ fs) = entry_puts es @ entry_puts fs"
  by (induction es) (simp_all split: option.split)

text \<open>Applying the entries after an index leads to the index of the last one and to its contents.\<close>

lemma delivered_entries:
  assumes G: "log_ok G" and i: "unat i \<le> length G" and es: "es = take k (drop (unat i) G)"
  defines "j \<equiv> (if es \<noteq> [] then en_Index (last es) else i)"
  shows "unat j \<le> length G" and "log_contents G j = log_contents G i ++ map_of (rev (entry_puts es))"
proof -
  have len: "unat i + length es \<le> length G" using i es by simp
  have pre: "take (unat i + length es) G = take (unat i) G @ es"
    using es by (simp add: take_add min_def)
  have j: "unat j = unat i + length es"
  proof (cases "es = []")
    case False
    have "last es = (take (unat i) G @ es) ! (unat i + length es - 1)"
      using False i by (cases es) (simp_all add: last_conv_nth nth_append)
    then have "last es = G ! (unat i + length es - 1)" using False unfolding pre [symmetric] by (cases es) simp_all
    moreover have "unat i + length es - 1 < length G" using False len by (cases es) simp_all
    ultimately have "en_Index (last es) = of_nat (Suc (unat i + length es - 1))"
      using G by (simp add: log_ok_def)
    then have "en_Index (last es) = of_nat (unat i + length es)" using False by (cases es) simp_all
    moreover have "unat i + length es < 2 ^ 64" using len G by (simp add: log_ok_def)
    ultimately show ?thesis using False unfolding j_def by (simp add: unat_of_nat del: of_nat_add)
  qed (simp add: j_def)
  show "unat j \<le> length G" using j len by simp
  show "log_contents G j = log_contents G i ++ map_of (rev (entry_puts es))"
    unfolding log_contents_def j pre by (simp add: entry_puts_append map_add_def fun_eq_iff split: option.split)
qed

section \<open>Lemmas: the members\<close>

lemma member_okI:
  assumes "node_inv C cfg rn s" and "unat (rn_appliedIndex rn) \<le> length G"
    and "kv_lookup (rn_store rn) = log_contents G (rn_appliedIndex rn)"
    and "\<And>x. x \<in> ran (saved_snapshots C (rn_snap rn) s) \<Longrightarrow> snap_matches G x"
  shows "member_ok C cfg G rn s"
  using assms by (simp add: member_ok_def)

lemma own_snapshot_matches:
  assumes "node_inv C cfg rn s" and "unat (rn_appliedIndex rn) \<le> length G"
    and "kv_lookup (rn_store rn) = log_contents G (rn_appliedIndex rn)"
  shows "snap_matches G (node_snapshot rn)"
  using node_snapshot_restores [OF node_invD(6,7) [OF assms(1)]] assms(2,3) by (simp add: snap_matches_def)

lemma member_turn:
  assumes m: "member_ok C cfg G rn s" and G: "log_ok G" and sent: "\<forall>x \<in> sent. snap_matches G x"
    and d: "delivers C G sent rn rd" and h: "handle_ready L C H M rd rn s = Some ((rn', s'), posted)"
  shows "member_ok C cfg G rn' s'"
proof -
  from m have inv: "node_inv C cfg rn s" by (simp add: member_ok_def)
  let ?from = "delivered_from C rn rd" and ?x = "rd_Snapshot rd" and ?es = "rd_CommittedEntries rd"
  from d obtain k where es: "?es = take k (drop (unat ?from) G)" by (auto simp: delivers_def)
  have x: "snap_matches G ?x" if "\<not> cd_empty_snap C ?x" using d sent that by (auto simp: delivers_def)
  then have rd: "ready_ok C rd" by (auto simp: ready_ok_def snap_matches_def)
  obtain rn1 s1 p1 where e0: "handle_ready L C H M rd rn s = Some ((rn1, s1), p1)" "node_inv C cfg rn1 s1"
    "rn_appliedIndex rn1 = (if ?es \<noteq> [] then en_Index (last ?es)
       else if cd_empty_snap C ?x then rn_appliedIndex rn else snap_index ?x)"
    "kv_lookup (rn_store rn1) = (if cd_empty_snap C ?x then kv_lookup (rn_store rn)
        else kv_lookup (snd (KV_Restore (sn_Data ?x) NewKVStore))) ++ map_of (rev (entry_puts ?es))"
    "ran (saved_snapshots C (rn_snap rn1) s1) \<subseteq> insert (node_snapshot rn1) (ran (saved_snapshots C (rn_snap rn) s))"
    by (rule handle_ready_effect [OF inv rd, of L H M])
  note e = e0 [folded delivered_from_def]
  have fr: "unat ?from \<le> length G" "(if cd_empty_snap C ?x then kv_lookup (rn_store rn)
        else kv_lookup (snd (KV_Restore (sn_Data ?x) NewKVStore))) = log_contents G ?from"
    using m x by (simp_all add: delivered_from_def member_ok_def snap_matches_def)
  note j = delivered_entries [OF G fr(1) es]
  have c: "unat (rn_appliedIndex rn1) \<le> length G" "kv_lookup (rn_store rn1) = log_contents G (rn_appliedIndex rn1)"
    using e(3,4) j fr(2) by (simp_all split del: if_split)
  have "member_ok C cfg G rn1 s1"
    using e(2) c by (rule member_okI) (use e(5) m own_snapshot_matches [OF e(2) c] in \<open>auto simp: member_ok_def\<close>)
  with e(1) h show ?thesis by simp
qed

lemma kv_lookup_history: "kv_lookup (kv\<lparr>kv_history := h\<rparr>) = kv_lookup kv"
  by (simp add: kv_lookup_def fun_eq_iff)

lemma member_call:
  assumes "member_ok C cfg G rn s" and "node_call L rn rn'"
  shows "member_ok C cfg G rn' s"
  using assms(2,1)
  by cases (auto simp: RN_Propose_def RN_ProposeConfChange_def RN_Process_def RN_TransferLeadership_def record_op_def
    RecordOperation_def member_ok_def node_inv_def node_dirs_def kv_ok_def kv_utf8_def kv_lookup_history split: prod.splits)

text \<open>What a start finds on disk is a snapshot of the log, or nothing.\<close>

lemma disk_matches:
  assumes m: "member_ok C cfg G rn s"
  shows "unat (disk_index C (rn_snap rn) s) \<le> length G"
    and "disk_contents C (rn_snap rn) s = log_contents G (disk_index C (rn_snap rn) s)"
proof -
  from m have inv: "node_inv C cfg rn s" by (simp add: member_ok_def)
  note ld = snap_load_eq [OF node_invD(4,2) [OF inv]]
  have "snap_load C (rn_snap rn) s = None
     \<or> (\<exists>x. snap_load C (rn_snap rn) s = Some x \<and> x \<in> ran (saved_snapshots C (rn_snap rn) s))"
    using ld by (cases "dom (saved_snapshots C (rn_snap rn) s) \<subseteq> {0}") (auto intro: ranI)
  then show "unat (disk_index C (rn_snap rn) s) \<le> length G"
    "disk_contents C (rn_snap rn) s = log_contents G (disk_index C (rn_snap rn) s)"
    using m by (auto simp: disk_index_def disk_contents_def member_ok_def snap_matches_def)
qed

lemma member_restart:
  assumes m: "member_ok C cfg G rn s" and L: "lib_storage_ok L" and iv: "parse_interval PD (cf_SnapshotInterval cfg) = Inr n"
    and t: "t \<in> {s, snd (server_shutdown L r rn s)}" and b: "server_boot L C PD cfg t = (Inr rn', s')"
  shows "member_ok C cfg G rn' s'"
proof -
  from m have inv: "node_inv C cfg rn s" by (simp add: member_ok_def)
  obtain rn0 s0 where sd: "server_shutdown L r rn s = (rn0, s0)" by (cases "server_shutdown L r rn s")
  note touch = node_inv_touch [OF inv server_shutdown_disk [OF sd]]
  have mt: "member_ok C cfg G rn t"
    using t m touch sd by (auto simp: member_ok_def)
  then have "node_inv C cfg rn t" by (simp add: member_ok_def)
  then obtain rn1 s1 where e: "server_boot L C PD cfg t = (Inr rn1, s1)" "node_inv C cfg rn1 s1"
    "kv_lookup (rn_store rn1) = disk_contents C (rn_snap rn) t" "rn_appliedIndex rn1 = disk_index C (rn_snap rn) t"
    "saved_snapshots C (rn_snap rn1) s1 = saved_snapshots C (rn_snap rn) t"
    by (rule server_boot_ok [OF _ L iv])
  have "member_ok C cfg G rn1 s1"
    using e(2) by (rule member_okI) (use e(3-5) mt disk_matches [OF mt] in \<open>simp_all add: member_ok_def\<close>)
  with e(1) b show ?thesis by simp
qed

lemma member_boot:
  assumes "codec_ok C" and "lib_storage_ok L" and "parse_interval PD (cf_SnapshotInterval cfg) = Inr n"
    and b: "server_boot L C PD cfg (empty_fs (\<lambda>_. IoOk)) = (Inr rn, s)"
  shows "member_ok C cfg G rn s"
proof -
  obtain rn1 s1 where e: "server_boot L C PD cfg (empty_fs (\<lambda>_. IoOk)) = (Inr rn1, s1)" "node_inv C cfg rn1 s1"
    "saved_snapshots C (rn_snap rn1) s1 = Map.empty" "kv_lookup (rn_store rn1) = Map.empty" "rn_appliedIndex rn1 = 0"
    by (rule boot_ok [OF assms(1-3)])
  have "member_ok C cfg G rn1 s1" using e(2) by (rule member_okI) (simp_all add: e(3-5))
  with e(1) b show ?thesis by simp
qed

lemma replica_step_ok:
  assumes st: "replica_step L C H M PD cfgs g g'" and ok: "replicas_ok C cfgs g"
    and C: "codec_ok C" and L: "lib_storage_ok L" and iv: "intervals_ok PD cfgs"
  shows "replicas_ok C cfgs g'"
  using st
proof cases
  case (commit e)
  with ok show ?thesis by (auto simp: replicas_ok_def log_ok_append snap_matches_append member_ok_append)
next
  case (boot i rn s)
  obtain n where "parse_interval PD (cf_SnapshotInterval (cfgs i)) = Inr n" using iv by (auto simp: intervals_ok_def)
  from member_boot [OF C L this boot(3)] ok boot(1) show ?thesis by (auto simp: replicas_ok_def)
next
  case (turn i rn s rd rn' s' posted)
  from ok turn(2) have "member_ok C (cfgs i) (gs_log g) rn s" by (auto simp: replicas_ok_def)
  from member_turn [OF this _ _ turn(3,4)] ok turn(1) show ?thesis by (auto simp: replicas_ok_def)
next
  case (call i rn s rn')
  from ok call(2) have "member_ok C (cfgs i) (gs_log g) rn s" by (auto simp: replicas_ok_def)
  from member_call [OF this call(3)] ok call(1) show ?thesis by (auto simp: replicas_ok_def)
next
  case (restart i rn s t r rn' s')
  obtain n where "parse_interval PD (cf_SnapshotInterval (cfgs i)) = Inr n" using iv by (auto simp: intervals_ok_def)
  moreover from ok restart(2) have "member_ok C (cfgs i) (gs_log g) rn s" by (auto simp: replicas_ok_def)
  ultimately have "member_ok C (cfgs i) (gs_log g) rn' s'" using member_restart [OF _ L _ restart(3,4)] by blast
  with ok restart(1) show ?thesis by (auto simp: replicas_ok_def)
next
  case (offer i rn s x)
  with ok show ?thesis by (auto simp: replicas_ok_def member_ok_def)
qed

lemma replica_run_ok:
  assumes "replica_run L C H M PD cfgs g" and "codec_ok C" and "lib_storage_ok L"
    and "intervals_ok PD cfgs"
  shows "replicas_ok C cfgs g"
  using assms(1)
proof (induction rule: rtranclp_induct)
  case base
  show ?case by (simp add: replicas_ok_def no_replicas_def log_ok_def)
next
  case (step g g')
  then show ?case using replica_step_ok [OF _ _ assms(2-4)] by blast
qed

lemma member_contents:
  assumes "replica_run L C H M PD cfgs g" and "codec_ok C" and "lib_storage_ok L"
    and "intervals_ok PD cfgs" and "gs_nodes g i = Some (rn, s)"
  shows "unat (rn_appliedIndex rn) \<le> length (gs_log g)"
    and "kv_lookup (rn_store rn) = log_contents (gs_log g) (rn_appliedIndex rn)"
  using replica_run_ok [OF assms(1-4)] assms(5) by (auto simp: replicas_ok_def member_ok_def)

lemma handleGet_answer:
  assumes "kv_lookup (rn_store rn) = m"
  shows "fst (handleGet clock r key rn) = (case m key of
       None \<Rightarrow> http_Error ''key not found'' StatusNotFound
     | Some v \<Rightarrow> json_reply (JObj [(''key'', JStr key), (''value'', JStr v)]))"
  using assms by (auto simp: handleGet_def KV_Get_def kv_lookup_def Let_def split: option.splits)

text \<open>A cluster of two in which only the first member has applied the only entry.\<close>

lemma sample_replicas:
  obtains g rn s rn' s' where
    "replica_run sample_lib sample_codec dead_client sample_msg_codec no_duration (\<lambda>_. sample_cfg) g"
    and "gs_log g = [sample_put 1 ''k'' ''x'']" and "gs_nodes g 0 = Some (rn, s)" and "gs_nodes g 1 = Some (rn', s')"
    and "rn_appliedIndex rn = 1" and "rn_appliedIndex rn' = 0"
proof -
  let ?step = "replica_step sample_lib sample_codec dead_client sample_msg_codec no_duration (\<lambda>_. sample_cfg)"
  let ?e = "sample_put 1 ''k'' ''x''" and ?rd = "sample_ready [sample_put 1 ''k'' ''x''] zero_Snapshot"
  obtain rn s where b: "server_boot sample_lib sample_codec no_duration sample_cfg (empty_fs (\<lambda>_. IoOk)) = (Inr rn, s)"
    "node_inv sample_codec sample_cfg rn s" "rn_appliedIndex rn = 0"
    by (rule boot_ok [OF sample_codec_ok sample_lib_ok sample_interval])
  let ?g1 = "no_replicas\<lparr>gs_nodes := (gs_nodes no_replicas)(1 \<mapsto> (rn, s))\<rparr>"
  let ?g2 = "?g1\<lparr>gs_nodes := (gs_nodes ?g1)(0 \<mapsto> (rn, s))\<rparr>"
  let ?g3 = "?g2\<lparr>gs_log := gs_log ?g2 @ [?e]\<rparr>"
  have ez: "cd_empty_snap sample_codec (rd_Snapshot ?rd)"
    using codec_okD(14) [OF sample_codec_ok, of zero_Snapshot] by (simp add: sample_ready_def zero_Snapshot_def)
  obtain rn1 s1 posted where h: "handle_ready sample_lib sample_codec dead_client sample_msg_codec ?rd rn s
      = Some ((rn1, s1), posted)"
    "rn_appliedIndex rn1 = (if rd_CommittedEntries ?rd \<noteq> [] then en_Index (last (rd_CommittedEntries ?rd))
       else if cd_empty_snap sample_codec (rd_Snapshot ?rd) then rn_appliedIndex rn else snap_index (rd_Snapshot ?rd))"
    by (rule handle_ready_effect [OF b(2) zero_snapshot_ok])
  let ?g4 = "?g3\<lparr>gs_nodes := (gs_nodes ?g3)(0 \<mapsto> (rn1, s1))\<rparr>"
  have d: "delivers sample_codec (gs_log ?g3) (gs_sent ?g3) rn ?rd"
    using ez b(3) by (auto simp: delivers_def delivered_from_def sample_ready_def no_replicas_def intro: exI [of _ 1])
  have "?step no_replicas ?g1" by (rule replica_step.boot [OF _ b(1)]) (simp add: no_replicas_def)
  moreover have "?step ?g1 ?g2" by (rule replica_step.boot [OF _ b(1)]) (simp add: no_replicas_def)
  moreover have "?step ?g2 ?g3" by (rule replica_step.commit) (simp_all add: no_replicas_def sample_put_def)
  moreover have "?step ?g3 ?g4" by (rule replica_step.turn [OF _ d h(1)]) (simp add: no_replicas_def)
  ultimately have run: "replica_run sample_lib sample_codec dead_client sample_msg_codec no_duration (\<lambda>_. sample_cfg) ?g4"
    by (meson rtranclp.rtrancl_into_rtrancl rtranclp.rtrancl_refl)
  have "rn_appliedIndex rn1 = 1" using h(2) by (simp add: sample_ready_def sample_put_def)
  with b(3) show ?thesis by (intro that [OF run]) (simp_all add: no_replicas_def)
qed

lemma sample_intervals: "intervals_ok no_duration (\<lambda>_. sample_cfg)"
  using sample_interval by (auto simp: intervals_ok_def)

lemma sample_log_contents:
  "log_contents [sample_put 1 ''k'' ''x''] 1 = [''k'' \<mapsto> ''x'']" "log_contents G 0 = Map.empty"
proof -
  have "entry_put (sample_put 1 ''k'' ''x'') = Some (''k'', ''x'')"
    by (simp add: sample_put_def entry_put_encoded byte_val_def)
  then show "log_contents [sample_put 1 ''k'' ''x''] 1 = [''k'' \<mapsto> ''x'']" by (simp add: log_contents_def)
qed simp

section \<open>Properties\<close>

text \<open>C3: replicas agree. In any run of a cluster, with crashes, shutdowns, starts and snapshots passed between members, a
  member that has applied no more than another holds what the other holds but for the assignments of the entries
  between their applied indices, in the order of the log; members with the same applied index have the same contents.\<close>

theorem replicas_agree:
  assumes "replica_run L C H M PD cfgs g" and "codec_ok C" and "lib_storage_ok L" and "intervals_ok PD cfgs"
    and "gs_nodes g i = Some (rn, s)" and "gs_nodes g j = Some (rn', s')"
    and "rn_appliedIndex rn \<le> rn_appliedIndex rn'"
  shows "kv_lookup (rn_store rn') = kv_lookup (rn_store rn)
     ++ map_of (rev (entry_puts (drop (unat (rn_appliedIndex rn)) (take (unat (rn_appliedIndex rn')) (gs_log g)))))"
proof -
  have le: "unat (rn_appliedIndex rn) \<le> unat (rn_appliedIndex rn')" using assms(7) by (simp add: word_le_nat_alt)
  have "take (unat (rn_appliedIndex rn')) (gs_log g) = take (unat (rn_appliedIndex rn)) (gs_log g)
      @ drop (unat (rn_appliedIndex rn)) (take (unat (rn_appliedIndex rn')) (gs_log g))"
    using append_take_drop_id [of "unat (rn_appliedIndex rn)" "take (unat (rn_appliedIndex rn')) (gs_log g)"] le
    by (simp add: min_absorb1)
  then have "entry_puts (take (unat (rn_appliedIndex rn')) (gs_log g))
      = entry_puts (take (unat (rn_appliedIndex rn)) (gs_log g))
        @ entry_puts (drop (unat (rn_appliedIndex rn)) (take (unat (rn_appliedIndex rn')) (gs_log g)))"
    by (metis entry_puts_append)
  then show ?thesis
    using member_contents(2) [OF assms(1-4,5)] member_contents(2) [OF assms(1-4,6)] by (simp add: log_contents_def)
qed

theorem replicas_agree_witness:
  "\<exists>g rn s rn' s'. replica_run sample_lib sample_codec dead_client sample_msg_codec no_duration (\<lambda>_. sample_cfg) g
     \<and> gs_nodes g 1 = Some (rn, s) \<and> gs_nodes g 0 = Some (rn', s')
     \<and> rn_appliedIndex rn = 0 \<and> rn_appliedIndex rn' = 1
     \<and> kv_lookup (rn_store rn') = kv_lookup (rn_store rn) ++ map_of (rev (entry_puts (gs_log g)))"
proof -
  obtain g rn s rn' s' where g: "replica_run sample_lib sample_codec dead_client sample_msg_codec no_duration (\<lambda>_. sample_cfg) g"
    "gs_log g = [sample_put 1 ''k'' ''x'']" "gs_nodes g 0 = Some (rn, s)" "gs_nodes g 1 = Some (rn', s')"
    "rn_appliedIndex rn = 1" "rn_appliedIndex rn' = 0" by (rule sample_replicas)
  have "rn_appliedIndex rn' \<le> rn_appliedIndex rn" using g(6) by simp
  from replicas_agree [OF g(1) sample_codec_ok sample_lib_ok sample_intervals g(4,3) this] g show ?thesis by auto
qed

text \<open>C25: a get is answered by the member that receives it, leader or not, from what that member has applied: the
  answer is the value of the key in the prefix of the log up to the member's applied index. So a member that lags
  behind answers with a value that a completed put has already replaced.\<close>

theorem get_reads_prefix:
  assumes "replica_run L C H M PD cfgs g" and "codec_ok C" and "lib_storage_ok L" and "intervals_ok PD cfgs"
    and "gs_nodes g i = Some (rn, s)"
  shows "fst (handleGet clock r key rn) = (case log_contents (gs_log g) (rn_appliedIndex rn) key of
       None \<Rightarrow> http_Error ''key not found'' StatusNotFound
     | Some v \<Rightarrow> json_reply (JObj [(''key'', JStr key), (''value'', JStr v)]))"
  by (rule handleGet_answer) (rule member_contents(2) [OF assms])

theorem get_reads_prefix_witness:
  "\<exists>g rn s rn' s'. replica_run sample_lib sample_codec dead_client sample_msg_codec no_duration (\<lambda>_. sample_cfg) g
     \<and> gs_nodes g 0 = Some (rn, s) \<and> gs_nodes g 1 = Some (rn', s')
     \<and> fst (handleGet (\<lambda>_. 0) sample_get ''k'' rn) = json_reply (JObj [(''key'', JStr ''k''), (''value'', JStr ''x'')])
     \<and> fst (handleGet (\<lambda>_. 0) sample_get ''k'' rn') = http_Error ''key not found'' StatusNotFound"
proof -
  obtain g rn s rn' s' where g: "replica_run sample_lib sample_codec dead_client sample_msg_codec no_duration (\<lambda>_. sample_cfg) g"
    "gs_log g = [sample_put 1 ''k'' ''x'']" "gs_nodes g 0 = Some (rn, s)" "gs_nodes g 1 = Some (rn', s')"
    "rn_appliedIndex rn = 1" "rn_appliedIndex rn' = 0" by (rule sample_replicas)
  note get = get_reads_prefix [OF g(1) sample_codec_ok sample_lib_ok sample_intervals]
  show ?thesis using g(1,3,4) get [OF g(3)] get [OF g(4)] g(2,5,6) by (auto simp: sample_log_contents)
qed

end
