(* ===== verification/Go_JSON_Prefix.thy ===== *)
theory Go_JSON_Prefix
  imports Go_JSON
begin

text \<open>
  What the JSON decoder makes of input that is cut off: a value that it reads, unless it is a number at the very end, is
  read in the same way when more input follows. So no proper prefix of the text of an object is itself a value.
\<close>

definition is_num :: "json \<Rightarrow> bool" where
  "is_num v \<longleftrightarrow> (\<exists>l. v = JNum l)"

section \<open>Strings\<close>

lemma quote_not_cont: "\<not> cont_byte (byte_val quote_char)"
  by (simp add: cont_byte_def quote_char_def byte_val_def)

lemma decode_multi_extend:
  assumes "quote_char \<in> set s"
  shows "decode_multi b (s @ q) = decode_multi b s"
proof (cases "utf8_first b")
  case (Some p)
  then obtain sz lo hi where p: "utf8_first b = Some (sz, lo, hi)" by (cases p) auto
  have "\<not> (lo \<le> byte_val quote_char \<and> byte_val quote_char \<le> hi)"
    using utf8_first_SomeD(1) [OF p] by (simp add: quote_char_def byte_val_def)
  with assms p quote_not_cont show ?thesis
    by (auto simp: decode_multi_def split: list.splits)
qed (simp add: decode_multi_def)

lemma hex4_Some: "hex4 s = Some u \<Longrightarrow> 4 \<le> length s \<and> hex4 (s @ q) = Some u"
  by (cases s rule: hex4.cases) auto

lemma hex4_extend:
  assumes "quote_char \<in> set s"
  shows "hex4 (s @ q) = hex4 s"
proof (cases "4 \<le> length s")
  case True
  then obtain a b c d s' where "s = a # b # c # d # s'" by (auto simp: numeral_eq_Suc Suc_le_length_iff)
  then show ?thesis by simp
next
  case False
  have h: "hex_val quote_char = None" by (simp add: hex_val_def quote_char_def byte_val_def)
  from False have "hex4 s = None" using hex4_Some by (cases "hex4 s") auto
  moreover have "hex4 (s @ q) = None"
  proof (cases "s @ q" rule: hex4.cases)
    case (1 a b c d s')
    then have "quote_char \<in> set [a, b, c, d]" using False assms by (auto simp: append_eq_Cons_conv)
    with 1 h show ?thesis by (auto split: option.splits)
  qed simp_all
  ultimately show ?thesis by simp
qed

lemma low_surrogate_extend:
  assumes "quote_char \<in> set s"
  shows "low_surrogate (s @ q) = low_surrogate s"
proof (cases "2 \<le> length s")
  case True
  then obtain a b s' where s: "s = a # b # s'" by (auto simp: numeral_eq_Suc Suc_le_length_iff)
  with assms hex4_extend [of s' q] show ?thesis
    by (auto simp: low_surrogate_def backslash_def quote_char_def)
next
  case False
  with assms have s: "s = [quote_char]" by (cases s) (auto simp: numeral_eq_Suc not_le less_Suc_eq)
  then show ?thesis by (cases q) (simp_all add: low_surrogate_def backslash_def quote_char_def)
qed

lemma low_surrogate_length:
  assumes "low_surrogate s = Some l"
  shows "6 \<le> length s"
proof -
  from assms obtain u where "hex4 (drop 2 s) = Some u" by (auto simp: low_surrogate_def split: if_splits option.splits)
  then have "4 \<le> length (drop 2 s)" using hex4_Some by blast
  then show ?thesis by simp
qed

text \<open>The cases of an escape.\<close>

lemma parse_str_escape:
  assumes p: "parse_str (backslash # e # s) = Some (t, r)"
    and IH: "\<And>k t' r'. parse_str (drop k s) = Some (t', r') \<Longrightarrow>
      quote_char \<in> set (drop k s) \<and> parse_str (drop k s @ q) = Some (t', r' @ q)"
  shows "quote_char \<in> set s \<and> parse_str ((backslash # e # s) @ q) = Some (t, r @ q)"
proof -
  have bq: "backslash \<noteq> quote_char" by (simp add: backslash_def quote_char_def)
  note sub = in_set_dropD [of quote_char _ s]
  show ?thesis
  proof (cases "simple_escape e")
    case (Some b)
    with p bq obtain t' where t': "parse_str (drop 0 s) = Some (t', r)" "t = b # t'" by auto
    with IH [OF t'(1)] Some bq show ?thesis by auto
  next
    case None
    with p bq obtain u where u: "e = CHR ''u''" "hex4 s = Some u" by (auto split: if_splits option.splits)
    have hx: "4 \<le> length s" "hex4 (s @ q) = Some u" using hex4_Some [OF u(2)] by blast+
    show ?thesis
    proof (cases "0xD800 \<le> u \<and> u \<le> 0xDFFF")
      case False
      with p bq None u obtain t' where t': "parse_str (drop 4 s) = Some (t', r)" "t = encode_rune u @ t'" by auto
      with IH [OF t'(1)] sub bq None u hx False show ?thesis by auto
    next
      case True
      show ?thesis
      proof (cases "if u \<le> 0xDBFF then low_surrogate (drop 4 s) else None")
        case lone: None
        with p bq None u True obtain t' where t': "parse_str (drop 4 s) = Some (t', r)" "t = encode_rune RuneError @ t'" by auto
        note i = IH [OF t'(1)]
        have "low_surrogate (drop 4 s @ q) = None" if "u \<le> 0xDBFF"
          using lone low_surrogate_extend [of "drop 4 s" q] i that by simp
        with i sub bq None u hx True t' show ?thesis by (cases "u \<le> 0xDBFF") auto
      next
        case (Some l)
        with p bq None u True obtain t' where t': "parse_str (drop 10 s) = Some (t', r)"
          "t = encode_rune (0x10000 + (u - 0xD800) * 1024 + (l - 0xDC00)) @ t'" by auto
        note i = IH [OF t'(1)]
        have len: "10 \<le> length s" using Some low_surrogate_length [of "drop 4 s"] by (auto split: if_splits)
        have "quote_char \<in> set (drop 4 s)" using i set_drop_subset_set_drop [of 4 10 s] by auto
        then have "low_surrogate (drop 4 s @ q) = Some l" "u \<le> 0xDBFF"
          using Some low_surrogate_extend [of "drop 4 s" q] by (auto split: if_splits)
        with i sub bq None u hx len True t' show ?thesis by auto
      qed
    qed
  qed
qed

lemma parse_str_extend:
  "parse_str s = Some (t, r) \<Longrightarrow> quote_char \<in> set s \<and> parse_str (s @ q) = Some (t, r @ q)"
proof (induction s arbitrary: t r rule: length_induct)
  case (1 s)
  then obtain c s' where s: "s = c # s'" by (cases s) auto
  have IH: "quote_char \<in> set (drop k s') \<and> parse_str (drop k s' @ q) = Some (t', r' @ q)"
    if "parse_str (drop k s') = Some (t', r')" for k t' r' using "1.IH" that s by auto
  consider (quote) "c = quote_char" | (esc) "c = backslash" "c \<noteq> quote_char"
    | (ascii) "c \<noteq> backslash" "c \<noteq> quote_char" "byte_val c < 0x80"
    | (multi) "c \<noteq> backslash" "c \<noteq> quote_char" "\<not> byte_val c < 0x80" by blast
  then show ?case
  proof cases
    case quote
    with "1.prems" s show ?thesis by simp
  next
    case esc
    with "1.prems" s obtain e s1 where s1: "s' = e # s1" by (auto split: list.splits)
    have "quote_char \<in> set s1 \<and> parse_str ((backslash # e # s1) @ q) = Some (t, r @ q)"
    proof (rule parse_str_escape)
      show "parse_str (backslash # e # s1) = Some (t, r)" using "1.prems" esc s s1 by simp
    qed (use IH [of "Suc _"] s1 in simp)
    with esc s s1 show ?thesis by simp
  next
    case ascii
    with "1.prems" s obtain t' where t': "parse_str (drop 0 s') = Some (t', r)" "t = c # t'" "\<not> byte_val c < 32"
      by (auto split: if_splits)
    with IH [OF t'(1)] ascii s show ?thesis by auto
  next
    case multi
    obtain w n where d: "decode_rune (c # s') = (w, n)" by (cases "decode_rune (c # s')")
    have nc: "\<not> byte_val c < 32" using multi by simp
    with "1.prems" multi d s obtain t' where t': "parse_str (drop (n - 1) s') = Some (t', r)" "t = encode_rune w @ t'"
      by (auto simp del: decode_rune.simps)
    note i = IH [OF t'(1)]
    have quote: "quote_char \<in> set s'" using i by (meson in_set_dropD)
    have "decode_rune (c # s' @ q) = (w, n)" using d multi(3) decode_multi_extend [OF quote] by simp
    moreover have "n - 1 \<le> length s'" using decode_rune_width [OF d] by linarith
    ultimately show ?thesis using i t' multi nc s quote by (simp del: decode_rune.simps)
  qed
qed

section \<open>Numbers\<close>

lemma take_digits_extend: "take_digits s = (ds, r) \<Longrightarrow> r \<noteq> [] \<Longrightarrow> take_digits (s @ q) = (ds, r @ q)"
  by (auto simp: take_digits_def takeWhile_append dropWhile_append dropWhile_eq_Nil_conv)

lemma begins_with_append: "s \<noteq> [] \<Longrightarrow> begins_with c (s @ q) = begins_with c s"
  by (cases s) (simp_all add: begins_with_def)

lemma num_int_extend: "num_int s = Some (i, r) \<Longrightarrow> r \<noteq> [] \<Longrightarrow> num_int (s @ q) = Some (i, r @ q)"
  using num_int_length [of s i r]
  by (cases "s = []") (auto simp: num_int_def begins_with_append take_digits_extend split: if_splits prod.splits)

lemma num_frac_extend:
  assumes "num_frac s = Some (f, r)" and "r \<noteq> []"
  shows "num_frac (s @ q) = Some (f, r @ q)"
proof -
  have s: "s \<noteq> []" using num_frac_length [OF assms(1)] assms(2) by auto
  with assms show ?thesis
    by (auto simp: num_frac_def begins_with_append take_digits_extend split: if_splits prod.splits)
qed

lemma num_exp_extend:
  assumes "num_exp s = Some (e, r)" and "r \<noteq> []"
  shows "num_exp (s @ q) = Some (e, r @ q)"
proof -
  obtain c t where s: "s = c # t" using num_exp_length [OF assms(1)] assms(2) by (cases s) auto
  show ?thesis
  proof (cases "c = CHR ''e'' \<or> c = CHR ''E''")
    case True
    define sg where "sg u = (if begins_with (CHR ''+'') u \<or> begins_with (CHR ''-'') u then [hd u] else [])" for u
    have exp: "num_exp (c # u) = (case take_digits (drop (length (sg u)) u) of
        (ds, r2) \<Rightarrow> if ds = [] then None else Some (c # sg u @ ds, r2))" for u
      using True by (auto simp: num_exp_def sg_def split: prod.split)
    obtain ds r2 where d: "take_digits (drop (length (sg t)) t) = (ds, r2)" by (cases "take_digits (drop (length (sg t)) t)")
    with assms s exp [of t] have r: "ds \<noteq> []" "r2 = r" "e = c # sg t @ ds" by (auto split: if_splits)
    then have t: "t \<noteq> []" using take_digits_length [OF d] by auto
    then have "sg (t @ q) = sg t" "drop (length (sg t)) (t @ q) = drop (length (sg t)) t @ q"
      by (auto simp: sg_def begins_with_append Suc_le_eq)
    with d r s take_digits_extend [OF d] assms(2) exp [of "t @ q"] show ?thesis by simp
  qed (use assms s in \<open>auto simp: num_exp_def\<close>)
qed

lemma parse_num_extend:
  assumes "parse_num s = Some (v, r)" and "r \<noteq> []"
  shows "parse_num (s @ q) = Some (v, r @ q)"
proof -
  have s: "s \<noteq> []" using parse_num_length [OF assms(1)] by auto
  let ?sg = "if begins_with (CHR ''-'') s then ''-'' else []"
  obtain i r1 f r2 e where n: "num_int (drop (length ?sg) s) = Some (i, r1)" "num_frac r1 = Some (f, r2)"
    "num_exp r2 = Some (e, r)" "v = JNum (?sg @ i @ f @ e)"
    using assms(1) by (auto simp: parse_num_def Let_def split: option.splits)
  have "r2 \<noteq> []" using num_exp_length [OF n(3)] assms(2) by auto
  moreover have "r1 \<noteq> []" using num_frac_length [OF n(2)] calculation by auto
  moreover have "drop (length ?sg) (s @ q) = drop (length ?sg) s @ q" using s by (cases s) auto
  ultimately show ?thesis
    using n s num_int_extend [OF n(1)] num_frac_extend [OF n(2)] num_exp_extend [OF n(3) assms(2)]
    by (simp add: parse_num_def begins_with_append Let_def)
qed

section \<open>Values\<close>

lemma parse_num_start:
  assumes "parse_num s = Some (v, r)"
  shows "is_num v \<and> (\<exists>c t. s = c # t \<and> (c = CHR ''-'' \<or> is_digit c))"
proof -
  obtain c t where s: "s = c # t" using parse_num_length [OF assms] by (cases s) auto
  have "c = CHR ''-'' \<or> is_digit c"
    using assms s by (auto simp: parse_num_def num_int_def begins_with_def take_digits_def is_digit_def byte_val_def Let_def
        split: if_splits option.splits prod.splits)
  with assms s show ?thesis by (auto simp: parse_num_def is_num_def Let_def split: option.splits)
qed

lemma parse_lit_extend:
  assumes "parse_lit s = Some (v, r)" and "r \<noteq> [] \<or> \<not> is_num v"
  shows "parse_lit (s @ q) = Some (v, r @ q)"
proof -
  consider (null) "take 4 s = ''null''" | (true) "take 4 s = ''true''" | (false) "take 5 s = ''false''"
    | (num) "parse_num s = Some (v, r)" "take 4 s \<noteq> ''null''" "take 4 s \<noteq> ''true''" "take 5 s \<noteq> ''false''"
    using assms(1) by (auto simp: parse_lit_def split: if_splits)
  then show ?thesis
  proof cases
    case num
    from parse_num_start [OF num(1)] obtain c t where s: "s = c # t" "c = CHR ''-'' \<or> is_digit c" "is_num v" by blast
    have "parse_num (s @ q) = Some (v, r @ q)" using parse_num_extend [OF num(1)] assms(2) s(3) by blast
    then show ?thesis using s by (auto simp: parse_lit_def is_digit_def byte_val_def)
  qed (use assms(1) take_eq_length [of 4 s] take_eq_length [of 5 s] in \<open>auto simp: parse_lit_def\<close>)
qed

lemma skip_ws_extend: "skip_ws s = c # t \<Longrightarrow> skip_ws (s @ q) = c # t @ q"
  by (induction s) (auto simp: skip_ws_Cons split: if_splits)

lemma begins_extend: "begins_with c (skip_ws s) \<Longrightarrow> begins_with c (skip_ws (s @ q)) \<and> tl (skip_ws (s @ q)) = tl (skip_ws s) @ q"
  by (cases "skip_ws s") (auto simp: begins_with_def skip_ws_extend)

lemma not_begins_extend:
  "skip_ws s \<noteq> [] \<Longrightarrow> \<not> begins_with c (skip_ws s) \<Longrightarrow> \<not> begins_with c (skip_ws (s @ q))"
  by (cases "skip_ws s") (auto simp: begins_with_def skip_ws_extend)

lemma parse_nonblank:
  "parse_val d n s = Some (v, r) \<Longrightarrow> skip_ws s \<noteq> []"
  "parse_elems d n s = Some (vs, r) \<Longrightarrow> skip_ws s \<noteq> []"
  "parse_members d n s = Some (kvs, r) \<Longrightarrow> skip_ws s \<noteq> []"
proof -
  show v: "parse_val d n s = Some (v, r) \<Longrightarrow> skip_ws s \<noteq> []" for d n v r by (cases n) auto
  show "parse_members d n s = Some (kvs, r) \<Longrightarrow> skip_ws s \<noteq> []" by (cases n) auto
  show "parse_elems d n s = Some (vs, r) \<Longrightarrow> skip_ws s \<noteq> []" by (cases n) (auto dest: v split: option.splits)
qed

text \<open>One step of the parser on input that goes on.\<close>

lemma parse_val_extend_step:
  assumes p: "parse_val d (Suc n) s = Some (v, r)" and num: "r \<noteq> [] \<or> \<not> is_num v"
    and es: "\<And>e t vs r. parse_elems e n t = Some (vs, r) \<Longrightarrow> parse_elems e n (t @ q) = Some (vs, r @ q)"
    and ms: "\<And>e t kvs r. parse_members e n t = Some (kvs, r) \<Longrightarrow> parse_members e n (t @ q) = Some (kvs, r @ q)"
  shows "parse_val d (Suc n) (s @ q) = Some (v, r @ q)"
proof -
  from p obtain c t where s: "skip_ws s = c # t" by (cases "skip_ws s") auto
  note s' = skip_ws_extend [OF s, of q]
  consider (empty) b where "c = CHR ''{'' \<and> b = CHR ''}'' \<or> c = CHR ''['' \<and> b = CHR '']''" "begins_with b (skip_ws t)"
    | (obj) "c = CHR ''{''" "\<not> begins_with (CHR ''}'') (skip_ws t)"
    | (arr) "c = CHR ''[''" "\<not> begins_with (CHR '']'') (skip_ws t)"
    | (str) "c = quote_char" "c \<noteq> CHR ''{''" "c \<noteq> CHR ''[''"
    | (lit) "c \<noteq> quote_char" "c \<noteq> CHR ''{''" "c \<noteq> CHR ''[''" by blast
  then show ?thesis
  proof cases
    case empty
    with p s s' begins_extend [OF empty(2), of q] show ?thesis by (auto simp: quote_char_def split: if_splits)
  next
    case obj
    with p s obtain kvs where k: "parse_members (d - 1) n t = Some (kvs, r)" "v = JObj kvs" "d \<noteq> 0" by (auto split: if_splits)
    with obj s' ms [OF k(1)] not_begins_extend [OF parse_nonblank(3) [OF k(1)] obj(2), of q] show ?thesis by simp
  next
    case arr
    with p s obtain vs where k: "parse_elems (d - 1) n t = Some (vs, r)" "v = JArr vs" "d \<noteq> 0" by (auto split: if_splits)
    with arr s' es [OF k(1)] not_begins_extend [OF parse_nonblank(2) [OF k(1)] arr(2), of q] show ?thesis by simp
  next
    case str
    with p s obtain x where x: "parse_str t = Some (x, r)" "v = JStr x" by auto
    with str s' parse_str_extend [OF x(1), of q] show ?thesis by simp
  next
    case lit
    with p s have "parse_lit (c # t) = Some (v, r)" by simp
    from parse_lit_extend [OF this num, of q] lit s' show ?thesis by simp
  qed
qed

lemma parse_elems_extend_step:
  assumes p: "parse_elems d (Suc n) s = Some (vs, r)"
    and v: "\<And>t v r. parse_val d n t = Some (v, r) \<Longrightarrow> r \<noteq> [] \<Longrightarrow> parse_val d n (t @ q) = Some (v, r @ q)"
    and es: "\<And>t vs r. parse_elems d n t = Some (vs, r) \<Longrightarrow> parse_elems d n (t @ q) = Some (vs, r @ q)"
  shows "parse_elems d (Suc n) (s @ q) = Some (vs, r @ q)"
proof -
  from p obtain w r1 c t where w: "parse_val d n s = Some (w, r1)" "skip_ws r1 = c # t"
    by (auto split: option.splits list.splits)
  have "parse_val d n (s @ q) = Some (w, r1 @ q)" using v [OF w(1)] w(2) by (cases r1) auto
  with p w skip_ws_extend [OF w(2), of q] es show ?thesis by (auto split: if_splits)
qed

lemma parse_members_extend_step:
  assumes p: "parse_members d (Suc n) s = Some (kvs, r)"
    and v: "\<And>t v r. parse_val d n t = Some (v, r) \<Longrightarrow> r \<noteq> [] \<Longrightarrow> parse_val d n (t @ q) = Some (v, r @ q)"
    and ms: "\<And>t kvs r. parse_members d n t = Some (kvs, r) \<Longrightarrow> parse_members d n (t @ q) = Some (kvs, r @ q)"
  shows "parse_members d (Suc n) (s @ q) = Some (kvs, r @ q)"
proof -
  from p obtain r0 k r1 w r2 c t where h: "skip_ws s = quote_char # r0" "parse_str r0 = Some (k, r1)"
    "begins_with (CHR '':'') (skip_ws r1)" "parse_val d n (tl (skip_ws r1)) = Some (w, r2)" "skip_ws r2 = c # t"
    by (auto split: option.splits list.splits if_splits)
  have "parse_val d n (tl (skip_ws r1) @ q) = Some (w, r2 @ q)" using v [OF h(4)] h(5) by (cases r2) auto
  with p h skip_ws_extend [OF h(1), of q] parse_str_extend [OF h(2), of q] begins_extend [OF h(3), of q]
    skip_ws_extend [OF h(5), of q] ms
  show ?thesis by (auto split: if_splits)
qed

lemma parse_extend:
  "parse_val d n s = Some (v, r) \<Longrightarrow> r \<noteq> [] \<or> \<not> is_num v \<Longrightarrow> parse_val d n (s @ q) = Some (v, r @ q)"
  "parse_elems d n s = Some (vs, r) \<Longrightarrow> parse_elems d n (s @ q) = Some (vs, r @ q)"
  "parse_members d n s = Some (kvs, r) \<Longrightarrow> parse_members d n (s @ q) = Some (kvs, r @ q)"
proof (induction n arbitrary: d s v r vs kvs)
  case (Suc n)
  {
    case 1
    then show ?case using Suc.IH by (intro parse_val_extend_step) blast+
  next
    case 2
    then show ?case using Suc.IH by (intro parse_elems_extend_step) blast+
  next
    case 3
    then show ?case using Suc.IH by (intro parse_members_extend_step) blast+
  }
qed simp_all

text \<open>The text of an object that is cut off is not a value.\<close>

lemma json_decode_cut:
  assumes "json_ok (JObj kvs)" and "json_depth (JObj kvs) \<le> maxNestingDepth" and "k < length (json_text (JObj kvs))"
  shows "json_decode (take k (json_text (JObj kvs))) = None"
proof (rule ccontr)
  let ?t = "json_text (JObj kvs)" and ?n = "Suc (2 * length (json_text (JObj kvs)))"
  assume "\<not> ?thesis"
  then obtain v r where "json_decode (take k ?t) = Some (v, r)" by auto
  then have v: "parse_val maxNestingDepth ?n (take k ?t) = Some (v, r)"
    using json_decode_fuel [of "take k ?t" ?n] by (simp del: parse_val.simps json_text.simps)
  have "k \<noteq> 0" using v by (cases k) (auto simp del: json_text.simps)
  then have "skip_ws (take k ?t) = CHR ''{'' # take (k - 1) (tl ?t)" by (cases k) (simp_all add: skip_ws_Cons is_ws_def byte_val_def)
  then have "\<not> is_num v" using v by (auto simp: is_num_def simp del: json_text.simps split: if_splits)
  from parse_extend(1) [OF v, of "drop k ?t"] this
  have "parse_val maxNestingDepth ?n ?t = Some (v, r @ drop k ?t)" by (simp del: parse_val.simps json_text.simps)
  moreover have "json_decode ?t = Some (JObj kvs, [])"
    using json_decode_text [OF assms(1,2), of "[]"] by (simp del: json_text.simps)
  ultimately show False using json_decode_fuel [of ?t ?n] assms(3) by (simp del: parse_val.simps json_text.simps)
qed

end
