(* ===== verification/Crash.thy ===== *)
theory Crash
  imports RaftNode_Runs WAL_Log Go_JSON_Prefix
begin

text \<open>
  Crashes in the middle of a write. The records of a save go to the log one after the other, and a crash may cut the
  text at any byte: what reading the log then returns, and what becomes of the server that is started on it.
\<close>

section \<open>Specification\<close>

text \<open>The records whose text is complete in the first \<open>k\<close> bytes; the newline after the last one may be missing.\<close>

fun complete_records :: "raft_codec \<Rightarrow> WALRecord list \<Rightarrow> nat \<Rightarrow> WALRecord list" where
  "complete_records C [] k = []"
| "complete_records C (r # rs) k =
     (if Suc k < length (record_line C r) then [] else r # complete_records C rs (k - length (record_line C r)))"

text \<open>The cut falls between the first and the last byte of a record.\<close>

fun cut_inside :: "raft_codec \<Rightarrow> WALRecord list \<Rightarrow> nat \<Rightarrow> bool" where
  "cut_inside C [] k = False"
| "cut_inside C (r # rs) k =
     (if k < length (record_line C r) then 0 < k \<and> Suc k < length (record_line C r)
      else cut_inside C rs (k - length (record_line C r)))"

text \<open>The directories of a node whose log cannot be read.\<close>

definition unreadable :: "raft_codec \<Rightarrow> Config \<Rightarrow> goerr \<Rightarrow> 'r RaftNode \<Rightarrow> fs \<Rightarrow> bool" where
  "unreadable C cfg e rn s \<longleftrightarrow>
     node_dirs cfg rn \<and> reliable s \<and> wal_open (rn_wal rn) s \<and> snap_inv C (rn_snap rn) s
     \<and> (\<exists>b. file_at s (wal_path (wal_dir (rn_wal rn))) = Some b \<and> read_records C b (zero_HardState, []) = Inl e)"

section \<open>Lemmas: reading a log that is cut off\<close>

lemma read_cut_record:
  assumes C: "codec_ok C" and r: "wf_record r" and k: "0 < k" "Suc k < length (record_line C r)"
  shows "read_records C (take k (record_line C r)) acc = Inl (Wrap ''failed to decode WAL record'' ErrJSON)"
proof -
  have k': "k < length (json_text (record_json C r))" using k(2) by (simp add: record_line_def)
  have line: "take k (record_line C r) = take k (json_text (record_json C r))" using k' by (simp add: record_line_def)
  obtain kvs where j: "record_json C r = JObj kvs" by (simp add: record_json_def)
  have "json_decode (take k (json_text (record_json C r))) = None"
    using json_decode_cut record_json_ok [OF C r] k' unfolding j by blast
  moreover have "json_more (take k (json_text (record_json C r)))"
    using k(1) by (cases k) (simp_all add: j json_more_def skip_ws_Cons)
  ultimately show ?thesis unfolding line by (subst read_records.simps) simp
qed

lemma read_record_without_newline:
  assumes C: "codec_ok C" and r: "wf_record r"
  shows "read_records C (json_text (record_json C r)) acc = Inr (replay_record r acc)"
proof -
  have "json_decode (json_text (record_json C r)) = Some (record_json C r, [])"
    using record_json_ok [OF assms] json_decode_text [of _ "[]"] by simp
  then show ?thesis
    using json_more_line [of C r "[]"]
    by (subst read_records.simps) (simp add: into_record_json assms read_records_Nil)
qed

lemma read_cut_log:
  assumes C: "codec_ok C"
  shows "list_all wf_record rs \<Longrightarrow> read_records C (take k (log_text C rs)) acc
    = (if cut_inside C rs k then Inl (Wrap ''failed to decode WAL record'' ErrJSON)
       else Inr (fold replay_record (complete_records C rs k) acc))"
proof (induction rs arbitrary: k acc)
  case (Cons r rs)
  let ?n = "length (record_line C r)"
  have n: "0 < ?n" and r: "wf_record r" using Cons.prems by (simp_all add: record_line_def)
  have j: "1 < length (json_text (record_json C r))" by (simp add: record_json_def)
  consider (none) "k = 0" | (inside) "0 < k" "Suc k < ?n" | (all) "Suc k = ?n" | (more) "?n \<le> k" by linarith
  then show ?case
  proof cases
    case none
    with j show ?thesis by (auto simp: read_records_Nil record_line_def)
  next
    case inside
    with read_cut_record [OF C r inside] show ?thesis by simp
  next
    case all
    then have "take k (log_text C (r # rs)) = json_text (record_json C r)" by (auto simp: record_line_def)
    moreover have "complete_records C rs 0 = []" by (cases rs) (auto simp: record_line_def record_json_def)
    ultimately show ?thesis using all read_record_without_newline [OF C r] by simp
  next
    case more
    then have "take k (log_text C (r # rs)) = record_line C r @ take (k - ?n) (log_text C rs)" by simp
    with more Cons show ?thesis by (simp add: read_records_line C)
  qed
qed (simp add: read_records_Nil)

lemma read_cut_file:
  assumes inv: "wal_inv C w s" and rs: "list_all wf_record rs"
    and a: "appended (wal_f w) (take k (log_text C rs)) s s'"
  shows "\<exists>b. file_at s' (wal_path (wal_dir w)) = Some b
     \<and> read_records C b (zero_HardState, []) =
        (if cut_inside C rs k then Inl (Wrap ''failed to decode WAL record'' ErrJSON)
         else Inr (fold replay_record (complete_records C rs k) (wal_hardState w, wal_entries w)))"
proof -
  from inv have C: "codec_ok C" and wo: "wal_open w s" by (simp_all add: wal_inv_def)
  obtain rs0 where rs0: "list_all wf_record rs0" "file_at s (wal_path (wal_dir w)) = Some (log_text C rs0)"
    "fold replay_record rs0 (zero_HardState, []) = (wal_hardState w, wal_entries w)" using inv by (auto simp: wal_inv_def)
  have "file_at s' (wal_path (wal_dir w)) = Some (log_text C rs0 @ take k (log_text C rs))"
    using wal_open_file [OF wo] wal_open_file [OF wal_open_appended [OF a wo refl refl]] rs0(2) a by (simp add: appended_fields)
  moreover have "read_records C (log_text C rs0 @ take k (log_text C rs)) (zero_HardState, []) =
      read_records C (take k (log_text C rs)) (wal_hardState w, wal_entries w)"
    using read_records_log [OF C rs0(1)] rs0(3) by simp
  ultimately show ?thesis using read_cut_log [OF C rs] by simp
qed

section \<open>Lemmas: starting on a log that cannot be read\<close>

lemma unreadable_touch:
  assumes u: "unreadable C cfg e rn s"
    and same: "fs_nodes s' = fs_nodes s" "fs_data s' = fs_data s" "fs_fresh s' = fs_fresh s" "fs_plan s' = fs_plan s"
      "set (fs_dirs s) \<subseteq> set (fs_dirs s')"
  shows "unreadable C cfg e rn s'"
proof -
  have wo: "wal_open (rn_wal rn) s" and dirs: "node_dirs cfg rn" using u by (simp_all add: unreadable_def)
  have ok: "fs_ok s'" using wo same by (simp add: wal_open_def fs_ok_def)
  have out: "outside d s s'" for d using same by (intro outside_same) simp_all
  have "snap_inv C (rn_snap rn) s'"
    using snap_inv_outside(1) [OF _ out ok dirs_differ [OF dirs, symmetric]] u by (simp add: unreadable_def)
  moreover have "file_at s' p = file_at s p" for p by (rule file_at_cong) (simp_all add: same)
  moreover have "wal_open (rn_wal rn) s'" using wo same ok by (auto simp: wal_open_def)
  ultimately show ?thesis using u same(4) by (simp add: unreadable_def reliable_def)
qed

lemma unreadable_start:
  assumes u: "unreadable C cfg e rn s" and iv: "parse_interval PD (cf_SnapshotInterval cfg) = Inr n"
  obtains s' where "node_restart L C PD cfg s = (Inl (Wrap ''failed to read WAL'' e), s')" and "unreadable C cfg e rn s'"
proof -
  have i: "node_dirs cfg rn" "reliable s" "wal_open (rn_wal rn) s" using u by (simp_all add: unreadable_def)
  obtain rn1 s1 where nw: "NewRaftNode L cfg NewKVStore s = (Inr rn1, s1)" "node_dirs cfg rn1"
    "rn_wal rn1 = \<lparr>wal_dir = wal_dir (rn_wal rn), wal_f = \<lparr>fd_inode = fd_inode (wal_f (rn_wal rn)), fd_open = True\<rparr>,
               wal_hardState = zero_HardState, wal_entries = []\<rparr>"
    "rn_snap rn1 = rn_snap rn" "set (fs_dirs s) \<subseteq> set (fs_dirs s1)" "fs_nodes s1 = fs_nodes s" "fs_data s1 = fs_data s"
    "fs_fresh s1 = fs_fresh s" "fs_plan s1 = fs_plan s"
    by (rule NewRaftNode_reopens [OF i, of L])
  have u1: "unreadable C cfg e rn s1" by (rule unreadable_touch [OF u nw(6-9,5)])
  obtain res s2 where ld: "Snapshotter_Load C (rn_snap rn) s1 = (res, s2)" by (cases "Snapshotter_Load C (rn_snap rn) s1")
  obtain t2 where s2: "s2 = s1\<lparr>fs_tick := t2\<rparr>" using Load_reads_only [of C "rn_snap rn" s1] ld by auto
  have u2: "unreadable C cfg e rn s2" using s2 by (intro unreadable_touch [OF u1]) simp_all
  have sn: "snap_inv C (rn_snap rn) s1" "reliable s1" using u1 by (simp_all add: unreadable_def)
  have res: "\<not> (case res of Inl e \<Rightarrow> \<not> IsNotExist e | Inr _ \<Rightarrow> False)"
    using snap_load_eq [OF sn] ld
    by (cases "dom (saved_snapshots C (rn_snap rn) s1) \<subseteq> {0}") (auto simp: IsNotExist_def)
  obtain b where b: "file_at s2 (wal_path (wal_dir (rn_wal rn))) = Some b" "read_records C b (zero_HardState, []) = Inl e"
    using u2 by (auto simp: unreadable_def)
  have "ReadFile (wal_path (wal_dir (rn_wal rn))) s2 = (Inr b, s2\<lparr>fs_tick := Suc (fs_tick s2)\<rparr>)"
    using b(1) u2 by (auto simp: unreadable_def ReadFile_def io_next_def reliable_def file_at_def split: option.splits node.splits)
  then have "WAL_ReadAll C (rn_wal rn1) s2 = (Inl e, rn_wal rn1, s2\<lparr>fs_tick := Suc (fs_tick s2)\<rparr>)"
    using b(2) nw(3) by (simp add: WAL_ReadAll_def)
  moreover have "rn_cfg rn1 = cfg" using nw(2) by (simp add: node_dirs_def)
  ultimately have "node_restart L C PD cfg s = (Inl (Wrap ''failed to read WAL'' e), s2\<lparr>fs_tick := Suc (fs_tick s2)\<rparr>)"
    using nw(1,4) iv ld res by (simp add: node_restart_def RN_Start_def)
  moreover have "unreadable C cfg e rn (s2\<lparr>fs_tick := Suc (fs_tick s2)\<rparr>)" by (rule unreadable_touch [OF u2]) simp_all
  ultimately show ?thesis by (rule that)
qed

lemma unreadable_boot:
  assumes u: "unreadable C cfg e rn s" and iv: "parse_interval PD (cf_SnapshotInterval cfg) = Inr n"
  obtains s' where "server_boot L C PD cfg s = (Inl (Wrap ''Failed to start Raft node'' (Wrap ''failed to read WAL'' e)), s')"
    and "unreadable C cfg e rn s'"
proof -
  obtain r s1 where m: "MkdirAll (cf_DataDir cfg) s = (r, s1)" by (cases "MkdirAll (cf_DataDir cfg) s")
  note eff = MkdirAll_effect [OF m]
  have u1: "unreadable C cfg e rn s1" by (rule unreadable_touch [OF u eff(1-5)])
  have r: "r = Inr ()" using eff(7) u by (simp add: unreadable_def)
  obtain s2 where s2: "node_restart L C PD cfg s1 = (Inl (Wrap ''failed to read WAL'' e), s2)" "unreadable C cfg e rn s2"
    by (rule unreadable_start [OF u1 iv])
  have i: "node_dirs cfg rn" "reliable s1" "wal_open (rn_wal rn) s1" using u1 by (simp_all add: unreadable_def)
  obtain rn1 s' where nw: "NewRaftNode L cfg NewKVStore s1 = (Inr rn1, s')" by (rule NewRaftNode_reopens [OF i, of L])
  have "server_boot L C PD cfg s = (Inl (Wrap ''Failed to start Raft node'' (Wrap ''failed to read WAL'' e)), s2)"
    using m r nw s2(1) by (auto simp: server_boot_def node_restart_def split: prod.splits sum.splits)
  then show ?thesis using s2(2) by (rule that)
qed

lemma torn_unreadable:
  assumes inv: "node_inv C cfg rn s" and rs: "list_all wf_record rs" and cut: "cut_inside C rs k"
    and a: "appended (wal_f (rn_wal rn)) (take k (log_text C rs)) s t"
  shows "unreadable C cfg (Wrap ''failed to decode WAL record'' ErrJSON) rn t"
proof -
  note i = node_invD [OF inv]
  have wo: "wal_open (rn_wal rn) t" by (rule wal_open_appended [OF a i(10) refl refl])
  have "outside (wal_dir (rn_wal rn)) s t"
    using i(10) by (intro appended_outside [OF a, where n = "''wal.log''"]) (simp_all add: wal_open_def wal_path_def Join_def)
  moreover have "fs_ok t" using wo by (simp add: wal_open_def)
  ultimately have "snap_inv C (rn_snap rn) t" using snap_inv_outside(1) [OF i(4) _ _ dirs_differ [OF i(1), symmetric]] by blast
  then show ?thesis
    using wo i(1,2) appended_reliable [OF a] read_cut_file [OF i(3) rs a] cut by (simp add: unreadable_def)
qed

lemma unreadable_boots:
  assumes "unreadable C cfg e rn s" and "parse_interval PD (cf_SnapshotInterval cfg) = Inr n"
  shows "unreadable C cfg e rn (((\<lambda>u. snd (server_boot L C PD cfg u)) ^^ m) s)"
proof (induction m)
  case (Suc m)
  show ?case by (rule unreadable_boot [OF Suc.IH assms(2), of L]) simp
qed (simp add: assms(1))

lemma sample_cut: "cut_inside sample_codec (saved_records sample_codec zero_HardState [sample_entry 1] w) 1"
  using codec_okD(9) [OF sample_codec_ok, of zero_HardState]
  by (simp add: saved_records_def record_line_def record_json_def)

section \<open>Properties\<close>

text \<open>C4: what a save leaves in the log when it fails or the process dies in it: reading the file gives the state before the
  save with those of its records replayed whose text is complete (with or without the final newline), provided that
  the text was not cut inside a record; then reading fails. A save that returns without an error is not cut at all.\<close>

theorem crash_in_save:
  assumes "wal_inv C w s" and "WAL_Save C h es w s = (r, w', s')"
  shows "\<exists>b k. file_at s' (wal_path (wal_dir w)) = Some b
     \<and> (r = Inr () \<longrightarrow> k = length (log_text C (saved_records C h es w)))
     \<and> read_records C b (zero_HardState, []) =
        (if cut_inside C (saved_records C h es w) k then Inl (Wrap ''failed to decode WAL record'' ErrJSON)
         else Inr (fold replay_record (complete_records C (saved_records C h es w) k) (wal_hardState w, wal_entries w)))"
proof -
  have "fd_open (wal_f w)" using assms(1) by (simp add: wal_inv_def wal_open_def)
  from WAL_Save_effect(1) [OF this assms(2)] obtain c where c: "appended (wal_f w) c s s'"
    "prefix c (log_text C (saved_records C h es w))" "r = Inr () \<longrightarrow> c = log_text C (saved_records C h es w)"
    by (auto simp: writes_def)
  then have "c = take (length c) (log_text C (saved_records C h es w))" by (auto simp: prefix_def)
  with c(1) have "appended (wal_f w) (take (length c) (log_text C (saved_records C h es w))) s s'" by simp
  from read_cut_file [OF assms(1) saved_wf this] c(3) show ?thesis by blast
qed

theorem crash_in_save_witness:
  "\<exists>w' s' b k. wal_inv sample_codec sample_wal (sample_plan_fs (\<lambda>_. IoErr 2))
     \<and> WAL_Save sample_codec zero_HardState [sample_entry 1] sample_wal (sample_plan_fs (\<lambda>_. IoErr 2))
        = (Inl (Wrap ''failed to write record'' ErrIO), w', s')
     \<and> file_at s' (wal_path ''d'') = Some b
     \<and> read_records sample_codec b (zero_HardState, []) =
        (if cut_inside sample_codec (saved_records sample_codec zero_HardState [sample_entry 1] sample_wal) k
         then Inl (Wrap ''failed to decode WAL record'' ErrJSON)
         else Inr (fold replay_record (complete_records sample_codec
           (saved_records sample_codec zero_HardState [sample_entry 1] sample_wal) k) (zero_HardState, [])))"
proof -
  obtain r w' s' where sv: "WAL_Save sample_codec zero_HardState [sample_entry 1] sample_wal
      (sample_plan_fs (\<lambda>_. IoErr 2)) = (r, w', s')"
    by (cases "WAL_Save sample_codec zero_HardState [sample_entry 1] sample_wal (sample_plan_fs (\<lambda>_. IoErr 2))")
  have "r = Inl (Wrap ''failed to write record'' ErrIO)"
    using sv by (auto simp: WAL_Save_def WAL_saveHardState_def sample_codec_def WAL_writeRecord_def
        FWrite_def io_next_def sample_plan_fs_def sample_wal_def)
  with crash_in_save [OF sample_wal_inv sv] sv sample_wal_inv show ?thesis by fastforce
qed

text \<open>C38: a crash inside a record is fatal for the server: when the text of the records that a save was writing was cut
  inside a record, every later start of the process fails in reading the log, and no start repairs the file.\<close>

theorem torn_record_blocks_start:
  assumes "node_run L C H M PD cfg rn s" and "codec_ok C" and "lib_storage_ok L"
    and "parse_interval PD (cf_SnapshotInterval cfg) = Inr n"
    and "cut_inside C (saved_records C h es (rn_wal rn)) k"
    and "appended (wal_f (rn_wal rn)) (take k (log_text C (saved_records C h es (rn_wal rn)))) s t"
  shows "fst (server_boot L C PD cfg (((\<lambda>u. snd (server_boot L C PD cfg u)) ^^ m) t))
     = Inl (Wrap ''Failed to start Raft node'' (Wrap ''failed to read WAL'' (Wrap ''failed to decode WAL record'' ErrJSON)))"
proof -
  have "unreadable C cfg (Wrap ''failed to decode WAL record'' ErrJSON) rn t"
    by (rule torn_unreadable [OF node_run_inv [OF assms(1-4)] saved_wf assms(5,6)])
  then have u: "unreadable C cfg (Wrap ''failed to decode WAL record'' ErrJSON) rn (((\<lambda>u. snd (server_boot L C PD cfg u)) ^^ m) t)"
    by (rule unreadable_boots [OF _ assms(4)])
  show ?thesis by (rule unreadable_boot [OF u assms(4), where L = L]) simp
qed

theorem torn_record_blocks_start_witness:
  "\<exists>rn s t. node_run sample_lib sample_codec dead_client sample_msg_codec no_duration sample_cfg rn s
     \<and> appended (wal_f (rn_wal rn)) (take 1 (log_text sample_codec (saved_records sample_codec zero_HardState [sample_entry 1] (rn_wal rn)))) s t
     \<and> fst (server_boot sample_lib sample_codec no_duration sample_cfg t)
       = Inl (Wrap ''Failed to start Raft node'' (Wrap ''failed to read WAL'' (Wrap ''failed to decode WAL record'' ErrJSON)))"
proof -
  obtain rn s where r: "node_run sample_lib sample_codec dead_client sample_msg_codec no_duration sample_cfg rn s"
    by (rule sample_run)
  let ?b = "take 1 (log_text sample_codec (saved_records sample_codec zero_HardState [sample_entry 1] (rn_wal rn)))"
  let ?i = "fd_inode (wal_f (rn_wal rn))"
  have a: "appended (wal_f (rn_wal rn)) ?b s (s\<lparr>fs_data := (fs_data s)(?i := fs_data s ?i @ ?b)\<rparr>)"
    by (simp add: appended_def)
  from torn_record_blocks_start [OF r sample_codec_ok sample_lib_ok sample_interval sample_cut a, of 0] r a
  show ?thesis by (intro exI conjI) (assumption, assumption, simp)
qed

end
