(* ===== verification/EventLoop.thy ===== *)
theory EventLoop
  imports RaftNode_Durable
begin

text \<open>
  \<open>run\<close> of \<open>server/pkg/raftnode/raftnode.go\<close>: the event loop of a node over the sequence of what happens: ticks and \<open>Ready\<close>
  values, which the loop handles one at a time, and the calls of other goroutines, which happen in between. The loop looks
  at \<open>stopped\<close> after each event that it has handled, not when the node is stopped. The counter of ticks is only logged.
\<close>

section \<open>The loop\<close>

datatype 'r loop_input =
    TickEvent
  | ReadyEvent Ready
  | StopCall "unit res"
  | OtherCall "'r RaftNode \<Rightarrow> 'r RaftNode"

datatype 'r loop_result = Running "'r RaftNode" fs | Returned "'r RaftNode" fs | Panicked

fun run_loop ::
    "'r raft_lib \<Rightarrow> raft_codec \<Rightarrow> http_client \<Rightarrow> msg_codec \<Rightarrow> 'r loop_input list \<Rightarrow> 'r RaftNode \<Rightarrow> fs \<Rightarrow> 'r loop_result" where
  "run_loop L C H M [] rn s = Running rn s"
| "run_loop L C H M (TickEvent # is) rn s =
     (let rn = rn\<lparr>rn_raft := rl_Tick L (rn_raft rn)\<rparr> in
      if rn_stopped rn then Returned rn s else run_loop L C H M is rn s)"
| "run_loop L C H M (ReadyEvent rd # is) rn s =
     (case handle_ready L C H M rd rn s of
        None \<Rightarrow> Panicked
      | Some ((rn, s), _) \<Rightarrow> if rn_stopped rn then Returned rn s else run_loop L C H M is rn s)"
| "run_loop L C H M (StopCall r # is) rn s =
     (case RN_Stop L r rn s of (_, rn, s) \<Rightarrow> run_loop L C H M is rn s)"
| "run_loop L C H M (OtherCall f # is) rn s = run_loop L C H M is (f rn) s"

section \<open>Specification\<close>

fun is_event :: "'r loop_input \<Rightarrow> bool" where
  "is_event TickEvent = True"
| "is_event (ReadyEvent rd) = True"
| "is_event _ = False"

text \<open>The node is stopped, and something happens after that.\<close>

fun stop_then_event :: "'r loop_input list \<Rightarrow> bool" where
  "stop_then_event [] = False"
| "stop_then_event (StopCall r # is) = list_ex is_event is"
| "stop_then_event (_ # is) = stop_then_event is"

text \<open>\<open>Ready\<close> values whose snapshots can be restored, and calls that leave the store's map and \<open>stopped\<close> alone.\<close>

fun input_ok :: "raft_codec \<Rightarrow> 'r loop_input \<Rightarrow> bool" where
  "input_ok C (ReadyEvent rd) = ready_ok C rd"
| "input_ok C (OtherCall f) \<longleftrightarrow> (\<forall>rn. rn_stopped (f rn) = rn_stopped rn \<and> (kv_ok (rn_store rn) \<longrightarrow> kv_ok (rn_store (f rn))))"
| "input_ok C _ = True"

text \<open>A \<open>Ready\<close> that brings nothing.\<close>

definition quiet_ready :: Ready where
  "quiet_ready =
     \<lparr>rd_HardState = zero_HardState, rd_Entries = [], rd_CommittedEntries = [], rd_Messages = [],
      rd_Snapshot = zero_Snapshot, rd_SoftState = None\<rparr>"

section \<open>Lemmas\<close>

lemma createSnapshot_frame:
  "createSnapshot C rn s = (r, rn', s') \<Longrightarrow> rn_stopped rn' = rn_stopped rn \<and> rn_store rn' = rn_store rn"
  by (auto simp: createSnapshot_def Let_def split: prod.splits sum.splits)

lemma ready_compact_frame:
  "ready_compact C rn s = (rn', s') \<Longrightarrow> rn_stopped rn' = rn_stopped rn \<and> rn_store rn' = rn_store rn"
  by (auto simp: ready_compact_def dest: createSnapshot_frame split: prod.splits if_splits)

lemma ready_frame:
  "rn_stopped (fst (ready_save L C rd rn s)) = rn_stopped rn" "rn_store (fst (ready_save L C rd rn s)) = rn_store rn"
  "rn_stopped (ready_snapshot L C rd rn) = rn_stopped rn"
  "rn_stopped (ready_leader rd rn) = rn_stopped rn" "rn_store (ready_leader rd rn) = rn_store rn"
  by (auto simp: ready_save_def ready_snapshot_def ready_leader_def Let_def split: prod.splits option.splits)

text \<open>Whatever the disk does, a turn on a usable store does not panic.\<close>

lemma handle_ready_total:
  assumes ok: "kv_ok (rn_store rn)" and rd: "ready_ok C rd"
  obtains rn' s' posted where "handle_ready L C H M rd rn s = Some ((rn', s'), posted)"
    and "kv_ok (rn_store rn')" and "rn_stopped rn' = rn_stopped rn"
proof -
  obtain rn1 s1 where 1: "ready_save L C rd rn s = (rn1, s1)" by (cases "ready_save L C rd rn s")
  have f1: "rn_stopped rn1 = rn_stopped rn" "rn_store rn1 = rn_store rn"
    using ready_frame(1,2) [of L C rd rn s] 1 by simp_all
  have "kv_ok (rn_store (ready_snapshot L C rd rn1))"
    using ok f1(2) rd restore_ok [of "rd_Snapshot rd" "rn_store rn1"]
    by (auto simp: ready_snapshot_def ready_ok_def Let_def)
  from apply_committed_run [OF this] obtain rn3 where
    3: "apply_committed L C (rd_CommittedEntries rd) (ready_snapshot L C rd rn1) = Some rn3" "kv_ok (rn_store rn3)"
      "same_but_applied (ready_snapshot L C rd rn1) rn3" by blast
  obtain rn4 s4 where 4: "ready_compact C rn3 s1 = (rn4, s4)" by (cases "ready_compact C rn3 s1")
  let ?rn5 = "ready_leader rd rn4"
  have "handle_ready L C H M rd rn s
      = Some ((?rn5\<lparr>rn_raft := rl_Advance L (rn_raft ?rn5)\<rparr>, s4), ready_send H M rd rn1)"
    using 1 3(1) 4 by (simp add: handle_ready_def Let_def)
  then show ?thesis
    by (rule that) (use 3 f1 ready_compact_frame [OF 4] in \<open>simp_all add: ready_frame same_but_applied_def\<close>)
qed

lemma RN_Stop_frame:
  "RN_Stop L r rn s = (x, rn', s') \<Longrightarrow> rn_stopped rn' \<and> rn_store rn' = rn_store rn"
  by (auto simp: RN_Stop_def Let_def split: prod.splits sum.splits if_splits)

lemma stopped_loop:
  assumes "rn_stopped rn" and "kv_ok (rn_store rn)" and "list_all (input_ok C) is"
  shows "if list_ex is_event is then \<exists>rn' s'. run_loop L C H M is rn s = Returned rn' s'
         else \<exists>rn' s'. run_loop L C H M is rn s = Running rn' s'"
  using assms
proof (induction "is" arbitrary: rn s)
  case (Cons i "is")
  show ?case
  proof (cases i)
    case (ReadyEvent rd)
    then have "ready_ok C rd" using Cons.prems by simp
    from handle_ready_total [OF Cons.prems(2) this, of L H M s] ReadyEvent Cons.prems(1) show ?thesis by fastforce
  next
    case (StopCall r)
    obtain x rn' s' where st: "RN_Stop L r rn s = (x, rn', s')" by (cases "RN_Stop L r rn s")
    with StopCall Cons RN_Stop_frame [OF st] show ?thesis by simp
  qed (use Cons in auto)
qed simp

lemma loop_outcome:
  assumes "\<not> rn_stopped rn" and "kv_ok (rn_store rn)" and "list_all (input_ok C) is"
  shows "if stop_then_event is then \<exists>rn' s'. run_loop L C H M is rn s = Returned rn' s'
         else \<exists>rn' s'. run_loop L C H M is rn s = Running rn' s'"
  using assms
proof (induction "is" arbitrary: rn s)
  case (Cons i "is")
  show ?case
  proof (cases i)
    case (ReadyEvent rd)
    then have "ready_ok C rd" using Cons.prems by simp
    then obtain rn' s' p where "handle_ready L C H M rd rn s = Some ((rn', s'), p)" "kv_ok (rn_store rn')" "\<not> rn_stopped rn'"
      using handle_ready_total [OF Cons.prems(2), of C rd L H M s] Cons.prems(1) by metis
    with ReadyEvent Cons show ?thesis by simp
  next
    case (StopCall r)
    obtain x rn' s' where st: "RN_Stop L r rn s = (x, rn', s')" by (cases "RN_Stop L r rn s")
    with StopCall Cons.prems RN_Stop_frame [OF st] stopped_loop [of rn' C "is" L H M s'] show ?thesis by simp
  qed (use Cons in auto)
qed simp

lemma run_loop_append:
  "run_loop L C H M (is @ js) rn s = (case run_loop L C H M is rn s of
     Running rn s \<Rightarrow> run_loop L C H M js rn s | Returned rn s \<Rightarrow> Returned rn s | Panicked \<Rightarrow> Panicked)"
  by (induction L C H M "is" rn s rule: run_loop.induct) (auto simp: Let_def split: option.splits prod.splits)

lemma closed_save:
  assumes "\<not> fd_open (wal_f w)" and "es \<noteq> []"
  shows "\<exists>e w'. WAL_Save C h es w s = (Inl e, w', s) \<and> wal_entries w' = wal_entries w"
proof -
  have wr: "WAL_writeRecord C v r s = (Inl (Wrap ''failed to write record'' ErrClosed), s)" if "wal_f v = wal_f w" for v r
    using assms(1) that by (simp add: WAL_writeRecord_def FWrite_def)
  obtain e0 es0 where "es = e0 # es0" using assms(2) by (cases es) auto
  then show ?thesis by (auto simp: WAL_Save_def WAL_saveHardState_def wr)
qed

section \<open>Properties\<close>

text \<open>C18: the event loop ends exactly when the node is stopped and an event comes after that: it handles this one event
  and nothing that comes later; until then it goes on, and it never panics, whatever the disk does.\<close>

theorem loop_returns_iff:
  assumes "\<not> rn_stopped rn" and "kv_ok (rn_store rn)" and "list_all (input_ok C) is"
  shows "run_loop L C H M is rn s \<noteq> Panicked
     \<and> ((\<exists>rn' s'. run_loop L C H M is rn s = Returned rn' s') \<longleftrightarrow> stop_then_event is)
     \<and> (stop_then_event is \<longrightarrow> run_loop L C H M (is @ js) rn s = run_loop L C H M is rn s)"
  using loop_outcome [OF assms, of L H M s] by (cases "stop_then_event is") (auto simp: run_loop_append)

theorem loop_returns_iff_witness:
  "\<exists>rn' s'. run_loop sample_lib sample_codec dead_client sample_msg_codec
       ([TickEvent, StopCall (Inr ()), ReadyEvent quiet_ready] @ [TickEvent]) sample_node (empty_fs (\<lambda>_. IoErr 0)) = Returned rn' s'"
proof -
  have ok: "kv_ok (rn_store sample_node)" by (simp add: sample_node_def kv_ok_def NewKVStore_def)
  have ns: "\<not> rn_stopped sample_node" by (simp add: sample_node_def)
  have "cd_empty_snap sample_codec zero_Snapshot"
    using codec_okD(14) [OF sample_codec_ok, of zero_Snapshot] by (simp add: zero_Snapshot_def)
  then have "list_all (input_ok sample_codec) [TickEvent, StopCall (Inr ()), ReadyEvent quiet_ready]"
    by (simp add: ready_ok_def quiet_ready_def)
  from loop_returns_iff [OF ns ok this, of sample_lib dead_client sample_msg_codec "empty_fs (\<lambda>_. IoErr 0)" "[TickEvent]"]
  show ?thesis by (auto simp del: run_loop.simps)
qed

text \<open>A \<open>Ready\<close> that the loop still handles after the node was stopped is not saved: stopping closes the log, the save
  fails and is only logged, so the entries reach the library's storage but neither the file nor the log's memory.\<close>

theorem save_after_stop_lost:
  assumes "RN_Stop L r rn s = (x, rn1, s1)" and "\<not> rn_stopped rn" and "rd_Entries rd \<noteq> []"
    and "ready_save L C rd rn1 s1 = (rn2, s2)"
  shows "fs_nodes s2 = fs_nodes s \<and> fs_data s2 = fs_data s \<and> wal_entries (rn_wal rn2) = wal_entries (rn_wal rn)
     \<and> rn_raft rn2 = snd (rl_Append L (rd_Entries rd) (rn_raft rn1))"
proof -
  obtain y w t where cl: "WAL_Close (rn_wal rn) s = (y, w, t)" by (cases "WAL_Close (rn_wal rn) s")
  have w: "\<not> fd_open (wal_f w)" "wal_entries w = wal_entries (rn_wal rn)" "fs_nodes t = fs_nodes s" "fs_data t = fs_data s"
    using cl by (auto simp: WAL_Close_def FClose_def io_next_def split: io_outcome.splits if_splits)
  have st: "rn_wal rn1 = w" "s1 = t" using assms(1,2) cl by (auto simp: RN_Stop_def Let_def split: sum.splits)
  obtain e w' where "WAL_Save C (rd_HardState rd) (rd_Entries rd) w t = (Inl e, w', t)" "wal_entries w' = wal_entries w"
    using closed_save [OF w(1) assms(3)] by blast
  with assms(3,4) st w show ?thesis by (auto simp: ready_save_def)
qed

theorem save_after_stop_lost_witness:
  "\<exists>rn1 s1 rn2 s2. RN_Stop sample_lib (Inr ()) sample_node (empty_fs (\<lambda>_. IoOk)) = (Inr (), rn1, s1)
     \<and> ready_save sample_lib sample_codec (quiet_ready\<lparr>rd_Entries := [sample_entry 1]\<rparr>) rn1 s1 = (rn2, s2)
     \<and> fs_data s2 = fs_data (empty_fs (\<lambda>_. IoOk)) \<and> wal_entries (rn_wal rn2) = wal_entries (rn_wal sample_node)"
proof -
  obtain x rn1 s1 where st: "RN_Stop sample_lib (Inr ()) sample_node (empty_fs (\<lambda>_. IoOk)) = (x, rn1, s1)"
    by (cases "RN_Stop sample_lib (Inr ()) sample_node (empty_fs (\<lambda>_. IoOk))")
  have x: "x = Inr ()"
    using st by (auto simp: RN_Stop_def sample_node_def sample_wal_def WAL_Close_def FClose_def io_next_def empty_fs_def)
  obtain rn2 s2 where sv: "ready_save sample_lib sample_codec (quiet_ready\<lparr>rd_Entries := [sample_entry 1]\<rparr>) rn1 s1 = (rn2, s2)"
    by (cases "ready_save sample_lib sample_codec (quiet_ready\<lparr>rd_Entries := [sample_entry 1]\<rparr>) rn1 s1")
  have ns: "\<not> rn_stopped sample_node" by (simp add: sample_node_def)
  from save_after_stop_lost [OF st ns _ sv] st x sv show ?thesis by auto
qed

end
