(* ===== verification/Controller.thy ===== *)
theory Controller
  imports Config
begin

text \<open>
  \<open>operator/controllers/raftcluster_controller.go\<close> over \<open>operator/api/v1/raftcluster_types.go\<close>: the
  reconciler of a Raft cluster. The Kubernetes API behind the controller-runtime client is not part
  of the repository: it is a record of functions over a state of its own. \<open>CreateOrUpdate\<close> is called
  with functions that set the owner reference and the whole spec, so it is one function of the two;
  a status update returns the object that the server sends back. Times and durations are in
  nanoseconds. The status conditions, which no code touches, and the log lines are left out.

  Phases, joint states and steps are strings in the code, and an unknown step is handled.
\<close>

section \<open>The API types\<close>

definition PhasePending :: string where "PhasePending = ''Pending''"
definition PhaseReady :: string where "PhaseReady = ''Ready''"
definition PhaseReconfiguring :: string where "PhaseReconfiguring = ''Reconfiguring''"
definition PhaseDegraded :: string where "PhaseDegraded = ''Degraded''"

definition JointStateNone :: string where "JointStateNone = ''none''"
definition JointStateEntering :: string where "JointStateEntering = ''entering''"
definition JointStateCommitted :: string where "JointStateCommitted = ''committed''"
definition JointStateLeaving :: string where "JointStateLeaving = ''leaving''"

definition ReconfigStepNone :: string where "ReconfigStepNone = []"
definition ReconfigStepAddLearner :: string where "ReconfigStepAddLearner = ''AddLearner''"
definition ReconfigStepCatchUp :: string where "ReconfigStepCatchUp = ''CatchUp''"
definition ReconfigStepEnterJoint :: string where "ReconfigStepEnterJoint = ''EnterJoint''"
definition ReconfigStepCommitNew :: string where "ReconfigStepCommitNew = ''CommitNew''"
definition ReconfigStepLeaveJoint :: string where "ReconfigStepLeaveJoint = ''LeaveJoint''"
definition ReconfigStepLeaderTransfer :: string where "ReconfigStepLeaderTransfer = ''LeaderTransfer''"

record ReconfigPolicy =
  rp_RateLimit :: string
  rp_MaxParallel :: int
  rp_CooldownSeconds :: int

record RaftClusterSpec =
  sc_Replicas :: i32
  sc_Image :: string
  sc_StorageSize :: string
  sc_SnapshotInterval :: string
  sc_ElectionTimeoutMs :: int
  sc_SafetyMode :: string
  sc_ReconfigPolicy :: ReconfigPolicy

record MemberStatus =
  mb_NodeID :: string
  mb_Role :: string
  mb_CaughtUp :: bool
  mb_LastHeartbeat :: "int option"

record RaftClusterStatus =
  cs_Phase :: string
  cs_Leader :: string
  cs_Members :: "MemberStatus list"
  cs_JointState :: string
  cs_LastReconfigAt :: "int option"
  cs_CurrentReconfigStep :: string
  cs_ConfigurationIndex :: u64

record RaftCluster =
  cl_Name :: string
  cl_Namespace :: string
  cl_Spec :: RaftClusterSpec
  cl_Status :: RaftClusterStatus

section \<open>What the operator writes to Kubernetes\<close>

record ServiceSpec =
  sv_ClusterIP :: string
  sv_Selector :: "(string, string) gomap"
  sv_Ports :: "(string \<times> int) list"

record Container =
  ct_Name :: string
  ct_Image :: string
  ct_ImagePullPolicy :: string
  ct_Command :: "string list"
  ct_Args :: "string list"
  ct_Env :: "(string \<times> string) list"
  ct_Ports :: "(string \<times> int) list"
  ct_VolumeMounts :: "(string \<times> string) list"

record VolumeClaim =
  vc_Name :: string
  vc_AccessModes :: "string list"
  vc_Storage :: int

record StatefulSetSpec =
  ss_Replicas :: "i32 option"
  ss_MatchLabels :: "(string, string) gomap"
  ss_ServiceName :: string
  ss_PodLabels :: "(string, string) gomap"
  ss_Containers :: "Container list"
  ss_VolumeClaims :: "VolumeClaim list"

record 'k kube_api =
  ka_get_cluster :: "string \<times> string \<Rightarrow> 'k \<Rightarrow> RaftCluster res"
  ka_update_status :: "RaftCluster \<Rightarrow> 'k \<Rightarrow> RaftCluster res \<times> 'k"
  ka_apply_service :: "RaftCluster \<Rightarrow> string \<times> string \<Rightarrow> ServiceSpec \<Rightarrow> 'k \<Rightarrow> unit res \<times> 'k"
  ka_apply_sts :: "RaftCluster \<Rightarrow> string \<times> string \<Rightarrow> StatefulSetSpec \<Rightarrow> 'k \<Rightarrow> unit res \<times> 'k"
  ka_get_sts :: "string \<times> string \<Rightarrow> 'k \<Rightarrow> StatefulSetSpec res"
  ka_not_found :: "goerr \<Rightarrow> bool"
  ka_quantity :: "string \<Rightarrow> int res"

record Result =
  re_Requeue :: bool
  re_RequeueAfter :: int

definition no_result :: Result where
  "no_result = \<lparr>re_Requeue = False, re_RequeueAfter = 0\<rparr>"

definition second :: int where "second = 1000000000"

definition after :: "int \<Rightarrow> Result" where
  "after s = \<lparr>re_Requeue = False, re_RequeueAfter = s * second\<rparr>"

text \<open>The peer list, built by appending one declaration per replica.\<close>

definition pod_id :: "string \<Rightarrow> nat \<Rightarrow> string" where
  "pod_id name i = name @ CHR ''-'' # dec i"

definition pod_addr :: "string \<Rightarrow> nat \<Rightarrow> string" where
  "pod_addr name i = pod_id name i @ CHR ''.'' # name @ ''-raft:9000''"

fun render_peers :: "string \<Rightarrow> nat \<Rightarrow> string" where
  "render_peers name 0 = []"
| "render_peers name (Suc i) =
     render_peers name i @ (if i > 0 then '','' else []) @ pod_id name i @ CHR ''='' # pod_addr name i"

text \<open>The number of turns of the loop over an \<open>int32\<close>.\<close>

definition replica_count :: "i32 \<Rightarrow> nat" where
  "replica_count n = nat (sint n)"

text \<open>An unparsable quantity counts as zero.\<close>

definition parseQuantity :: "'k kube_api \<Rightarrow> string \<Rightarrow> int" where
  "parseQuantity K s = (case ka_quantity K s of Inl _ \<Rightarrow> 0 | Inr q \<Rightarrow> q)"

definition container_args :: "RaftCluster \<Rightarrow> string list" where
  "container_args c =
     [''-id=$(POD_NAME)'', ''-data-dir=/data'', ''-raft-addr=:9000'', ''-api-addr=:8080'', ''-admin-addr=:9090'',
      ''-peers='' @ render_peers (cl_Name c) (replica_count (sc_Replicas (cl_Spec c))),
      ''-safety-mode='' @ sc_SafetyMode (cl_Spec c),
      ''-election-timeout='' @ show_int (sc_ElectionTimeoutMs (cl_Spec c))]"

definition service_spec :: "RaftCluster \<Rightarrow> ServiceSpec" where
  "service_spec c =
     \<lparr>sv_ClusterIP = ''None'', sv_Selector = [(''app'', ''raft-kv''), (''cluster'', cl_Name c)],
      sv_Ports = [(''raft'', 9000), (''admin'', 9090), (''api'', 8080)]\<rparr>"

text \<open>An environment variable is paired with the field it is read from, a mount with its path.\<close>

definition container_spec :: "RaftCluster \<Rightarrow> Container" where
  "container_spec c =
     \<lparr>ct_Name = ''raft-kv'', ct_Image = sc_Image (cl_Spec c), ct_ImagePullPolicy = ''IfNotPresent'',
      ct_Command = [''./raft-kv''], ct_Args = container_args c, ct_Env = [(''POD_NAME'', ''metadata.name'')],
      ct_Ports = [(''raft'', 9000), (''api'', 8080), (''admin'', 9090)], ct_VolumeMounts = [(''data'', ''/data'')]\<rparr>"

definition statefulset_spec :: "'k kube_api \<Rightarrow> RaftCluster \<Rightarrow> StatefulSetSpec" where
  "statefulset_spec K c =
     \<lparr>ss_Replicas = Some (sc_Replicas (cl_Spec c)),
      ss_MatchLabels = [(''app'', ''raft-kv''), (''cluster'', cl_Name c)],
      ss_ServiceName = cl_Name c @ ''-raft'',
      ss_PodLabels = [(''app'', ''raft-kv''), (''cluster'', cl_Name c)],
      ss_Containers = [container_spec c],
      ss_VolumeClaims = [\<lparr>vc_Name = ''data'', vc_AccessModes = [''ReadWriteOnce''],
        vc_Storage = parseQuantity K (sc_StorageSize (cl_Spec c))\<rparr>]\<rparr>"

definition reconcileService :: "'k kube_api \<Rightarrow> RaftCluster \<Rightarrow> 'k \<Rightarrow> unit res \<times> 'k" where
  "reconcileService K c k = ka_apply_service K c (cl_Namespace c, cl_Name c @ ''-raft'') (service_spec c) k"

definition reconcileStatefulSet :: "'k kube_api \<Rightarrow> RaftCluster \<Rightarrow> 'k \<Rightarrow> unit res \<times> 'k" where
  "reconcileStatefulSet K c k = ka_apply_sts K c (cl_Namespace c, cl_Name c) (statefulset_spec K c) k"

definition needsReconfiguration :: "'k kube_api \<Rightarrow> RaftCluster \<Rightarrow> 'k \<Rightarrow> bool res" where
  "needsReconfiguration K c k =
     (case ka_get_sts K (cl_Namespace c, cl_Name c) k of
        Inl e \<Rightarrow> if ka_not_found K e then Inr False else Inl e
      | Inr sts \<Rightarrow>
          (case ss_Replicas sts of
             None \<Rightarrow> Inr False
           | Some n \<Rightarrow> Inr (n \<noteq> sc_Replicas (cl_Spec c))))"

section \<open>The workflow\<close>

text \<open>
  A status change is made in memory and then sent; on success the object in memory is what the server
  returned. The outcome of a handler: its result, its error, the object and the state of the API.
\<close>

definition with_status :: "(RaftClusterStatus \<Rightarrow> RaftClusterStatus) \<Rightarrow> RaftCluster \<Rightarrow> RaftCluster" where
  "with_status f c = c\<lparr>cl_Status := f (cl_Status c)\<rparr>"

definition update_then ::
    "'k kube_api \<Rightarrow> Result \<Rightarrow> RaftCluster \<Rightarrow> 'k \<Rightarrow> Result \<times> goerr option \<times> RaftCluster \<times> 'k" where
  "update_then K res c k =
     (case ka_update_status K c k of
        (Inl e, k) \<Rightarrow> (no_result, Some e, c, k)
      | (Inr c, k) \<Rightarrow> (res, None, c, k))"

definition reconfigureSafe ::
    "'k kube_api \<Rightarrow> int \<Rightarrow> RaftCluster \<Rightarrow> 'k \<Rightarrow> Result \<times> goerr option \<times> RaftCluster \<times> 'k" where
  "reconfigureSafe K now c k =
     (let step = cs_CurrentReconfigStep (cl_Status c) in
      if step = ReconfigStepNone then
        update_then K (after 5) (with_status (\<lambda>s. s\<lparr>cs_CurrentReconfigStep := ReconfigStepAddLearner,
          cs_JointState := JointStateNone\<rparr>) c) k
      else if step = ReconfigStepAddLearner then
        update_then K (after 10) (with_status (\<lambda>s. s\<lparr>cs_CurrentReconfigStep := ReconfigStepCatchUp\<rparr>) c) k
      else if step = ReconfigStepCatchUp then
        update_then K (after 5) (with_status (\<lambda>s. s\<lparr>cs_JointState := JointStateEntering,
          cs_CurrentReconfigStep := ReconfigStepEnterJoint\<rparr>) c) k
      else if step = ReconfigStepEnterJoint then
        update_then K (after 5) (with_status (\<lambda>s. s\<lparr>cs_JointState := JointStateCommitted,
          cs_CurrentReconfigStep := ReconfigStepCommitNew,
          cs_ConfigurationIndex := cs_ConfigurationIndex s + 1\<rparr>) c) k
      else if step = ReconfigStepCommitNew then
        update_then K (after 5) (with_status (\<lambda>s. s\<lparr>cs_JointState := JointStateLeaving,
          cs_CurrentReconfigStep := ReconfigStepLeaveJoint\<rparr>) c) k
      else if step = ReconfigStepLeaveJoint then
        update_then K (after 30) (with_status (\<lambda>s. s\<lparr>cs_JointState := JointStateNone,
          cs_CurrentReconfigStep := ReconfigStepNone, cs_Phase := PhaseReady, cs_LastReconfigAt := Some now\<rparr>) c) k
      else
        update_then K \<lparr>re_Requeue = True, re_RequeueAfter = 0\<rparr>
          (with_status (\<lambda>s. s\<lparr>cs_CurrentReconfigStep := ReconfigStepNone\<rparr>) c) k)"

definition reconfigureUnsafeEarlyVote ::
    "'k kube_api \<Rightarrow> int \<Rightarrow> RaftCluster \<Rightarrow> 'k \<Rightarrow> Result \<times> goerr option \<times> RaftCluster \<times> 'k" where
  "reconfigureUnsafeEarlyVote K now c k =
     update_then K (after 30) (with_status (\<lambda>s. s\<lparr>cs_Phase := PhaseReady,
       cs_CurrentReconfigStep := ReconfigStepNone, cs_LastReconfigAt := Some now\<rparr>) c) k"

definition reconfigureUnsafeNoJoint ::
    "'k kube_api \<Rightarrow> int \<Rightarrow> RaftCluster \<Rightarrow> 'k \<Rightarrow> Result \<times> goerr option \<times> RaftCluster \<times> 'k" where
  "reconfigureUnsafeNoJoint K now c k =
     update_then K (after 30) (with_status (\<lambda>s. s\<lparr>cs_Phase := PhaseReady,
       cs_CurrentReconfigStep := ReconfigStepNone, cs_JointState := JointStateNone, cs_LastReconfigAt := Some now\<rparr>) c) k"

text \<open>The cooldown, a product of 64-bit integers.\<close>

definition cooldown :: "RaftCluster \<Rightarrow> int" where
  "cooldown c = sint ((word_of_int (rp_CooldownSeconds (sc_ReconfigPolicy (cl_Spec c))) :: i64) * 1000000000)"

definition reconcileReconfiguration ::
    "'k kube_api \<Rightarrow> int \<Rightarrow> RaftCluster \<Rightarrow> 'k \<Rightarrow> Result \<times> goerr option \<times> RaftCluster \<times> 'k" where
  "reconcileReconfiguration K now c k =
     (if (case cs_LastReconfigAt (cl_Status c) of None \<Rightarrow> False | Some t \<Rightarrow> now - t < cooldown c)
      then (\<lparr>re_Requeue = False, re_RequeueAfter = cooldown c\<rparr>, None, c, k)
      else
        (let c = with_status (\<lambda>s. s\<lparr>cs_Phase := PhaseReconfiguring\<rparr>) c;
             mode = sc_SafetyMode (cl_Spec c) in
         if mode = ''safe'' then reconfigureSafe K now c k
         else if mode = ''unsafe-early-vote'' then reconfigureUnsafeEarlyVote K now c k
         else if mode = ''unsafe-no-joint'' then reconfigureUnsafeNoJoint K now c k
         else reconfigureSafe K now c k))"

text \<open>The parts of \<open>Reconcile\<close>: initialising the status, the workflow, and returning to \<open>Ready\<close>.\<close>

definition init_status :: "'k kube_api \<Rightarrow> RaftCluster \<Rightarrow> 'k \<Rightarrow> RaftCluster res \<times> 'k" where
  "init_status K c k =
     (if cs_Phase (cl_Status c) = []
      then ka_update_status K (with_status (\<lambda>s. s\<lparr>cs_Phase := PhasePending, cs_JointState := JointStateNone,
             cs_ConfigurationIndex := 0\<rparr>) c) k
      else (Inr c, k))"

definition run_reconfiguration :: "'k kube_api \<Rightarrow> int \<Rightarrow> RaftCluster \<Rightarrow> 'k \<Rightarrow> Result \<times> goerr option \<times> 'k" where
  "run_reconfiguration K now c k =
     (case reconcileReconfiguration K now c k of
        (res, None, c, k) \<Rightarrow> (res, None, k)
      | (res, Some e, c, k) \<Rightarrow>
          (res, Some e, snd (ka_update_status K (with_status (\<lambda>s. s\<lparr>cs_Phase := PhaseDegraded\<rparr>) c) k)))"

definition finish_ready :: "'k kube_api \<Rightarrow> RaftCluster \<Rightarrow> 'k \<Rightarrow> Result \<times> goerr option \<times> 'k" where
  "finish_ready K c k =
     (if cs_Phase (cl_Status c) \<noteq> PhaseReady
      then (case ka_update_status K (with_status (\<lambda>s. s\<lparr>cs_Phase := PhaseReady,
                    cs_CurrentReconfigStep := ReconfigStepNone\<rparr>) c) k of
              (Inl e, k) \<Rightarrow> (no_result, Some e, k)
            | (Inr _, k) \<Rightarrow> (after 30, None, k))
      else (after 30, None, k))"

definition Reconcile :: "'k kube_api \<Rightarrow> int \<Rightarrow> string \<times> string \<Rightarrow> 'k \<Rightarrow> Result \<times> goerr option \<times> 'k" where
  "Reconcile K now req k =
     (case ka_get_cluster K req k of
        Inl e \<Rightarrow> if ka_not_found K e then (no_result, None, k) else (no_result, Some e, k)
      | Inr c \<Rightarrow>
          (case init_status K c k of
             (Inl e, k) \<Rightarrow> (no_result, Some e, k)
           | (Inr c, k) \<Rightarrow>
               (case reconcileService K c k of
                  (Inl e, k) \<Rightarrow> (no_result, Some e, k)
                | (Inr _, k) \<Rightarrow>
                    (case reconcileStatefulSet K c k of
                       (Inl e, k) \<Rightarrow> (no_result, Some e, k)
                     | (Inr _, k) \<Rightarrow>
                         (case needsReconfiguration K c k of
                            Inl e \<Rightarrow> (no_result, Some e, k)
                          | Inr True \<Rightarrow> run_reconfiguration K now c k
                          | Inr False \<Rightarrow> finish_ready K c k)))))"

end
