(* ===== verification/Controller_Spec.thy ===== *)
theory Controller_Spec
  imports Controller
begin

text \<open>
  The reconfiguration workflow as a state machine, what a failing or an obliging API makes of it, and
  the peer list that the operator renders and the server parses.
\<close>

section \<open>Specification\<close>

text \<open>The step that follows a step, and the joint state that belongs to it; unknown steps start over.\<close>

definition next_step :: "string \<Rightarrow> string" where
  "next_step step =
     (if step = ReconfigStepNone then ReconfigStepAddLearner
      else if step = ReconfigStepAddLearner then ReconfigStepCatchUp
      else if step = ReconfigStepCatchUp then ReconfigStepEnterJoint
      else if step = ReconfigStepEnterJoint then ReconfigStepCommitNew
      else if step = ReconfigStepCommitNew then ReconfigStepLeaveJoint
      else ReconfigStepNone)"

definition joint_for :: "string \<Rightarrow> string" where
  "joint_for step =
     (if step = ReconfigStepEnterJoint then JointStateEntering
      else if step = ReconfigStepCommitNew then JointStateCommitted
      else if step = ReconfigStepLeaveJoint then JointStateLeaving
      else JointStateNone)"

definition step_of :: "RaftCluster \<Rightarrow> string" where
  "step_of c = cs_CurrentReconfigStep (cl_Status c)"

definition joint_ok :: "RaftCluster \<Rightarrow> bool" where
  "joint_ok c \<longleftrightarrow> cs_JointState (cl_Status c) = joint_for (step_of c)"

text \<open>What one step of the safe workflow makes of the object in memory, whether or not the update succeeds.\<close>

definition safe_status :: "int \<Rightarrow> RaftClusterStatus \<Rightarrow> RaftClusterStatus" where
  "safe_status now s =
     (let step = cs_CurrentReconfigStep s in
      if step = ReconfigStepNone then s\<lparr>cs_CurrentReconfigStep := ReconfigStepAddLearner, cs_JointState := JointStateNone\<rparr>
      else if step = ReconfigStepAddLearner then s\<lparr>cs_CurrentReconfigStep := ReconfigStepCatchUp\<rparr>
      else if step = ReconfigStepCatchUp then
        s\<lparr>cs_JointState := JointStateEntering, cs_CurrentReconfigStep := ReconfigStepEnterJoint\<rparr>
      else if step = ReconfigStepEnterJoint then
        s\<lparr>cs_JointState := JointStateCommitted, cs_CurrentReconfigStep := ReconfigStepCommitNew,
          cs_ConfigurationIndex := cs_ConfigurationIndex s + 1\<rparr>
      else if step = ReconfigStepCommitNew then
        s\<lparr>cs_JointState := JointStateLeaving, cs_CurrentReconfigStep := ReconfigStepLeaveJoint\<rparr>
      else if step = ReconfigStepLeaveJoint then
        s\<lparr>cs_JointState := JointStateNone, cs_CurrentReconfigStep := ReconfigStepNone, cs_Phase := PhaseReady,
          cs_LastReconfigAt := Some now\<rparr>
      else s\<lparr>cs_CurrentReconfigStep := ReconfigStepNone\<rparr>)"

definition safe_result :: "string \<Rightarrow> Result" where
  "safe_result step =
     (if step \<in> {ReconfigStepNone, ReconfigStepCatchUp, ReconfigStepEnterJoint, ReconfigStepCommitNew} then after 5
      else if step = ReconfigStepAddLearner then after 10
      else if step = ReconfigStepLeaveJoint then after 30
      else \<lparr>re_Requeue = True, re_RequeueAfter = 0\<rparr>)"

definition safe_mode :: "RaftCluster \<Rightarrow> bool" where
  "safe_mode c \<longleftrightarrow> sc_SafetyMode (cl_Spec c) \<notin> {''unsafe-early-vote'', ''unsafe-no-joint''}"

text \<open>
  An API that returns a status it stores unchanged, one that in addition never fails to store it, and one that
  reads back the stateful set just applied.
\<close>

definition echoes_status :: "'k kube_api \<Rightarrow> bool" where
  "echoes_status K \<longleftrightarrow> (\<forall>c k c' k'. ka_update_status K c k = (Inr c', k') \<longrightarrow> c' = c)"

definition accepts_status :: "'k kube_api \<Rightarrow> bool" where
  "accepts_status K \<longleftrightarrow> (\<forall>c k. fst (ka_update_status K c k) = Inr c)"

definition reads_own_sts :: "'k kube_api \<Rightarrow> bool" where
  "reads_own_sts K \<longleftrightarrow>
     (\<forall>c n sp k k'. ka_apply_sts K c n sp k = (Inr (), k') \<longrightarrow> ka_get_sts K n k' = Inr sp)"

definition in_cooldown :: "int \<Rightarrow> RaftCluster \<Rightarrow> bool" where
  "in_cooldown now c \<longleftrightarrow>
     (case cs_LastReconfigAt (cl_Status c) of None \<Rightarrow> False | Some t \<Rightarrow> now - t < cooldown c)"

text \<open>Rounds of the workflow at the given times, with the steps and joint states they leave.\<close>

fun rounds :: "'k kube_api \<Rightarrow> int list \<Rightarrow> RaftCluster \<Rightarrow> 'k \<Rightarrow> (string \<times> string) list \<times> RaftCluster" where
  "rounds K [] c k = ([], c)"
| "rounds K (now # ts) c k =
     (case reconcileReconfiguration K now c k of
        (_, _, c, k) \<Rightarrow>
          (let (tr, d) = rounds K ts c k in ((step_of c, cs_JointState (cl_Status c)) # tr, d)))"

text \<open>A simple API for concrete runs: one cluster and one stateful set, and a number of status updates that fail.\<close>

record mem_kube =
  mk_cluster :: "RaftCluster option"
  mk_sts :: "StatefulSetSpec option"
  mk_failing :: nat

definition mem_update :: "RaftCluster \<Rightarrow> mem_kube \<Rightarrow> RaftCluster res \<times> mem_kube" where
  "mem_update c k =
     (if mk_failing k > 0 then (Inl (ErrLib 1), k\<lparr>mk_failing := mk_failing k - 1\<rparr>)
      else (Inr c, k\<lparr>mk_cluster := Some c\<rparr>))"

definition mem_api :: "mem_kube kube_api" where
  "mem_api =
     \<lparr>ka_get_cluster = (\<lambda>_ k. case mk_cluster k of None \<Rightarrow> Inl (ErrLib 404) | Some c \<Rightarrow> Inr c),
      ka_update_status = mem_update,
      ka_apply_service = (\<lambda>_ _ _ k. (Inr (), k)),
      ka_apply_sts = (\<lambda>_ _ sp k. (Inr (), k\<lparr>mk_sts := Some sp\<rparr>)),
      ka_get_sts = (\<lambda>_ k. case mk_sts k of None \<Rightarrow> Inl (ErrLib 404) | Some sp \<Rightarrow> Inr sp),
      ka_not_found = (\<lambda>e. e = ErrLib 404),
      ka_quantity = (\<lambda>_. Inr 1)\<rparr>"

definition always_api :: "unit kube_api" where
  "always_api =
     \<lparr>ka_get_cluster = (\<lambda>_ _. Inl (ErrLib 404)), ka_update_status = (\<lambda>c k. (Inr c, k)),
      ka_apply_service = (\<lambda>_ _ _ k. (Inr (), k)), ka_apply_sts = (\<lambda>_ _ _ k. (Inr (), k)),
      ka_get_sts = (\<lambda>_ _. Inl (ErrLib 404)), ka_not_found = (\<lambda>e. e = ErrLib 404), ka_quantity = (\<lambda>_. Inr 1)\<rparr>"

definition sample_cluster :: "string \<Rightarrow> string \<Rightarrow> string \<Rightarrow> RaftCluster" where
  "sample_cluster phase step joint =
     \<lparr>cl_Name = ''kv'', cl_Namespace = ''ns'',
      cl_Spec = \<lparr>sc_Replicas = 3, sc_Image = ''img'', sc_StorageSize = ''1Gi'', sc_SnapshotInterval = ''30s'',
        sc_ElectionTimeoutMs = 300, sc_SafetyMode = ''safe'',
        sc_ReconfigPolicy = \<lparr>rp_RateLimit = [], rp_MaxParallel = 1, rp_CooldownSeconds = 60\<rparr>\<rparr>,
      cl_Status = \<lparr>cs_Phase = phase, cs_Leader = [], cs_Members = [], cs_JointState = joint,
        cs_LastReconfigAt = None, cs_CurrentReconfigStep = step, cs_ConfigurationIndex = 4\<rparr>\<rparr>"

lemmas phases = PhasePending_def PhaseReady_def PhaseReconfiguring_def PhaseDegraded_def

lemmas joints = JointStateNone_def JointStateEntering_def JointStateCommitted_def JointStateLeaving_def

lemmas steps = ReconfigStepNone_def ReconfigStepAddLearner_def ReconfigStepCatchUp_def ReconfigStepEnterJoint_def
  ReconfigStepCommitNew_def ReconfigStepLeaveJoint_def ReconfigStepLeaderTransfer_def

section \<open>Lemmas: the workflow\<close>

lemma update_then_accepted:
  assumes "accepts_status K"
  shows "\<exists>k'. update_then K res c k = (res, None, c, k')"
proof -
  have "fst (ka_update_status K c k) = Inr c" using assms by (simp add: accepts_status_def)
  then show ?thesis by (cases "ka_update_status K c k") (simp add: update_then_def)
qed

lemma reconfigureSafe_step:
  "reconfigureSafe K now c k = update_then K (safe_result (step_of c)) (with_status (safe_status now) c) k"
  by (simp add: reconfigureSafe_def safe_status_def safe_result_def with_status_def step_of_def Let_def steps)

lemma safe_status_facts:
  "cs_CurrentReconfigStep (safe_status now s) = next_step (cs_CurrentReconfigStep s)"
  "cs_JointState s = joint_for (cs_CurrentReconfigStep s) \<Longrightarrow>
   cs_JointState (safe_status now s) = joint_for (next_step (cs_CurrentReconfigStep s))"
  by (simp_all add: safe_status_def Let_def next_step_def joint_for_def steps joints)

lemma with_status_simps [simp]:
  "cl_Status (with_status f c) = f (cl_Status c)" "cl_Spec (with_status f c) = cl_Spec c"
  "cl_Name (with_status f c) = cl_Name c" "cl_Namespace (with_status f c) = cl_Namespace c"
  by (simp_all add: with_status_def)

lemma update_then_object: "update_then K res c k = (r, e, c', k') \<Longrightarrow> e \<noteq> None \<Longrightarrow> c' = c \<and> r = no_result"
  by (auto simp: update_then_def split: prod.splits sum.splits)

lemma update_then_echo:
  "echoes_status K \<Longrightarrow> update_then K res c k = (r, e, c', k') \<Longrightarrow> c' = c"
  by (auto simp: update_then_def echoes_status_def split: prod.splits sum.splits)

lemma workflow_round:
  assumes "\<not> in_cooldown now c" and "safe_mode c"
  shows "reconcileReconfiguration K now c k =
    update_then K (safe_result (step_of c)) (with_status (\<lambda>s. safe_status now (s\<lparr>cs_Phase := PhaseReconfiguring\<rparr>)) c) k"
  using assms
  by (simp add: reconcileReconfiguration_def in_cooldown_def safe_mode_def reconfigureSafe_step Let_def
      with_status_def step_of_def)

lemma cooldown_status [simp]: "cooldown (with_status f c) = cooldown c"
  by (simp add: cooldown_def)

lemma in_cooldown_status:
  "cs_LastReconfigAt (f (cl_Status c)) = cs_LastReconfigAt (cl_Status c) \<Longrightarrow>
   in_cooldown now (with_status f c) = in_cooldown now c"
  by (cases "cs_LastReconfigAt (cl_Status c)") (simp_all add: in_cooldown_def)

lemma safe_mode_status [simp]: "safe_mode (with_status f c) = safe_mode c"
  by (simp add: safe_mode_def)

text \<open>When every update succeeds, the rounds do not depend on the API behind them.\<close>

lemma always_accepts: "accepts_status always_api"
  by (simp add: accepts_status_def always_api_def)

text \<open>Every round out of the cooldown is one status update, of a result and an object fixed by the cluster.\<close>

definition round_update :: "int \<Rightarrow> RaftCluster \<Rightarrow> Result \<times> RaftCluster" where
  "round_update now c0 =
     (let c = with_status (\<lambda>s. s\<lparr>cs_Phase := PhaseReconfiguring\<rparr>) c0 in
      if safe_mode c then (safe_result (step_of c), with_status (safe_status now) c)
      else
        (after 30, with_status (\<lambda>s. s\<lparr>cs_Phase := PhaseReady, cs_CurrentReconfigStep := ReconfigStepNone,
           cs_JointState := (if sc_SafetyMode (cl_Spec c) = ''unsafe-no-joint'' then JointStateNone else cs_JointState s),
           cs_LastReconfigAt := Some now\<rparr>) c))"

lemma round_is_update:
  "reconcileReconfiguration K now c k =
     (if in_cooldown now c then (\<lparr>re_Requeue = False, re_RequeueAfter = cooldown c\<rparr>, None, c, k)
      else update_then K (fst (round_update now c)) (snd (round_update now c)) k)"
  by (simp add: reconcileReconfiguration_def in_cooldown_def round_update_def safe_mode_def reconfigureSafe_step
      reconfigureUnsafeEarlyVote_def reconfigureUnsafeNoJoint_def Let_def with_status_def)

lemma rounds_api_independent:
  assumes "accepts_status K" and "accepts_status K'"
  shows "rounds K ts c k = rounds K' ts c k'"
proof (induction ts arbitrary: c k k')
  case (Cons now ts)
  obtain res d k1 k1' where "reconcileReconfiguration K now c k = (res, None, d, k1)"
    "reconcileReconfiguration K' now c k' = (res, None, d, k1')"
    using update_then_accepted [OF assms(1)] update_then_accepted [OF assms(2)]
    by (metis round_is_update)
  with Cons.IH [of d k1 k1'] show ?case by simp
qed simp

lemma always_round:
  assumes "\<not> in_cooldown now c" and "safe_mode c"
  shows "reconcileReconfiguration always_api now c () =
    (safe_result (step_of c), None, with_status (\<lambda>s. safe_status now (s\<lparr>cs_Phase := PhaseReconfiguring\<rparr>)) c, ())"
  by (simp add: workflow_round [OF assms] update_then_def always_api_def)

lemma mem_api_laws: "echoes_status mem_api" "reads_own_sts mem_api"
  by (simp_all add: echoes_status_def reads_own_sts_def mem_api_def mem_update_def)

lemma round_in_memory:
  assumes "echoes_status K" and "safe_mode c" and "reconcileReconfiguration K now c k = (r, e, d, k')"
  shows "d = (if in_cooldown now c then c
    else with_status (\<lambda>s. safe_status now (s\<lparr>cs_Phase := PhaseReconfiguring\<rparr>)) c)"
proof (cases "in_cooldown now c")
  case True
  with assms(3) show ?thesis by (simp add: round_is_update)
next
  case False
  with assms show ?thesis using update_then_echo [OF assms(1)] by (simp add: workflow_round)
qed

lemma needsReconfiguration_applied:
  assumes "reads_own_sts K" and "reconcileStatefulSet K c k = (Inr u, k')"
  shows "needsReconfiguration K c k' = Inr False"
  using assms by (cases u) (simp add: reads_own_sts_def needsReconfiguration_def reconcileStatefulSet_def statefulset_spec_def)

section \<open>Properties\<close>

text \<open>C19: when every status update succeeds, six rounds of the safe workflow lead from an idle cluster through
  adding a learner, catching up, entering the joint configuration, committing and leaving it; the joint state
  belongs to the step in every round, and at the end the cluster is idle and ready, the configuration index has
  gone up by one and the time of the last round is recorded. Nothing else of the status changes.\<close>

theorem safe_workflow_completes:
  assumes "accepts_status K" and "safe_mode c" and "step_of c = ReconfigStepNone"
    and "length ts = 6" and "\<forall>t \<in> set ts. \<not> in_cooldown t c"
  shows "rounds K ts c k =
    ([(ReconfigStepAddLearner, JointStateNone), (ReconfigStepCatchUp, JointStateNone),
      (ReconfigStepEnterJoint, JointStateEntering), (ReconfigStepCommitNew, JointStateCommitted),
      (ReconfigStepLeaveJoint, JointStateLeaving), (ReconfigStepNone, JointStateNone)],
     with_status (\<lambda>s. s\<lparr>cs_Phase := PhaseReady, cs_JointState := JointStateNone,
       cs_LastReconfigAt := Some (last ts), cs_CurrentReconfigStep := ReconfigStepNone,
       cs_ConfigurationIndex := cs_ConfigurationIndex s + 1\<rparr>) c)" (is "_ = ?rhs")
proof -
  from assms(4) obtain t1 t2 t3 t4 t5 t6 where ts: "ts = [t1, t2, t3, t4, t5, t6]"
    by (auto simp: length_Suc_conv numeral_eq_Suc)
  have step: "cs_CurrentReconfigStep (cl_Status c) = []" using assms(3) by (simp add: step_of_def steps)
  have "rounds K ts c k = rounds always_api ts c ()" by (rule rounds_api_independent [OF assms(1) always_accepts])
  also have "\<dots> = ?rhs"
    using assms(2, 5) step
    by (simp add: ts always_round in_cooldown_status safe_status_def step_of_def steps)
  finally show ?thesis .
qed

theorem safe_workflow_completes_witness:
  "accepts_status always_api \<and> snd (rounds always_api [1, 2, 3, 4, 5, 6] (sample_cluster ''Ready'' [] ''none'') ())
     = with_status (\<lambda>s. s\<lparr>cs_LastReconfigAt := Some 6, cs_ConfigurationIndex := 5\<rparr>) (sample_cluster ''Ready'' [] ''none'')"
  using safe_workflow_completes [of always_api "sample_cluster ''Ready'' [] ''none''" "[1, 2, 3, 4, 5, 6]" "()"] always_accepts
  by (simp add: sample_cluster_def safe_mode_def step_of_def steps in_cooldown_def with_status_def phases joints)

text \<open>C20: a round of the safe workflow keeps the joint state in line with the step, whatever the updates do: the
  object in memory takes the next step. During the cooldown neither the object nor the API is touched, and the round
  asks to come back after the cooldown.\<close>

theorem joint_state_follows_step:
  assumes "echoes_status K" and "safe_mode c" and "joint_ok c"
    and "reconcileReconfiguration K now c k = (r, e, d, k')"
  shows "joint_ok d \<and> step_of d = (if in_cooldown now c then step_of c else next_step (step_of c))
    \<and> cl_Spec d = cl_Spec c
    \<and> (in_cooldown now c \<longrightarrow> d = c \<and> k' = k \<and> e = None \<and> r = \<lparr>re_Requeue = False, re_RequeueAfter = cooldown c\<rparr>)"
  using round_in_memory [OF assms(1, 2, 4)] assms(3)
    safe_status_facts(1) [of now "cl_Status c\<lparr>cs_Phase := PhaseReconfiguring\<rparr>"]
    safe_status_facts(2) [of "cl_Status c\<lparr>cs_Phase := PhaseReconfiguring\<rparr>" now]
    round_is_update [of K now c k] assms(4)
  by (cases "in_cooldown now c") (simp_all add: joint_ok_def step_of_def)

theorem joint_state_follows_step_witness:
  "\<exists>r e d k'. reconcileReconfiguration mem_api 9 (sample_cluster ''Ready'' ''CatchUp'' ''none'')
       \<lparr>mk_cluster = None, mk_sts = None, mk_failing = 1\<rparr> = (r, e, d, k')
     \<and> e \<noteq> None \<and> joint_ok d \<and> step_of d = ''EnterJoint''"
proof -
  let ?c = "sample_cluster ''Ready'' ''CatchUp'' ''none''" and ?k = "\<lparr>mk_cluster = None, mk_sts = None, mk_failing = 1\<rparr>"
  have c: "safe_mode ?c" "joint_ok ?c" "\<not> in_cooldown 9 ?c" "step_of ?c = ''CatchUp''"
    by (simp_all add: sample_cluster_def safe_mode_def joint_ok_def joint_for_def step_of_def in_cooldown_def steps joints)
  obtain r e d k' where run: "reconcileReconfiguration mem_api 9 ?c ?k = (r, e, d, k')" by (metis prod_cases4)
  moreover from run have "e \<noteq> None" using c
    by (auto simp: workflow_round update_then_def mem_api_def mem_update_def)
  moreover have "joint_ok d \<and> step_of d = ''EnterJoint''"
    using joint_state_follows_step [OF mem_api_laws(1) c(1, 2) run] c(3, 4) by (simp add: next_step_def steps)
  ultimately show ?thesis by blast
qed

text \<open>When the status update of a round fails, the error is returned and the update that marks the cluster as
  degraded is sent for an object that has taken the step: if that one succeeds, the step counts as done.\<close>

theorem failed_update_keeps_step:
  assumes "safe_mode c" and "\<not> in_cooldown now c"
    and "ka_update_status K (snd (round_update now c)) k = (Inl e, k1)"
  shows "\<exists>d. run_reconfiguration K now c k = (no_result, Some e, snd (ka_update_status K d k1))
     \<and> cs_Phase (cl_Status d) = PhaseDegraded \<and> step_of d = next_step (step_of c)
     \<and> cs_ConfigurationIndex (cl_Status d) =
         cs_ConfigurationIndex (cl_Status c) + (if step_of c = ReconfigStepEnterJoint then 1 else 0)"
proof -
  let ?d = "snd (round_update now c)"
  have "cs_ConfigurationIndex (cl_Status ?d) =
      cs_ConfigurationIndex (cl_Status c) + (if step_of c = ReconfigStepEnterJoint then 1 else 0)"
    using assms(1) by (simp add: round_update_def Let_def safe_status_def step_of_def steps)
  moreover have "step_of ?d = next_step (step_of c)"
    using assms(1) safe_status_facts(1) by (simp add: round_update_def Let_def step_of_def)
  moreover have "reconcileReconfiguration K now c k = (no_result, Some e, ?d, k1)"
    using assms(2, 3) by (simp add: round_is_update update_then_def)
  ultimately show ?thesis
    by (intro exI [of _ "with_status (\<lambda>s. s\<lparr>cs_Phase := PhaseDegraded\<rparr>) ?d"])
      (simp add: run_reconfiguration_def step_of_def)
qed

theorem failed_update_keeps_step_witness:
  "\<exists>e d. run_reconfiguration mem_api 9 (sample_cluster ''Ready'' ''EnterJoint'' ''entering'')
       \<lparr>mk_cluster = None, mk_sts = None, mk_failing = 1\<rparr>
       = (no_result, Some e, \<lparr>mk_cluster = Some d, mk_sts = None, mk_failing = 0\<rparr>)
     \<and> cs_Phase (cl_Status d) = ''Degraded'' \<and> step_of d = ''CommitNew'' \<and> cs_ConfigurationIndex (cl_Status d) = 5"
proof -
  let ?c = "sample_cluster ''Ready'' ''EnterJoint'' ''entering''"
  let ?k = "\<lparr>mk_cluster = None, mk_sts = None, mk_failing = 1\<rparr>" and ?k1 = "\<lparr>mk_cluster = None, mk_sts = None, mk_failing = 0\<rparr>"
  have c: "safe_mode ?c" "\<not> in_cooldown 9 ?c" "step_of ?c = ''EnterJoint''" "cs_ConfigurationIndex (cl_Status ?c) = 4"
    by (simp_all add: sample_cluster_def safe_mode_def step_of_def in_cooldown_def)
  have fails: "ka_update_status mem_api d ?k = (Inl (ErrLib 1), ?k1)" for d by (simp add: mem_api_def mem_update_def)
  have "ka_update_status mem_api d ?k1 = (Inr d, ?k1\<lparr>mk_cluster := Some d\<rparr>)" for d
    by (simp add: mem_api_def mem_update_def)
  with failed_update_keeps_step [OF c(1, 2) fails] c(3, 4) show ?thesis
    by (auto simp: next_step_def steps phases intro: exI [of _ "ErrLib 1"])
qed

text \<open>C37: the operator applies the desired number of replicas before it compares it with the stateful set: when the
  API reads back what was just applied, a reconciliation never starts the workflow, it marks the cluster as ready
  and sends no other update.\<close>

theorem workflow_not_triggered:
  assumes "reads_own_sts K" and "ka_get_cluster K req k = Inr c" and "init_status K c k = (Inr d, k1)"
    and "reconcileService K d k1 = (Inr (), k2)" and "reconcileStatefulSet K d k2 = (Inr (), k3)"
  shows "Reconcile K now req k = finish_ready K d k3"
  using assms needsReconfiguration_applied [OF assms(1, 5)] by (simp add: Reconcile_def)

theorem workflow_not_triggered_witness:
  "\<exists>sp. ss_Replicas sp = Some 3 \<and> sc_Replicas (cl_Spec (sample_cluster ''Ready'' [] ''none'')) = 3
     \<and> Reconcile mem_api 9 (''ns'', ''kv'')
         \<lparr>mk_cluster = Some (sample_cluster ''Ready'' [] ''none''), mk_sts = Some (sp\<lparr>ss_Replicas := Some 5\<rparr>), mk_failing = 0\<rparr>
       = (after 30, None, \<lparr>mk_cluster = Some (sample_cluster ''Ready'' [] ''none''), mk_sts = Some sp, mk_failing = 0\<rparr>)"
proof -
  let ?c = "sample_cluster ''Ready'' [] ''none''" and ?sp = "statefulset_spec mem_api (sample_cluster ''Ready'' [] ''none'')"
  let ?k = "\<lparr>mk_cluster = Some ?c, mk_sts = Some (?sp\<lparr>ss_Replicas := Some 5\<rparr>), mk_failing = 0\<rparr>"
  have c: "ka_get_cluster mem_api (''ns'', ''kv'') ?k = Inr ?c" by (simp add: mem_api_def)
  have i: "init_status mem_api ?c ?k = (Inr ?c, ?k)" by (simp add: init_status_def sample_cluster_def)
  have s: "reconcileService mem_api ?c ?k = (Inr (), ?k)" by (simp add: reconcileService_def mem_api_def)
  have t: "reconcileStatefulSet mem_api ?c ?k = (Inr (), ?k\<lparr>mk_sts := Some ?sp\<rparr>)"
    unfolding reconcileStatefulSet_def by (subst mem_api_def) simp
  have "finish_ready mem_api ?c k = (after 30, None, k)" for k
    by (simp add: finish_ready_def sample_cluster_def PhaseReady_def)
  with workflow_not_triggered [OF mem_api_laws(2) c i s t, of 9] show ?thesis
    by (intro exI [of _ ?sp]) (simp add: statefulset_spec_def sample_cluster_def)
qed

text \<open>The return to the ready phase resets the step but not the joint state: a cluster in the middle of a
  joint configuration is stored as idle with its old joint state, which no longer belongs to the step.\<close>

theorem ready_leaves_joint_state:
  assumes "cs_Phase (cl_Status c) \<noteq> PhaseReady" and "joint_ok c"
    and "step_of c \<in> {ReconfigStepEnterJoint, ReconfigStepCommitNew, ReconfigStepLeaveJoint}"
  shows "\<exists>d. finish_ready K c k = (case ka_update_status K d k of
        (Inl e, k) \<Rightarrow> (no_result, Some e, k) | (Inr _, k) \<Rightarrow> (after 30, None, k))
     \<and> step_of d = ReconfigStepNone \<and> cs_JointState (cl_Status d) = cs_JointState (cl_Status c) \<and> \<not> joint_ok d"
  using assms
  by (intro exI [of _ "with_status (\<lambda>s. s\<lparr>cs_Phase := PhaseReady, cs_CurrentReconfigStep := ReconfigStepNone\<rparr>) c"])
    (auto simp: finish_ready_def step_of_def joint_ok_def joint_for_def steps joints)

theorem ready_leaves_joint_state_witness:
  "\<exists>d. finish_ready mem_api (sample_cluster ''Degraded'' ''CommitNew'' ''committed'')
       \<lparr>mk_cluster = None, mk_sts = None, mk_failing = 0\<rparr>
       = (after 30, None, \<lparr>mk_cluster = Some d, mk_sts = None, mk_failing = 0\<rparr>)
     \<and> step_of d = [] \<and> cs_JointState (cl_Status d) = ''committed''"
  using ready_leaves_joint_state [of "sample_cluster ''Degraded'' ''CommitNew'' ''committed''" mem_api
      "\<lparr>mk_cluster = None, mk_sts = None, mk_failing = 0\<rparr>"]
  by (auto simp: sample_cluster_def phases steps joints joint_ok_def joint_for_def step_of_def mem_api_def mem_update_def)

text \<open>In the unsafe modes one round ends the reconfiguration: the cluster is ready and idle at once, no
  joint configuration is entered, and the configuration index stays.\<close>

theorem unsafe_modes_one_round:
  assumes "\<not> safe_mode c" and "\<not> in_cooldown now c" and "accepts_status K"
  shows "\<exists>k' d. reconcileReconfiguration K now c k = (after 30, None, d, k')
     \<and> cs_Phase (cl_Status d) = PhaseReady \<and> step_of d = ReconfigStepNone
     \<and> cs_LastReconfigAt (cl_Status d) = Some now
     \<and> cs_JointState (cl_Status d) \<in> {JointStateNone, cs_JointState (cl_Status c)}
     \<and> cs_ConfigurationIndex (cl_Status d) = cs_ConfigurationIndex (cl_Status c)"
proof -
  let ?d = "snd (round_update now c)"
  obtain k' where "reconcileReconfiguration K now c k = (fst (round_update now c), None, ?d, k')"
    using update_then_accepted [OF assms(3)] assms(2) by (metis round_is_update)
  with assms(1) show ?thesis
    by (intro exI [of _ k'] exI [of _ ?d]) (simp add: round_update_def Let_def step_of_def)
qed

theorem unsafe_modes_one_round_witness:
  "\<exists>c. sc_SafetyMode (cl_Spec c) = ''unsafe-no-joint'' \<and>
     (\<exists>k' d. reconcileReconfiguration always_api 9 c () = (after 30, None, d, k') \<and> step_of d = []
       \<and> cs_LastReconfigAt (cl_Status d) = Some 9)"
proof -
  let ?c = "sample_cluster ''Ready'' [] ''none''\<lparr>cl_Spec := cl_Spec (sample_cluster ''Ready'' [] ''none'')\<lparr>sc_SafetyMode := ''unsafe-no-joint''\<rparr>\<rparr>"
  have "\<not> safe_mode ?c" "\<not> in_cooldown 9 ?c" by (simp_all add: safe_mode_def sample_cluster_def in_cooldown_def)
  from unsafe_modes_one_round [OF this always_accepts, of "()"] show ?thesis
    by (intro exI [of _ ?c]) (auto simp: steps)
qed

end
