(* ===== verification/Cluster.thy ===== *)
theory Cluster
  imports RaftNode_Spec Controller_Spec Server
begin

text \<open>
  The operator and the server together: the arguments that the operator renders for the pods of a cluster, the
  configuration that the server makes of them, and what a node makes of that when it starts.
\<close>

section \<open>Specification\<close>

text \<open>The addresses that the pod of an ordinal is to know: those of all other pods, under their Raft identifiers.\<close>

definition other_pods :: "string \<Rightarrow> nat \<Rightarrow> nat \<Rightarrow> u64 \<Rightarrow> string option" where
  "other_pods name n j =
     map_of (map (\<lambda>i. (nodeIDToRaftID (pod_id name i), pod_addr name i)) (filter (\<lambda>i. i \<noteq> j) [0..<n]))"

definition pod_decls :: "string \<Rightarrow> nat \<Rightarrow> (string \<times> string) list" where
  "pod_decls name n = map (\<lambda>i. (pod_id name i, pod_addr name i)) [0..<n]"

text \<open>The arguments of a container, with \<open>$(POD_NAME)\<close> replaced by the name of the pod, as Kubernetes does.\<close>

definition pod_args :: "RaftCluster \<Rightarrow> nat \<Rightarrow> string list" where
  "pod_args c j = (''-id='' @ pod_id (cl_Name c) j) # tl (container_args c)"

text \<open>The entries of the node's tables that a list of peers makes.\<close>

definition peer_rows :: "string \<Rightarrow> (string \<times> string) list \<Rightarrow> (u64 \<times> string) list" where
  "peer_rows self ps = map (\<lambda>p. (nodeIDToRaftID (fst p), snd p)) (filter (\<lambda>p. fst p \<noteq> self) ps)"

section \<open>Lemmas: the peer list\<close>

lemma join_with_snoc: "ps \<noteq> [] \<Longrightarrow> join_with sep (ps @ [p]) = join_with sep ps @ sep # p"
  by (induction sep ps rule: join_with.induct) simp_all

lemma render_peers_join: "render_peers name n = join_with CHR '','' (map peer_decl (pod_decls name n))"
proof (induction n)
  case (Suc n)
  then show ?case by (cases "n = 0") (simp_all add: pod_decls_def join_with_snoc peer_decl_def)
qed (simp add: pod_decls_def)

lemma plain_text_dec: "plain_text (dec n)"
proof -
  have "byte_val c < 0x80 \<and> \<not> IsSpace (byte_val c) \<and> c \<noteq> CHR '','' \<and> c \<noteq> CHR ''=''" if "is_digit c" for c
    using that by (auto simp: is_digit_def IsSpace_def byte_val_def)
  with dec_digits [of n] show ?thesis by (simp add: plain_text_def list_all_iff)
qed

lemma plain_text_pod:
  assumes "plain_text name"
  shows "plain_text (pod_id name i)" and "plain_text (pod_addr name i)"
proof -
  have "plain_text (name @ ''-'' @ dec i)"
    using assms plain_text_dec by (intro plain_text_append) (simp_all add: plain_text_def IsSpace_def byte_val_def)
  then show id: "plain_text (pod_id name i)" by (simp add: pod_id_def)
  have "plain_text (pod_id name i @ ''.'' @ name @ ''-raft:9000'')"
    using assms id by (intro plain_text_append) (simp_all add: plain_text_def IsSpace_def byte_val_def)
  then show "plain_text (pod_addr name i)" by (simp add: pod_addr_def)
qed

lemma pod_id_inj: "pod_id name i = pod_id name j \<longleftrightarrow> i = j"
  by (simp add: pod_id_def dec_inj)

lemma distinct_pod_decls: "distinct (map fst (pod_decls name n))"
  by (simp add: pod_decls_def comp_def distinct_map inj_on_def pod_id_inj)

lemma GetPeers_pods:
  assumes "plain_text name" and "cf_InitialPeers cfg = render_peers name n"
  shows "set (GetPeers cfg) = set (pod_decls name n)"
proof -
  have "map_of (GetPeers cfg) = map_of (rev (pod_decls name n))"
    using plain_text_pod [OF assms(1)]
    by (intro GetPeers_decls) (auto simp: assms(2) render_peers_join pod_decls_def)
  moreover have "distinct (map fst (GetPeers cfg))" using GetPeers_ok [of cfg] by (simp add: peers_ok_def gomap_ok_def)
  moreover have "distinct (map fst (rev (pod_decls name n)))" using distinct_pod_decls by (simp add: rev_map [symmetric])
  ultimately show ?thesis by (simp add: map_of_inject_set)
qed

lemma dec_digit: "n < 10 \<Longrightarrow> dec n = [digit_char n]"
  by (subst dec.simps) simp

section \<open>Lemmas: the tables of a starting node\<close>

lemma start_peers_table:
  "map_of (rn_peers (fold start_peer ps rn)) = map_of (rn_peers rn) ++ map_of (rev (peer_rows (cf_NodeID (rn_cfg rn)) ps))"
  by (induction ps arbitrary: rn) (auto simp: start_peer_def peer_rows_def update_conv' map_add_def fun_eq_iff split: option.splits)

lemma start_peers_transport:
  "rn_transport rn = Some t \<Longrightarrow>
   \<exists>t'. rn_transport (fold start_peer ps rn) = Some t'
     \<and> peer_addrs t' = map_of (peer_rows (cf_NodeID (rn_cfg rn)) ps) ++ peer_addrs t"
proof (induction ps arbitrary: rn t)
  case (Cons p ps)
  show ?case
  proof (cases "fst p = cf_NodeID (rn_cfg rn)")
    case True
    with Cons show ?thesis by (simp add: start_peer_def peer_rows_def)
  next
    case False
    have "map_of (peer_rows self (p # ps)) ++ m = map_of (peer_rows self ps) ++ ([nodeIDToRaftID (fst p) \<mapsto> snd p] ++ m)"
      if "self = cf_NodeID (rn_cfg rn)" for self m
      using that False by (auto simp: peer_rows_def map_add_def fun_eq_iff split: option.splits)
    with False Cons.prems Cons.IH [of "start_peer p rn" "AddPeer (nodeIDToRaftID (fst p)) (snd p) t"] show ?thesis
      by (simp add: start_peer_def peer_addrs_Add)
  qed
qed (simp add: peer_rows_def)

text \<open>With different Raft identifiers both tables are the rows of the peers, in whatever order they are added.\<close>

lemma peer_rows_keys: "map fst (peer_rows self ps) = map nodeIDToRaftID (filter (\<lambda>x. x \<noteq> self) (map fst ps))"
  by (induction ps) (simp_all add: peer_rows_def)

lemma distinct_peer_rows:
  "distinct (map fst ps) \<Longrightarrow> inj_on nodeIDToRaftID (fst ` set ps) \<Longrightarrow> distinct (map fst (peer_rows self ps))"
  unfolding peer_rows_keys by (auto simp: distinct_map intro: inj_on_subset)

lemma pod_raft_ids_inj:
  assumes "plain_text name" and "n \<le> 10"
  shows "inj_on nodeIDToRaftID (fst ` set (pod_decls name n))"
proof -
  have "ascii_str name" using assms(1) by (auto simp: plain_text_def ascii_str_def list_all_iff)
  from raft_id_numbered [OF this] show ?thesis
    using assms(2) by (fastforce simp: inj_on_def pod_decls_def pod_id_def)
qed

lemma rows_of_pods:
  assumes "plain_text name" and "n \<le> 10" and "distinct (map fst ps)" and "set ps = set (pod_decls name n)"
  shows "map_of (peer_rows (pod_id name j) ps) = other_pods name n j"
    and "map_of (rev (peer_rows (pod_id name j) ps)) = other_pods name n j"
proof -
  have rows: "other_pods name n j = map_of (peer_rows (pod_id name j) (pod_decls name n))"
    by (simp add: other_pods_def peer_rows_def pod_decls_def filter_map comp_def pod_id_inj)
  have "distinct (map fst (peer_rows (pod_id name j) ps))"
    "distinct (map fst (peer_rows (pod_id name j) (pod_decls name n)))"
    using assms pod_raft_ids_inj [OF assms(1, 2)] distinct_pod_decls by (simp_all add: distinct_peer_rows)
  moreover have "set (peer_rows (pod_id name j) ps) = set (peer_rows (pod_id name j) (pod_decls name n))"
    using assms(4) by (simp add: peer_rows_def)
  ultimately show "map_of (peer_rows (pod_id name j) ps) = other_pods name n j"
    "map_of (rev (peer_rows (pod_id name j) ps)) = other_pods name n j"
    unfolding rows by (simp_all add: map_of_inject_set rev_map [symmetric])
qed

lemma pod_flags:
  assumes "PI (show_int (sc_ElectionTimeoutMs (cl_Spec c))) = Inr ms" and "parse_flags PI (pod_args c j) default_flags = Inr f"
  shows "fl_id f = pod_id (cl_Name c) j" and "fl_peers f = render_peers (cl_Name c) (replica_count (sc_Replicas (cl_Spec c)))"
    and "fl_safety_mode f = sc_SafetyMode (cl_Spec c)" and "fl_snapshot_interval f = ''10000''"
  using assms by (auto simp: pod_args_def container_args_def server_flag_defs default_flags_def)

lemma pod_config:
  assumes "PI (show_int (sc_ElectionTimeoutMs (cl_Spec c))) = Inr ms" and "parse_flags PI (pod_args c j) default_flags = Inr f"
    and "server_config host f = Inr cfg"
  shows "cf_NodeID cfg = pod_id (cl_Name c) j"
    and "cf_InitialPeers cfg = render_peers (cl_Name c) (replica_count (sc_Replicas (cl_Spec c)))"
  using assms(3) pod_flags [OF assms(1, 2)] by (auto simp: server_config_def pod_id_def split: sum.splits)

lemma start_peers_ok:
  "pred_option transport_ok (rn_transport rn) \<Longrightarrow> pred_option transport_ok (rn_transport (fold start_peer ps rn))"
proof (induction ps arbitrary: rn)
  case (Cons p ps)
  have "pred_option transport_ok (rn_transport (start_peer p rn))"
    using Cons.prems by (cases "rn_transport rn") (simp_all add: start_peer_def inv_intros)
  from Cons.IH [OF this] show ?case
    by simp
qed simp

lemma start_transport_ok: "rn_transport (start_transport rn) = Some t \<Longrightarrow> transport_ok t"
  using start_peers_ok [of "rn\<lparr>rn_transport := Some (NewTransport (nodeIDToRaftID (cf_NodeID (rn_cfg rn))) (cf_RaftAddr (rn_cfg rn)))\<rparr>"
      "GetPeers (rn_cfg rn)"]
  by (auto simp: start_transport_def transport_ok_def NewTransport_def gomap_ok_def)

lemma other_pods_addr:
  assumes "plain_text name" and "n \<le> 10" and "i < n" and "i \<noteq> j"
  shows "other_pods name n j (nodeIDToRaftID (pod_id name i)) = Some (pod_addr name i)"
proof -
  have inj: "inj_on (\<lambda>i. nodeIDToRaftID (pod_id name i)) {0..<n}"
    using pod_raft_ids_inj [OF assms(1,2)] by (auto simp: inj_on_def pod_decls_def pod_id_inj)
  then have "distinct (map fst (map (\<lambda>i. (nodeIDToRaftID (pod_id name i), pod_addr name i)) (filter (\<lambda>i. i \<noteq> j) [0..<n])))"
    by (simp add: comp_def distinct_map inj_on_def)
  then show ?thesis
    unfolding other_pods_def by (rule map_of_is_SomeI) (use assms(3,4) in auto)
qed

lemma bootstrap:
  assumes "plain_text (cl_Name c)" and "n = replica_count (sc_Replicas (cl_Spec c))" and "n \<le> 10"
    and "PI (show_int (sc_ElectionTimeoutMs (cl_Spec c))) = Inr ms"
    and "parse_flags PI (pod_args c j) default_flags = Inr f" and "server_config host f = Inr (rn_cfg rn)"
    and "rn_peers rn = []"
  shows "(\<exists>ids. distinct ids \<and> set ids = (\<lambda>i. nodeIDToRaftID (pod_id (cl_Name c) i)) ` {..<n} \<and> length ids = n
      \<and> rn_raft (start_node L True rn) = rl_StartNode L (nodeIDToRaftID (pod_id (cl_Name c) j)) ids (rn_raft rn))
    \<and> map_of (rn_peers (start_transport rn)) = other_pods (cl_Name c) n j
    \<and> (\<exists>t. rn_transport (start_transport rn) = Some t \<and> peer_addrs t = other_pods (cl_Name c) n j)"
proof -
  let ?ps = "GetPeers (rn_cfg rn)" and ?name = "cl_Name c"
  note cfg = pod_config [OF assms(4-6)]
  have "cf_InitialPeers (rn_cfg rn) = render_peers ?name n" using cfg(2) assms(2) by simp
  then have peers: "set ?ps = set (pod_decls ?name n)" by (rule GetPeers_pods [OF assms(1)])
  have dist: "distinct (map fst ?ps)" using GetPeers_ok [of "rn_cfg rn"] by (simp add: peers_ok_def gomap_ok_def)
  note rows = rows_of_pods [OF assms(1, 3) dist peers]
  let ?ids = "map (nodeIDToRaftID \<circ> fst) ?ps"
  have ids: "distinct ?ids"
    using dist pod_raft_ids_inj [OF assms(1, 3)] peers by (auto simp: distinct_map intro: comp_inj_on)
  have set_ids: "set ?ids = (\<lambda>i. nodeIDToRaftID (pod_id ?name i)) ` {..<n}"
    by (simp add: image_comp [symmetric] peers pod_decls_def lessThan_atLeast0) (simp add: image_comp comp_def)
  have "length ?ids = card (set (map fst ?ps))" using distinct_card [OF dist] by simp
  also have "\<dots> = n" using peers distinct_card [OF distinct_pod_decls [of ?name n]] by (simp add: pod_decls_def image_comp comp_def)
  finally have len: "length ?ids = n" .
  have "rn_raft (start_node L True rn) = rl_StartNode L (nodeIDToRaftID (pod_id ?name j)) ?ids (rn_raft rn)"
    using cfg(1) by (simp add: start_node_def Let_def)
  moreover have "map_of (rn_peers (start_transport rn)) = other_pods ?name n j"
    using rows(2) cfg(1) assms(7) by (simp add: start_transport_def start_peers_table)
  moreover have "\<exists>t. rn_transport (start_transport rn) = Some t \<and> peer_addrs t = other_pods ?name n j"
  proof -
    let ?t = "NewTransport (nodeIDToRaftID (cf_NodeID (rn_cfg rn))) (cf_RaftAddr (rn_cfg rn))"
    have "peer_addrs ?t = Map.empty" by (simp add: peer_addrs_def NewTransport_def fun_eq_iff)
    then show ?thesis
      using start_peers_transport [of "rn\<lparr>rn_transport := Some ?t\<rparr>" ?t ?ps] rows(1) cfg(1)
      by (simp add: start_transport_def)
  qed
  ultimately show ?thesis using ids set_ids len by blast
qed

section \<open>Property\<close>

text \<open>C21: with up to ten replicas and a plain cluster name, the server of a pod parses the arguments that the operator
  rendered into a configuration with which a new node gives all members of the cluster different Raft identifiers,
  one for each replica, and knows exactly the other pods at their addresses, in its peer map and in its transport.\<close>

theorem cluster_bootstrap:
  assumes "plain_text (cl_Name c)" and "n = replica_count (sc_Replicas (cl_Spec c))" and "n \<le> 10"
    and "PI (show_int (sc_ElectionTimeoutMs (cl_Spec c))) = Inr ms"
    and "parse_flags PI (pod_args c j) default_flags = Inr f" and "server_config host f = Inr (rn_cfg rn)"
    and "rn_peers rn = []"
  shows "(\<exists>ids. distinct ids \<and> set ids = (\<lambda>i. nodeIDToRaftID (pod_id (cl_Name c) i)) ` {..<n} \<and> length ids = n
      \<and> rn_raft (start_node L True rn) = rl_StartNode L (nodeIDToRaftID (pod_id (cl_Name c) j)) ids (rn_raft rn))
    \<and> map_of (rn_peers (start_transport rn)) = other_pods (cl_Name c) n j
    \<and> (\<exists>t. rn_transport (start_transport rn) = Some t \<and> peer_addrs t = other_pods (cl_Name c) n j)"
  using assms by (rule bootstrap)

text \<open>The command line of the second pod of the sample cluster.\<close>

lemma sample_pod_flags:
  obtains f where "parse_flags (\<lambda>_. Inr 300) (pod_args (sample_cluster ''Ready'' [] ''none'') 1) default_flags = Inr f"
  by (simp add: pod_args_def container_args_def server_flag_defs)

theorem cluster_bootstrap_witness:
  "\<exists>rn :: unit RaftNode. cf_NodeID (rn_cfg rn) = ''kv-1''
     \<and> map_of (rn_peers (start_transport rn)) (nodeIDToRaftID ''kv-2'') = Some ''kv-2.kv-raft:9000''
     \<and> map_of (rn_peers (start_transport rn)) (nodeIDToRaftID ''kv-1'') = None"
proof -
  let ?c = "sample_cluster ''Ready'' [] ''none''"
  have name: "cl_Name ?c = ''kv''" and n: "replica_count (sc_Replicas (cl_Spec ?c)) = 3"
    by (simp_all add: sample_cluster_def replica_count_def)
  have plain: "plain_text (cl_Name ?c)" by (simp add: name plain_text_def byte_val_def IsSpace_def)
  obtain f where f: "parse_flags (\<lambda>_. Inr 300) (pod_args ?c 1) default_flags = Inr f" by (rule sample_pod_flags)
  obtain cfg where cfg: "server_config (Inl ErrIO) f = Inr cfg"
    using pod_flags(1) [OF _ f] by (simp add: server_config_def pod_id_def)
  let ?rn = "sample_node\<lparr>rn_cfg := cfg, rn_peers := []\<rparr>"
  have "map_of (rn_peers (start_transport ?rn)) = other_pods ''kv'' 3 1"
    using cluster_bootstrap [OF plain refl _ _ f, of 300 "Inl ErrIO" ?rn] cfg by (simp add: name n)
  moreover have "other_pods ''kv'' 3 1 (nodeIDToRaftID ''kv-2'') = Some ''kv-2.kv-raft:9000''"
    "other_pods ''kv'' 3 1 (nodeIDToRaftID ''kv-1'') = None" "pod_id ''kv'' 1 = ''kv-1''"
    by (simp_all add: other_pods_def pod_id_def pod_addr_def nodeIDToRaftID_def byte_val_def upt_rec dec_digit digit_char_def
      char_of_def bit_numeral_rec bit_Suc_0_iff)
  moreover have "cf_NodeID cfg = pod_id ''kv'' 1" using pod_config(1) [OF _ f cfg] by (simp add: name)
  ultimately show ?thesis by (intro exI [of _ ?rn]) simp
qed



end
