(* ===== verification/Admin.thy ===== *)
theory Admin
  imports RaftNode_Spec
begin

text \<open>
  \<open>server/pkg/server/admin.go\<close> with the messages of \<open>server/pkg/adminpb/admin.pb.go\<close>: the administrative service of a
  node. A handler returns an error or a response, with the node after it.
\<close>

section \<open>Messages\<close>

record AddLearnerRequest =
  al_NodeId :: string
  al_Address :: string

text \<open>The responses of \<open>AddLearner\<close>, \<open>Promote\<close>, \<open>RemoveNode\<close> and \<open>TransferLeader\<close> have the same two fields.\<close>

record AdminResponse =
  ar_Success :: bool
  ar_Message :: string

record CaughtUpResponse =
  cu_CaughtUp :: bool
  cu_Message :: string

record Member =
  me_NodeId :: string
  me_Role :: string
  me_CaughtUp :: bool

record StatusResponse =
  sr_Leader :: string
  sr_Members :: "Member list"

section \<open>Handlers\<close>

text \<open>The service has a copy of the node's hash of identifiers.\<close>

definition Admin_nodeIDToRaftID :: "string \<Rightarrow> u64" where
  "Admin_nodeIDToRaftID nodeID = fold (\<lambda>c hash. hash * 31 + of_nat (fst c)) (runes nodeID) 0"

text \<open>Proposing a change and answering with a message.\<close>

definition propose_change ::
    "'r raft_lib \<Rightarrow> ConfChange \<Rightarrow> string \<Rightarrow> 'r RaftNode \<Rightarrow> AdminResponse res \<times> 'r RaftNode" where
  "propose_change L cc msg rn =
     (case RN_ProposeConfChange L cc rn of
        (Inl e, rn) \<Rightarrow> (Inl (Wrap ''failed to propose conf change'' e), rn)
      | (Inr _, rn) \<Rightarrow> (Inr \<lparr>ar_Success = True, ar_Message = msg\<rparr>, rn))"

definition Admin_AddLearner :: "'r raft_lib \<Rightarrow> AddLearnerRequest \<Rightarrow> 'r RaftNode \<Rightarrow> AdminResponse res \<times> 'r RaftNode" where
  "Admin_AddLearner L req rn =
     propose_change L \<lparr>cc_Type = ConfChangeAddLearnerNode, cc_NodeID = Admin_nodeIDToRaftID (al_NodeId req),
       cc_Context = al_NodeId req\<rparr> (''Learner '' @ al_NodeId req @ '' added'') rn"

definition Admin_Promote :: "'r raft_lib \<Rightarrow> string \<Rightarrow> 'r RaftNode \<Rightarrow> AdminResponse res \<times> 'r RaftNode" where
  "Admin_Promote L nodeId rn =
     propose_change L \<lparr>cc_Type = ConfChangeAddNode, cc_NodeID = Admin_nodeIDToRaftID nodeId, cc_Context = nodeId\<rparr>
       (''Node '' @ nodeId @ '' promoted to voter'') rn"

definition Admin_RemoveNode :: "'r raft_lib \<Rightarrow> string \<Rightarrow> 'r RaftNode \<Rightarrow> AdminResponse res \<times> 'r RaftNode" where
  "Admin_RemoveNode L nodeId rn =
     propose_change L \<lparr>cc_Type = ConfChangeRemoveNode, cc_NodeID = Admin_nodeIDToRaftID nodeId, cc_Context = []\<rparr>
       (''Node '' @ nodeId @ '' removed'') rn"

definition Admin_CaughtUp :: "'r raft_lib \<Rightarrow> string \<Rightarrow> 'r RaftNode \<Rightarrow> CaughtUpResponse" where
  "Admin_CaughtUp L nodeId rn =
     (if \<not> RN_IsLeader rn then \<lparr>cu_CaughtUp = False, cu_Message = ''Not the leader''\<rparr>
      else let caughtUp = IsNodeCaughtUp L (Admin_nodeIDToRaftID nodeId) rn in
        \<lparr>cu_CaughtUp = caughtUp, cu_Message = (if \<not> caughtUp then ''Node is still catching up'' else ''Node is caught up'')\<rparr>)"

definition Admin_TransferLeader :: "'r raft_lib \<Rightarrow> string \<Rightarrow> 'r RaftNode \<Rightarrow> AdminResponse \<times> 'r RaftNode" where
  "Admin_TransferLeader L target rn =
     (if \<not> RN_IsLeader rn then (\<lparr>ar_Success = False, ar_Message = ''Not the leader''\<rparr>, rn)
      else (\<lparr>ar_Success = True, ar_Message = ''Leadership transfer initiated to '' @ target\<rparr>,
            RN_TransferLeadership L (Admin_nodeIDToRaftID target) rn))"

definition Admin_GetStatus :: "'r raft_lib \<Rightarrow> 'r RaftNode \<Rightarrow> StatusResponse" where
  "Admin_GetStatus L rn =
     \<lparr>sr_Leader = ''node-'' @ dec (unat (st_Lead (rl_Status L (rn_raft rn)))), sr_Members = []\<rparr>"

end
