(* ===== verification/AdminClient.thy ===== *)
theory AdminClient
  imports Admin
begin

text \<open>
  \<open>operator/pkg/adminclient/client.go\<close>: the operator's clients of the administrative service and their pool. What
  dialling, closing and the remote calls return depends on the network and on the nodes: they are functions over a
  state of their own, and a connection is a number.
\<close>

record 'n admin_net =
  an_dial :: "string \<Rightarrow> 'n \<Rightarrow> nat res \<times> 'n"
  an_close :: "nat \<Rightarrow> 'n \<Rightarrow> unit res \<times> 'n"
  an_AddLearner :: "nat \<Rightarrow> AddLearnerRequest \<Rightarrow> 'n \<Rightarrow> AdminResponse res \<times> 'n"
  an_Promote :: "nat \<Rightarrow> string \<Rightarrow> 'n \<Rightarrow> AdminResponse res \<times> 'n"
  an_RemoveNode :: "nat \<Rightarrow> string \<Rightarrow> 'n \<Rightarrow> AdminResponse res \<times> 'n"
  an_CaughtUp :: "nat \<Rightarrow> string \<Rightarrow> 'n \<Rightarrow> CaughtUpResponse res \<times> 'n"
  an_TransferLeader :: "nat \<Rightarrow> string \<Rightarrow> 'n \<Rightarrow> AdminResponse res \<times> 'n"
  an_GetStatus :: "nat \<Rightarrow> 'n \<Rightarrow> StatusResponse res \<times> 'n"

section \<open>One client\<close>

record AdminClient =
  ac_conn :: "nat option"  \<comment> \<open>may be nil\<close>
  ac_client :: nat  \<comment> \<open>the stub over the connection\<close>
  ac_addr :: string

definition NewAdminClient :: "'n admin_net \<Rightarrow> string \<Rightarrow> 'n \<Rightarrow> AdminClient res \<times> 'n" where
  "NewAdminClient N addr n =
     (case an_dial N addr n of
        (Inl e, n) \<Rightarrow> (Inl (Wrap (''failed to connect to '' @ addr) e), n)
      | (Inr conn, n) \<Rightarrow> (Inr \<lparr>ac_conn = Some conn, ac_client = conn, ac_addr = addr\<rparr>, n))"

definition Client_Close :: "'n admin_net \<Rightarrow> AdminClient \<Rightarrow> 'n \<Rightarrow> unit res \<times> 'n" where
  "Client_Close N c n = (case ac_conn c of Some conn \<Rightarrow> an_close N conn n | None \<Rightarrow> (Inr (), n))"

text \<open>A call whose response says whether it succeeded.\<close>

definition checked :: "string \<Rightarrow> AdminResponse res \<times> 'n \<Rightarrow> unit res \<times> 'n" where
  "checked what r =
     (case r of
        (Inl e, n) \<Rightarrow> (Inl (Wrap (what @ '' RPC failed'') e), n)
      | (Inr resp, n) \<Rightarrow>
          (if \<not> ar_Success resp then Inl (Errorf (what @ '' failed: '' @ ar_Message resp)) else Inr (), n))"

definition Client_AddLearner :: "'n admin_net \<Rightarrow> string \<Rightarrow> string \<Rightarrow> AdminClient \<Rightarrow> 'n \<Rightarrow> unit res \<times> 'n" where
  "Client_AddLearner N nodeID addr c n =
     checked ''AddLearner'' (an_AddLearner N (ac_client c) \<lparr>al_NodeId = nodeID, al_Address = addr\<rparr> n)"

definition Client_Promote :: "'n admin_net \<Rightarrow> string \<Rightarrow> AdminClient \<Rightarrow> 'n \<Rightarrow> unit res \<times> 'n" where
  "Client_Promote N nodeID c n = checked ''Promote'' (an_Promote N (ac_client c) nodeID n)"

definition Client_RemoveNode :: "'n admin_net \<Rightarrow> string \<Rightarrow> AdminClient \<Rightarrow> 'n \<Rightarrow> unit res \<times> 'n" where
  "Client_RemoveNode N nodeID c n = checked ''RemoveNode'' (an_RemoveNode N (ac_client c) nodeID n)"

definition Client_CaughtUp :: "'n admin_net \<Rightarrow> string \<Rightarrow> AdminClient \<Rightarrow> 'n \<Rightarrow> bool res \<times> 'n" where
  "Client_CaughtUp N nodeID c n =
     (case an_CaughtUp N (ac_client c) nodeID n of
        (Inl e, n) \<Rightarrow> (Inl (Wrap ''CaughtUp RPC failed'' e), n)
      | (Inr resp, n) \<Rightarrow> (Inr (cu_CaughtUp resp), n))"

definition Client_TransferLeader :: "'n admin_net \<Rightarrow> string \<Rightarrow> AdminClient \<Rightarrow> 'n \<Rightarrow> unit res \<times> 'n" where
  "Client_TransferLeader N target c n = checked ''TransferLeader'' (an_TransferLeader N (ac_client c) target n)"

definition Client_GetStatus :: "'n admin_net \<Rightarrow> AdminClient \<Rightarrow> 'n \<Rightarrow> StatusResponse res \<times> 'n" where
  "Client_GetStatus N c n =
     (case an_GetStatus N (ac_client c) n of
        (Inl e, n) \<Rightarrow> (Inl (Wrap ''GetStatus RPC failed'' e), n)
      | (Inr resp, n) \<Rightarrow> (Inr resp, n))"

section \<open>The pool\<close>

record ClientPool =
  cp_clients :: "(string, AdminClient) gomap"

definition NewClientPool :: ClientPool where
  "NewClientPool = \<lparr>cp_clients = []\<rparr>"

definition GetClient :: "'n admin_net \<Rightarrow> string \<Rightarrow> ClientPool \<Rightarrow> 'n \<Rightarrow> AdminClient res \<times> ClientPool \<times> 'n" where
  "GetClient N addr p n =
     (case map_of (cp_clients p) addr of
        Some client \<Rightarrow> (Inr client, p, n)
      | None \<Rightarrow>
          (case NewAdminClient N addr n of
             (Inl e, n) \<Rightarrow> (Inl e, p, n)
           | (Inr client, n) \<Rightarrow> (Inr client, p\<lparr>cp_clients := AList.update addr client (cp_clients p)\<rparr>, n)))"

text \<open>The loop over the clients stops at the first that fails to close.\<close>

fun close_all :: "'n admin_net \<Rightarrow> AdminClient list \<Rightarrow> 'n \<Rightarrow> unit res \<times> 'n" where
  "close_all N [] n = (Inr (), n)"
| "close_all N (c # cs) n =
     (case Client_Close N c n of (Inl e, n) \<Rightarrow> (Inl e, n) | (Inr _, n) \<Rightarrow> close_all N cs n)"

definition Pool_Close :: "'n admin_net \<Rightarrow> ClientPool \<Rightarrow> 'n \<Rightarrow> unit res \<times> ClientPool \<times> 'n" where
  "Pool_Close N p n =
     (case close_all N (map snd (cp_clients p)) n of
        (Inl e, n) \<Rightarrow> (Inl e, p, n)
      | (Inr _, n) \<Rightarrow> (Inr (), p\<lparr>cp_clients := []\<rparr>, n))"

fun FindLeader ::
    "'n admin_net \<Rightarrow> string list \<Rightarrow> ClientPool \<Rightarrow> 'n \<Rightarrow> (string \<times> AdminClient) res \<times> ClientPool \<times> 'n" where
  "FindLeader N [] p n = (Inl (Errorf ''no leader found''), p, n)"
| "FindLeader N (addr # addrs) p n =
     (case GetClient N addr p n of
        (Inl _, p, n) \<Rightarrow> FindLeader N addrs p n
      | (Inr client, p, n) \<Rightarrow>
          (case Client_GetStatus N client n of
             (Inl _, n) \<Rightarrow> FindLeader N addrs p n
           | (Inr status, n) \<Rightarrow>
               if sr_Leader status \<noteq> [] then (Inr (sr_Leader status, client), p, n)
               else FindLeader N addrs p n))"

end
