(* ===== verification/Admin_Spec.thy ===== *)
theory Admin_Spec
  imports AdminClient
begin

text \<open>
  What administrative requests do to the cluster: the changes they propose, what becomes of the tables of a node when
  a change is applied, and what the operator's clients see of it.
\<close>

section \<open>Specification\<close>

text \<open>The configuration changes behind the requests.\<close>

definition learner_change :: "string \<Rightarrow> ConfChange" where
  "learner_change nodeId =
     \<lparr>cc_Type = ConfChangeAddLearnerNode, cc_NodeID = nodeIDToRaftID nodeId, cc_Context = nodeId\<rparr>"

definition voter_change :: "string \<Rightarrow> ConfChange" where
  "voter_change nodeId = \<lparr>cc_Type = ConfChangeAddNode, cc_NodeID = nodeIDToRaftID nodeId, cc_Context = nodeId\<rparr>"

definition remove_change :: "string \<Rightarrow> ConfChange" where
  "remove_change nodeId = \<lparr>cc_Type = ConfChangeRemoveNode, cc_NodeID = nodeIDToRaftID nodeId, cc_Context = []\<rparr>"

text \<open>The addresses a node knows: those in its peer map and those its transport sends to.\<close>

definition known_peers :: "'r RaftNode \<Rightarrow> (u64 \<Rightarrow> string option) \<times> (u64 \<Rightarrow> string option)" where
  "known_peers rn =
     (map_of (rn_peers rn), case rn_transport rn of None \<Rightarrow> Map.empty | Some t \<Rightarrow> peer_addrs t)"

text \<open>
  A network without faults between the operator and the nodes: the nodes by their addresses, a connection being the
  position of the node, and every call running the handler of that node.
\<close>

type_synonym 'r nodes = "(string \<times> 'r RaftNode) list"

definition on_node :: "('r RaftNode \<Rightarrow> 'a \<times> 'r RaftNode) \<Rightarrow> nat \<Rightarrow> 'r nodes \<Rightarrow> 'a res \<times> 'r nodes" where
  "on_node h i ns =
     (if i < length ns then (case h (snd (ns ! i)) of (a, rn) \<Rightarrow> (Inr a, ns[i := (fst (ns ! i), rn)]))
      else (Inl ErrClosed, ns))"

definition flat :: "'a res res \<times> 'n \<Rightarrow> 'a res \<times> 'n" where
  "flat r = (case r of (Inl e, n) \<Rightarrow> (Inl e, n) | (Inr x, n) \<Rightarrow> (x, n))"

definition direct_net :: "'r raft_lib \<Rightarrow> 'r nodes admin_net" where
  "direct_net L =
     \<lparr>an_dial = (\<lambda>addr ns. case find (\<lambda>i. fst (ns ! i) = addr) [0..<length ns] of
                              None \<Rightarrow> (Inl ErrDeadline, ns) | Some i \<Rightarrow> (Inr i, ns)),
      an_close = (\<lambda>_ ns. (Inr (), ns)),
      an_AddLearner = (\<lambda>i req ns. flat (on_node (Admin_AddLearner L req) i ns)),
      an_Promote = (\<lambda>i x ns. flat (on_node (Admin_Promote L x) i ns)),
      an_RemoveNode = (\<lambda>i x ns. flat (on_node (Admin_RemoveNode L x) i ns)),
      an_CaughtUp = (\<lambda>i x ns. on_node (\<lambda>rn. (Admin_CaughtUp L x rn, rn)) i ns),
      an_TransferLeader = (\<lambda>i x ns. on_node (Admin_TransferLeader L x) i ns),
      an_GetStatus = (\<lambda>i ns. on_node (\<lambda>rn. (Admin_GetStatus L rn, rn)) i ns)\<rparr>"

text \<open>Asking the pool for the clients of several addresses, one after the other.\<close>

fun get_clients :: "'n admin_net \<Rightarrow> string list \<Rightarrow> ClientPool \<Rightarrow> 'n \<Rightarrow> ClientPool \<times> 'n" where
  "get_clients N [] p n = (p, n)"
| "get_clients N (a # as) p n = (case GetClient N a p n of (_, p, n) \<Rightarrow> get_clients N as p n)"

section \<open>The interface of the service\<close>

text \<open>
  What the search for a leader gets from the service: the status of a node always names somebody. The names are not
  checked, so the search ends at the first node that answers.
\<close>

locale status_service =
  fixes N :: "'n admin_net"
  assumes status_names: "an_GetStatus N conn n = (Inr st, n') \<Longrightarrow> sr_Leader st \<noteq> []"
begin

lemma FindLeader_first:
  assumes "GetClient N addr p n = (Inr c, p1, n1)" and "Client_GetStatus N c n1 = (Inr st, n2)"
  shows "FindLeader N (addr # addrs) p n = (Inr (sr_Leader st, c), p1, n2)"
proof -
  from assms(2) have "an_GetStatus N (ac_client c) n1 = (Inr st, n2)"
    by (auto simp: Client_GetStatus_def split: prod.splits sum.splits)
  then have "sr_Leader st \<noteq> []" by (rule status_names)
  with assms show ?thesis by simp
qed

lemma FindLeader_found:
  assumes "FindLeader N addrs p n = (Inr (l, c), p', n')"
  shows "\<exists>pre addr post p1 n1 p2 n2 st. addrs = pre @ addr # post \<and> GetClient N addr p1 n1 = (Inr c, p2, n2)
    \<and> Client_GetStatus N c n2 = (Inr st, n') \<and> l = sr_Leader st"
  using assms
proof (induction addrs arbitrary: p n)
  case (Cons a addrs)
  show ?case
  proof (cases "FindLeader N (a # addrs) p n = (Inr (l, c), p', n') \<and> (\<exists>p1 n1. FindLeader N addrs p1 n1 = (Inr (l, c), p', n'))")
    case True
    then obtain p1 n1 where "FindLeader N addrs p1 n1 = (Inr (l, c), p', n')" by blast
    from Cons.IH [OF this] show ?thesis by (metis append_Cons)
  next
    case False
    with Cons.prems have "\<exists>p2 n2 st. GetClient N a p n = (Inr c, p2, n2) \<and> Client_GetStatus N c n2 = (Inr st, n') \<and> l = sr_Leader st"
      by (auto split: prod.splits sum.splits if_splits)
    then show ?thesis by (metis append_Nil)
  qed
qed simp

end

section \<open>Lemmas\<close>

lemma direct_status:
  assumes "an_GetStatus (direct_net L) conn ns = (Inr st, ns')"
  shows "st = Admin_GetStatus L (snd (ns ! conn)) \<and> conn < length ns \<and> ns' = ns"
  using assms by (auto simp: direct_net_def on_node_def split: if_splits)

interpretation direct: status_service "direct_net L"
  by unfold_locales (auto dest!: direct_status simp: Admin_GetStatus_def)

lemma same_hash: "Admin_nodeIDToRaftID = nodeIDToRaftID"
  by (simp add: fun_eq_iff Admin_nodeIDToRaftID_def nodeIDToRaftID_def)

lemma apply_add_change:
  assumes "cc_Type cc \<in> {ConfChangeAddNode, ConfChangeAddLearnerNode}" and "cc_Context cc \<noteq> []"
  shows "known_peers (apply_conf_change L cc rn) =
    ((fst (known_peers rn))(cc_NodeID cc \<mapsto> cc_Context cc),
     if rn_transport rn = None then Map.empty else [cc_NodeID cc \<mapsto> cc_Context cc] ++ snd (known_peers rn))"
  using assms
  by (cases "rn_transport rn") (auto simp: known_peers_def apply_conf_change_def Let_def update_conv' peer_addrs_Add)

lemma apply_remove_change:
  assumes "cc_Type cc = ConfChangeRemoveNode"
  shows "known_peers (apply_conf_change L cc rn) =
    ((fst (known_peers rn))(cc_NodeID cc := None), (snd (known_peers rn))(cc_NodeID cc := None))"
  using assms peer_addrs_op [of "PeerRemove i" t for i t]
  by (cases "rn_transport rn")
    (auto simp: known_peers_def apply_conf_change_def Let_def delete_conv' fun_eq_iff)

lemma GetClient_keeps:
  assumes "map_of (cp_clients p) a = Some c" and "GetClient N b p n = (r, p', n')"
  shows "map_of (cp_clients p') a = Some c"
  using assms by (auto simp: GetClient_def update_conv' split: option.splits prod.splits sum.splits)

lemma get_clients_keeps:
  "map_of (cp_clients p) a = Some c \<Longrightarrow> get_clients N as p n = (p', n') \<Longrightarrow> map_of (cp_clients p') a = Some c"
  by (induction N as p n rule: get_clients.induct) (auto split: prod.splits dest: GetClient_keeps)

lemma AddLearner_proposes:
  "Admin_AddLearner L req rn =
     propose_change L (learner_change (al_NodeId req)) (''Learner '' @ al_NodeId req @ '' added'') rn"
  by (simp add: Admin_AddLearner_def learner_change_def same_hash)

lemma proposal_node: "snd (propose_change L cc msg rn) = snd (RN_ProposeConfChange L cc rn)"
  by (simp add: propose_change_def split: prod.split sum.split)

lemma dial_known:
  assumes "i < length ns" and "fst (ns ! i) = addr" and "\<forall>j < i. fst (ns ! j) \<noteq> addr"
  shows "an_dial (direct_net L) addr ns = (Inr i, ns)"
proof -
  have "find (\<lambda>j. fst (ns ! j) = addr) [0..<length ns] = Some i"
    unfolding find_Some_iff using assms by (intro exI [of _ i]) auto
  then show ?thesis by (simp add: direct_net_def)
qed

section \<open>Properties\<close>



text \<open>The address in a request to add a learner is not used: the change that is proposed carries the name of the node
  as its context, and once it is applied, messages to the learner are posted to that name.\<close>

theorem learner_dialled_by_name:
  assumes "al_NodeId req \<noteq> []" and "en_Type e = raftpb_EntryConfChange"
    and "cd_cc_unmarshal C (en_Data e) = Inr (learner_change (al_NodeId req))"
    and "rn_transport rn = Some t" and "transport_ok t" and "peer_addrs t (nodeIDToRaftID (al_NodeId req)) = None"
    and "any_url H" and "ms_To m = nodeIDToRaftID (al_NodeId req)"
  shows "snd (Admin_AddLearner L req rn) = snd (RN_ProposeConfChange L (learner_change (al_NodeId req)) rn)
    \<and> (\<exists>rn' t'. applyEntry L C e rn = Some (Inr (), rn') \<and> rn_transport rn' = Some t'
         \<and> SendMessages H M t' [m] = [(''http://'' @ al_NodeId req @ raft_endpoint m, json_text (mc_json M m))])"
proof -
  let ?t = "AddPeer (nodeIDToRaftID (al_NodeId req)) (al_NodeId req) t"
  have single: "SendMessages H M ?t [m] = snd (Transport_Send H M ?t m)" by (simp split: prod.split)
  have "peer_addrs ?t (ms_To m) = Some (al_NodeId req)" using assms(6, 8) by (simp add: peer_addrs_Add map_add_def)
  then have "SendMessages H M ?t [m] = [(''http://'' @ al_NodeId req @ raft_endpoint m, json_text (mc_json M m))]"
    unfolding single Transport_Send_posts [OF AddPeer_ok [OF assms(5)] assms(7)] by (simp add: posted_to_def)
  moreover have "applyEntry L C e rn = Some (Inr (), apply_conf_change L (learner_change (al_NodeId req)) rn)"
    using assms(2, 3) by (simp add: applyEntry_def)
  moreover have "rn_transport (apply_conf_change L (learner_change (al_NodeId req)) rn) = Some ?t"
    using assms(1, 4) by (simp add: apply_conf_change_def learner_change_def)
  ultimately show ?thesis by (simp add: AddLearner_proposes proposal_node)
qed

theorem learner_dialled_by_name_witness:
  "\<exists>rn' t'. applyEntry sample_lib (sample_codec\<lparr>cd_cc_unmarshal := \<lambda>_. Inr (learner_change ''kv-3'')\<rparr>)
       \<lparr>en_Term = 1, en_Index = 5, en_Type = raftpb_EntryConfChange, en_Data = []\<rparr>
       (sample_node\<lparr>rn_transport := Some (NewTransport 1 '':9000'')\<rparr>) = Some (Inr (), rn')
     \<and> rn_transport rn' = Some t'
     \<and> map fst (SendMessages dead_client sample_msg_codec t' [sample_msg (nodeIDToRaftID ''kv-3'')]) = [''http://kv-3/raft'']"
proof -
  let ?req = "\<lparr>al_NodeId = ''kv-3'', al_Address = ''kv-3.kv-raft:9000''\<rparr>" and ?t = "NewTransport 1 '':9000''"
  let ?C = "sample_codec\<lparr>cd_cc_unmarshal := \<lambda>_. Inr (learner_change ''kv-3'')\<rparr>"
  let ?e = "\<lparr>en_Term = 1, en_Index = 5, en_Type = raftpb_EntryConfChange, en_Data = []\<rparr>"
  let ?m = "sample_msg (nodeIDToRaftID ''kv-3'')"
  have h: "transport_ok ?t" "peer_addrs ?t (nodeIDToRaftID ''kv-3'') = None" "any_url dead_client" "ms_To ?m = nodeIDToRaftID ''kv-3''"
    by (simp_all add: transport_ok_def peer_addrs_def NewTransport_def any_url_def dead_client_def sample_msg_def)
  have "raft_endpoint ?m = ''/raft''" by (simp add: raft_endpoint_def sample_msg_def)
  with learner_dialled_by_name [of ?req ?e ?C "sample_node\<lparr>rn_transport := Some ?t\<rparr>" ?t dead_client ?m sample_lib sample_msg_codec] h
  show ?thesis by auto
qed

text \<open>The search for the leader stops at the first node that answers: whoever leads, and even when nobody does, it
  returns the client of the first address that can be dialled, with the identifier that node reports.\<close>

theorem find_leader_is_first_node:
  assumes "i < length ns" and "fst (ns ! i) = addr" and "\<forall>j < i. fst (ns ! j) \<noteq> addr"
    and "map_of (cp_clients p) addr = None"
  shows "\<exists>p'. FindLeader (direct_net L) (addr # addrs) p ns =
    (Inr (''node-'' @ dec (unat (st_Lead (rl_Status L (rn_raft (snd (ns ! i)))))), \<lparr>ac_conn = Some i, ac_client = i, ac_addr = addr\<rparr>), p', ns)"
proof -
  let ?c = "\<lparr>ac_conn = Some i, ac_client = i, ac_addr = addr\<rparr>" and ?p = "p\<lparr>cp_clients := AList.update addr \<lparr>ac_conn = Some i, ac_client = i, ac_addr = addr\<rparr> (cp_clients p)\<rparr>"
  have get: "GetClient (direct_net L) addr p ns = (Inr ?c, ?p, ns)"
    using assms(4) dial_known [OF assms(1-3), of L] by (simp add: GetClient_def NewAdminClient_def)
  have status: "Client_GetStatus (direct_net L) ?c ns = (Inr (Admin_GetStatus L (snd (ns ! i))), ns)"
    using assms(1) by (simp add: Client_GetStatus_def direct_net_def on_node_def)
  from direct.FindLeader_first [OF get status] show ?thesis by (simp add: Admin_GetStatus_def)
qed

theorem find_leader_is_first_node_witness:
  "\<exists>p'. FindLeader (direct_net sample_lib) [''kv-0:9090''] NewClientPool [(''kv-0:9090'', sample_node)] =
    (Inr (''node-'' @ dec 0, \<lparr>ac_conn = Some 0, ac_client = 0, ac_addr = ''kv-0:9090''\<rparr>), p', [(''kv-0:9090'', sample_node)])"
  using find_leader_is_first_node [of 0 "[(''kv-0:9090'', sample_node)]" "''kv-0:9090''" NewClientPool sample_lib "[]"]
  by (simp add: NewClientPool_def sample_lib_def)

text \<open>The pool dials an address once: after a client was handed out, asking for the same address again, whatever other
  clients were asked for in between, returns the same client and does not touch the network.\<close>

theorem pool_dials_once:
  assumes "GetClient N a p n = (Inr c, p1, n1)" and "get_clients N as p1 n1 = (p2, n2)"
  shows "GetClient N a p2 n2 = (Inr c, p2, n2)"
proof -
  have "map_of (cp_clients p1) a = Some c"
    using assms(1) by (auto simp: GetClient_def update_conv' split: option.splits prod.splits sum.splits)
  from get_clients_keeps [OF this assms(2)] show ?thesis by (simp add: GetClient_def)
qed

theorem pool_dials_once_witness:
  "\<exists>p1 p2. GetClient (direct_net sample_lib) ''a'' NewClientPool [(''a'', sample_node), (''b'', sample_node)]
       = (Inr \<lparr>ac_conn = Some 0, ac_client = 0, ac_addr = ''a''\<rparr>, p1, [(''a'', sample_node), (''b'', sample_node)])
     \<and> get_clients (direct_net sample_lib) [''b''] p1 [(''a'', sample_node), (''b'', sample_node)]
       = (p2, [(''a'', sample_node), (''b'', sample_node)])
     \<and> GetClient (direct_net sample_lib) ''a'' p2 [(''a'', sample_node), (''b'', sample_node)]
       = (Inr \<lparr>ac_conn = Some 0, ac_client = 0, ac_addr = ''a''\<rparr>, p2, [(''a'', sample_node), (''b'', sample_node)])"
proof -
  let ?ns = "[(''a'', sample_node), (''b'', sample_node)]" and ?N = "direct_net sample_lib"
  have d: "an_dial ?N ''a'' ?ns = (Inr 0, ?ns)" "an_dial ?N ''b'' ?ns = (Inr 1, ?ns)"
    using dial_known [of 0 ?ns "''a''" sample_lib] dial_known [of 1 ?ns "''b''" sample_lib] by simp_all
  obtain p1 where g: "GetClient ?N ''a'' NewClientPool ?ns = (Inr \<lparr>ac_conn = Some 0, ac_client = 0, ac_addr = ''a''\<rparr>, p1, ?ns)"
    "map_of (cp_clients p1) ''b'' = None"
    by (simp add: GetClient_def NewClientPool_def NewAdminClient_def d)
  obtain p2 where "get_clients ?N [''b''] p1 ?ns = (p2, ?ns)"
    by (simp add: GetClient_def g(2) NewAdminClient_def d)
  with g(1) pool_dials_once [OF g(1)] show ?thesis by blast
qed

text \<open>C33: a leader reports a node as caught up exactly when the node is at most ten entries behind the commit index, as
  long as adding ten to its match index does not wrap around; a node without progress and a node asked of a follower
  are never reported.\<close>

theorem caught_up_reported:
  assumes "\<forall>m. map_of (st_Progress (rl_Status L (rn_raft rn))) (nodeIDToRaftID x) = Some m \<longrightarrow> unat m + 10 < 2 ^ 64"
  shows "cu_CaughtUp (Admin_CaughtUp L x rn) \<longleftrightarrow> rn_isLeader rn \<and>
     (\<exists>m. map_of (st_Progress (rl_Status L (rn_raft rn))) (nodeIDToRaftID x) = Some m
        \<and> unat (st_Commit (rl_Status L (rn_raft rn))) \<le> unat m + 10)"
  using IsNodeCaughtUp_iff [OF assms] by (simp add: Admin_CaughtUp_def same_hash RN_IsLeader_def Let_def)

theorem caught_up_reported_witness:
  "\<exists>L. rl_Status L () = \<lparr>st_Lead = 1, st_Commit = 100, st_Progress = [(nodeIDToRaftID ''a'', 95)]\<rparr>
     \<and> cu_CaughtUp (Admin_CaughtUp L ''a'' sample_node)"
proof -
  let ?L = "sample_lib\<lparr>rl_Status := \<lambda>_. \<lparr>st_Lead = 1, st_Commit = 100, st_Progress = [(nodeIDToRaftID ''a'', 95)]\<rparr>\<rparr>"
  have "cu_CaughtUp (Admin_CaughtUp ?L ''a'' sample_node)"
    using caught_up_reported [of ?L sample_node "''a''"] by (simp add: sample_node_def)
  then show ?thesis by (intro exI [of _ ?L]) simp
qed

end
