(* ===== verification/AdminPB.thy ===== *)
theory AdminPB
  imports Admin_Spec
begin

text \<open>
  \<open>server/pkg/adminpb/admin.pb.go\<close>, the checked-in placeholder of the generated code: the interface of the administrative
  service, the methods that a server gets by embedding \<open>UnimplementedAdminServiceServer\<close>, and a registration that does nothing.
  What a gRPC server answers is a parameter, the network of the clients, with what its documentation says of services that
  are not registered as a hypothesis.
\<close>

section \<open>The service\<close>

record 's AdminServiceServer =
  sv_AddLearner :: "AddLearnerRequest \<Rightarrow> 's \<Rightarrow> AdminResponse res \<times> 's"
  sv_Promote :: "string \<Rightarrow> 's \<Rightarrow> AdminResponse res \<times> 's"
  sv_RemoveNode :: "string \<Rightarrow> 's \<Rightarrow> AdminResponse res \<times> 's"
  sv_CaughtUp :: "string \<Rightarrow> 's \<Rightarrow> CaughtUpResponse res \<times> 's"
  sv_TransferLeader :: "string \<Rightarrow> 's \<Rightarrow> AdminResponse res \<times> 's"
  sv_GetStatus :: "'s \<Rightarrow> StatusResponse res \<times> 's"

definition not_implemented :: "string \<Rightarrow> 's \<Rightarrow> 'a res \<times> 's" where
  "not_implemented what s = (Inl (Errorf (''method '' @ what @ '' not implemented'')), s)"

definition UnimplementedAdminServiceServer :: "'s AdminServiceServer" where
  "UnimplementedAdminServiceServer =
     \<lparr>sv_AddLearner = (\<lambda>_. not_implemented ''AddLearner''), sv_Promote = (\<lambda>_. not_implemented ''Promote''),
      sv_RemoveNode = (\<lambda>_. not_implemented ''RemoveNode''), sv_CaughtUp = (\<lambda>_. not_implemented ''CaughtUp''),
      sv_TransferLeader = (\<lambda>_. not_implemented ''TransferLeader''), sv_GetStatus = not_implemented ''GetStatus''\<rparr>"

text \<open>The server of \<open>admin.go\<close> embeds these methods and declares each of them anew.\<close>

definition admin_service :: "'r raft_lib \<Rightarrow> 'r RaftNode AdminServiceServer" where
  "admin_service L = UnimplementedAdminServiceServer
     \<lparr>sv_AddLearner := Admin_AddLearner L, sv_Promote := Admin_Promote L, sv_RemoveNode := Admin_RemoveNode L,
      sv_CaughtUp := (\<lambda>x rn. (Inr (Admin_CaughtUp L x rn), rn)),
      sv_TransferLeader := (\<lambda>x rn. apfst Inr (Admin_TransferLeader L x rn)),
      sv_GetStatus := (\<lambda>rn. (Inr (Admin_GetStatus L rn), rn))\<rparr>"

text \<open>The services of a gRPC server; the placeholder registers none.\<close>

definition RegisterAdminServiceServer :: "'s AdminServiceServer \<Rightarrow> 's AdminServiceServer list \<Rightarrow> 's AdminServiceServer list" where
  "RegisterAdminServiceServer srv services = services"

definition admin_grpc_services :: "'r raft_lib \<Rightarrow> 'r RaftNode AdminServiceServer list" where
  "admin_grpc_services L = RegisterAdminServiceServer (admin_service L) []"

section \<open>Specification\<close>

text \<open>Calls to a service that is not registered fail.\<close>

definition refuses :: "'n admin_net \<Rightarrow> bool" where
  "refuses N \<longleftrightarrow>
     (\<forall>conn n. (\<forall>req. \<exists>e n'. an_AddLearner N conn req n = (Inl e, n')) \<and> (\<forall>x. \<exists>e n'. an_Promote N conn x n = (Inl e, n'))
       \<and> (\<forall>x. \<exists>e n'. an_RemoveNode N conn x n = (Inl e, n')) \<and> (\<forall>x. \<exists>e n'. an_CaughtUp N conn x n = (Inl e, n'))
       \<and> (\<forall>x. \<exists>e n'. an_TransferLeader N conn x n = (Inl e, n')) \<and> (\<exists>e n'. an_GetStatus N conn n = (Inl e, n')))"

text \<open>A network whose members have the given services.\<close>

definition serving :: "'r RaftNode AdminServiceServer list \<Rightarrow>
    ('r RaftNode AdminServiceServer \<Rightarrow> 'r RaftNode \<Rightarrow> 'a res \<times> 'r RaftNode) \<Rightarrow> nat \<Rightarrow> 'r nodes \<Rightarrow> 'a res \<times> 'r nodes" where
  "serving services meth i ns =
     (case services of
        [] \<Rightarrow> (Inl (Errorf ''unknown service admin.AdminService''), ns)
      | srv # _ \<Rightarrow> flat (on_node (meth srv) i ns))"

definition grpc_net :: "'r RaftNode AdminServiceServer list \<Rightarrow> 'r raft_lib \<Rightarrow> 'r nodes admin_net" where
  "grpc_net services L = (direct_net L)
     \<lparr>an_AddLearner := (\<lambda>i req. serving services (\<lambda>srv. sv_AddLearner srv req) i),
      an_Promote := (\<lambda>i x. serving services (\<lambda>srv. sv_Promote srv x) i),
      an_RemoveNode := (\<lambda>i x. serving services (\<lambda>srv. sv_RemoveNode srv x) i),
      an_CaughtUp := (\<lambda>i x. serving services (\<lambda>srv. sv_CaughtUp srv x) i),
      an_TransferLeader := (\<lambda>i x. serving services (\<lambda>srv. sv_TransferLeader srv x) i),
      an_GetStatus := (\<lambda>i. serving services sv_GetStatus i)\<rparr>"

section \<open>Lemmas\<close>

lemma flat_ok: "flat (on_node (\<lambda>rn. apfst Inr (g rn)) i ns) = on_node g i ns"
  by (simp add: on_node_def flat_def split: prod.split)

lemma flat_read: "flat (on_node (\<lambda>rn. (Inr (h rn), rn)) i ns) = on_node (\<lambda>rn. (h rn, rn)) i ns"
  using flat_ok [of "\<lambda>rn. (h rn, rn)"] by simp

text \<open>Registered, the handlers of the server are what the clients of \<open>direct_net\<close> reach.\<close>

lemma registered_net: "grpc_net [admin_service L] L = direct_net L"
  by (simp add: grpc_net_def direct_net_def serving_def admin_service_def fun_eq_iff flat_ok flat_read)

lemma placeholder_refuses: "refuses (grpc_net (admin_grpc_services L) L)"
  by (simp add: refuses_def grpc_net_def serving_def admin_grpc_services_def RegisterAdminServiceServer_def)

text \<open>With the placeholder, no member ever answers: the search for a leader fails, and so does every call of a client.\<close>

lemma placeholder_no_leader:
  assumes "refuses N"
  shows "\<exists>p' n'. FindLeader N addrs p n = (Inl (Errorf ''no leader found''), p', n')"
proof (induction addrs arbitrary: p n)
  case (Cons addr addrs)
  obtain r p1 n1 where g: "GetClient N addr p n = (r, p1, n1)"
    by (cases "GetClient N addr p n")
  show ?case
  proof (cases r)
    case (Inr c)
    obtain e n2 where "an_GetStatus N (ac_client c) n1 = (Inl e, n2)"
      using assms unfolding refuses_def by blast
    then show ?thesis
      using Cons.IH [of p1 n2] g Inr by (simp add: Client_GetStatus_def)
  qed (use Cons.IH [of p1 n1] g in simp)
qed simp

end
