(* ===== verification/Controller_Types.thy ===== *)
theory Controller_Types
  imports Controller_Spec
begin

text \<open>
  The status of a cluster as the API server sees it: the enumerations of \<open>raftcluster_types.go\<close>, which the custom resource
  definition repeats and the server enforces. A field that is empty is left out of the object and not looked at.
\<close>

section \<open>The enumerations\<close>

definition RoleVoter :: string where "RoleVoter = ''voter''"
definition RoleLearner :: string where "RoleLearner = ''learner''"

definition ClusterPhase :: "string set" where
  "ClusterPhase = {PhasePending, PhaseReady, PhaseReconfiguring, PhaseDegraded}"

definition JointConsensusState :: "string set" where
  "JointConsensusState = {JointStateNone, JointStateEntering, JointStateCommitted, JointStateLeaving}"

definition MemberRole :: "string set" where
  "MemberRole = {RoleVoter, RoleLearner}"

definition ReconfigStep :: "string set" where
  "ReconfigStep =
     {ReconfigStepNone, ReconfigStepAddLearner, ReconfigStepCatchUp, ReconfigStepEnterJoint, ReconfigStepCommitNew,
      ReconfigStepLeaveJoint, ReconfigStepLeaderTransfer}"

definition valid_status :: "RaftClusterStatus \<Rightarrow> bool" where
  "valid_status s \<longleftrightarrow>
     (cs_Phase s = [] \<or> cs_Phase s \<in> ClusterPhase) \<and> (cs_JointState s = [] \<or> cs_JointState s \<in> JointConsensusState)
     \<and> cs_CurrentReconfigStep s \<in> ReconfigStep \<and> list_all (\<lambda>m. mb_Role m \<in> MemberRole) (cs_Members s)"

section \<open>A server that validates\<close>

text \<open>An update with an invalid status is rejected before anything is stored.\<close>

definition validating :: "'k kube_api \<Rightarrow> 'k kube_api" where
  "validating K = K\<lparr>ka_update_status := \<lambda>c k. if valid_status (cl_Status c) then ka_update_status K c k else (Inl (ErrLib 422), k)\<rparr>"

text \<open>What the server stores is valid: it was validated when it was stored.\<close>

definition stores_valid :: "'k kube_api \<Rightarrow> bool" where
  "stores_valid K \<longleftrightarrow>
     (\<forall>req k c. ka_get_cluster K req k = Inr c \<longrightarrow> valid_status (cl_Status c))
     \<and> (\<forall>c k c' k'. ka_update_status K c k = (Inr c', k') \<longrightarrow> valid_status (cl_Status c) \<longrightarrow> valid_status (cl_Status c'))"

definition sample_api :: "RaftCluster \<Rightarrow> RaftCluster list kube_api" where
  "sample_api c =
     \<lparr>ka_get_cluster = (\<lambda>_ _. Inr c), ka_update_status = (\<lambda>c k. (Inr c, k @ [c])),
      ka_apply_service = (\<lambda>_ _ _ k. (Inr (), k)), ka_apply_sts = (\<lambda>_ _ _ k. (Inr (), k)),
      ka_get_sts = (\<lambda>_ _. Inr ((statefulset_spec always_api c)\<lparr>ss_Replicas := Some 5\<rparr>)), ka_not_found = (\<lambda>e. e = ErrLib 404),
      ka_quantity = (\<lambda>_. Inr 1)\<rparr>"

section \<open>Lemmas\<close>

named_theorems validated \<open>calls that a validating server answers like the server behind it\<close>

lemma validating_update [validated]:
  "valid_status (cl_Status c) \<Longrightarrow> ka_update_status (validating K) c k = ka_update_status K c k"
  by (simp add: validating_def)

lemma validating_other [validated]:
  "ka_get_cluster (validating K) = ka_get_cluster K" "ka_not_found (validating K) = ka_not_found K"
  "reconcileService (validating K) = reconcileService K" "reconcileStatefulSet (validating K) = reconcileStatefulSet K"
  "needsReconfiguration (validating K) = needsReconfiguration K"
  by (auto simp: validating_def fun_eq_iff reconcileService_def reconcileStatefulSet_def statefulset_spec_def parseQuantity_def
      needsReconfiguration_def split: sum.split)

lemma stores_validD:
  assumes "stores_valid K"
  shows "ka_get_cluster K req k = Inr c \<Longrightarrow> valid_status (cl_Status c)"
    and "ka_update_status K c k = (Inr c', k') \<Longrightarrow> valid_status (cl_Status c) \<Longrightarrow> valid_status (cl_Status c')"
  using assms unfolding stores_valid_def by blast+

lemmas enums = ClusterPhase_def JointConsensusState_def ReconfigStep_def

lemma valid_round:
  assumes "valid_status (cl_Status c)"
  shows "valid_status (cl_Status (snd (round_update now c)))"
  using assms by (simp add: valid_status_def enums round_update_def safe_status_def Let_def)

lemma valid_reconfiguration [validated]:
  assumes "valid_status (cl_Status c)"
  shows "reconcileReconfiguration (validating K) now c k = reconcileReconfiguration K now c k"
proof (cases "in_cooldown now c")
  case True
  then show ?thesis
    by (simp add: reconcileReconfiguration_def in_cooldown_def)
next
  case False
  then show ?thesis
    by (simp add: round_is_update update_then_def validated valid_round [OF assms])
qed

lemma valid_with_phase:
  assumes "valid_status s" and "p \<in> ClusterPhase"
  shows "valid_status (s\<lparr>cs_Phase := p\<rparr>)"
  using assms by (simp add: valid_status_def)

text \<open>The object that a round returns is valid, whatever the server did with it.\<close>

lemma reconfiguration_keeps_valid:
  assumes "valid_status (cl_Status c)" and "stores_valid K" and "reconcileReconfiguration K now c k = (r, e, d, k')"
  shows "valid_status (cl_Status d)"
  using assms(1,3) valid_round [OF assms(1), of now]
  by (auto simp: round_is_update update_then_def split: if_splits prod.splits sum.splits dest: stores_validD(2) [OF assms(2)])

lemma valid_run [validated]:
  assumes "valid_status (cl_Status c)" and "stores_valid K"
  shows "run_reconfiguration (validating K) now c k = run_reconfiguration K now c k"
proof -
  obtain r e d k' where r: "reconcileReconfiguration K now c k = (r, e, d, k')"
    by (metis prod_cases4)
  have "valid_status (cl_Status (with_status (\<lambda>s. s\<lparr>cs_Phase := PhaseDegraded\<rparr>) d))"
    using reconfiguration_keeps_valid [OF assms r] by (simp add: valid_with_phase enums)
  then show ?thesis
    by (cases e) (simp_all add: run_reconfiguration_def validated assms(1) r)
qed

lemma valid_init [validated]:
  assumes "valid_status (cl_Status c)"
  shows "init_status (validating K) c k = init_status K c k"
proof -
  have "valid_status (cl_Status (with_status (\<lambda>s. s\<lparr>cs_Phase := PhasePending, cs_JointState := JointStateNone,
      cs_ConfigurationIndex := 0\<rparr>) c))"
    using assms by (simp add: valid_status_def enums)
  then show ?thesis
    by (simp add: init_status_def validated)
qed

lemma init_keeps_valid:
  assumes "valid_status (cl_Status c)" and "stores_valid K" and "init_status K c k = (Inr d, k')"
  shows "valid_status (cl_Status d)"
proof (cases "cs_Phase (cl_Status c) = []")
  case True
  let ?c = "with_status (\<lambda>s. s\<lparr>cs_Phase := PhasePending, cs_JointState := JointStateNone, cs_ConfigurationIndex := 0\<rparr>) c"
  have "valid_status (cl_Status ?c)"
    using assms(1) by (simp add: valid_status_def enums)
  moreover have "ka_update_status K ?c k = (Inr d, k')"
    using True assms(3) by (simp add: init_status_def)
  ultimately show ?thesis
    using stores_validD(2) [OF assms(2)] by blast
next
  case False
  then show ?thesis
    using assms by (simp add: init_status_def)
qed

lemma valid_finish [validated]:
  assumes "valid_status (cl_Status c)"
  shows "finish_ready (validating K) c k = finish_ready K c k"
proof -
  have "valid_status (cl_Status (with_status (\<lambda>s. s\<lparr>cs_Phase := PhaseReady, cs_CurrentReconfigStep := ReconfigStepNone\<rparr>) c))"
    using assms by (simp add: valid_status_def enums)
  then show ?thesis
    by (simp add: finish_ready_def validated)
qed

lemma sample_stores_valid: "valid_status (cl_Status c) \<Longrightarrow> stores_valid (sample_api c)"
  by (auto simp: stores_valid_def sample_api_def)

lemma sample_status_valid: "valid_status (cl_Status (sample_cluster [] [] []))"
  by (simp add: valid_status_def sample_cluster_def enums steps)

section \<open>Property\<close>

text \<open>C24: Every status that the operator sends is well typed. Against a server that validates the phase, the joint state, the
  step and the roles of a status and stores only valid ones, a reconciliation behaves exactly as without validation: no
  update of any step, mode or error path is rejected.\<close>

theorem reconcile_well_typed:
  assumes "stores_valid K"
  shows "Reconcile (validating K) now req k = Reconcile K now req k"
proof (cases "ka_get_cluster K req k")
  case (Inr c)
  then have c: "valid_status (cl_Status c)"
    by (rule stores_validD(1) [OF assms])
  obtain r k1 where i: "init_status K c k = (r, k1)"
    by fastforce
  show ?thesis
  proof (cases r)
    case (Inr d)
    then have "valid_status (cl_Status d)"
      using init_keeps_valid [OF c assms] i by simp
    then show ?thesis
      using Inr i \<open>ka_get_cluster K req k = Inr c\<close> assms
      by (simp add: Reconcile_def validated c split: prod.split sum.split bool.split)
  qed (use Inr i in \<open>simp add: Reconcile_def validated c\<close>)
qed (simp add: Reconcile_def validated)

theorem reconcile_well_typed_witness:
  "\<exists>d. Reconcile (validating (sample_api (sample_cluster [] [] []))) 9 (''ns'', ''kv'') []
     = (after 5, None, [with_status (\<lambda>s. s\<lparr>cs_Phase := PhasePending, cs_JointState := JointStateNone,
          cs_ConfigurationIndex := 0\<rparr>) (sample_cluster [] [] []), d])
     \<and> cs_Phase (cl_Status d) = PhaseReconfiguring \<and> cs_CurrentReconfigStep (cl_Status d) = ReconfigStepAddLearner"
  unfolding reconcile_well_typed [OF sample_stores_valid [OF sample_status_valid]]
  by (simp add: Reconcile_def sample_api_def sample_cluster_def init_status_def reconcileService_def reconcileStatefulSet_def
      needsReconfiguration_def run_reconfiguration_def reconcileReconfiguration_def reconfigureSafe_def update_then_def Let_def
      with_status_def steps statefulset_spec_def always_api_def parseQuantity_def)

end
