(* ===== verification/DeepCopy.thy ===== *)
theory DeepCopy
  imports Controller
begin

text \<open>
  \<open>operator/api/v1/zz_generated.deepcopy.go\<close>: copies of the API objects. What matters here is sharing, so the objects are
  struct values that refer to memory by address, unlike the values of \<open>Controller\<close>: a slice is the address of its array
  (all slices span their arrays), a pointer to a time is an address, and nil is \<open>None\<close>. The contents of metadata and of
  times are copied by the Kubernetes libraries, the functions of \<open>k8s_copies\<close>; metadata and conditions, whose contents do
  not matter, are type parameters.
\<close>

section \<open>Objects in memory\<close>

record ApiMember =
  am_NodeID :: string
  am_Role :: string
  am_CaughtUp :: bool
  am_LastHeartbeat :: "nat option"

record ApiStatus =
  as_Phase :: string
  as_Leader :: string
  as_Members :: "nat option"
  as_JointState :: string
  as_LastReconfigAt :: "nat option"
  as_Conditions :: "nat option"
  as_CurrentReconfigStep :: string
  as_ConfigurationIndex :: u64

record 'o ApiCluster =
  ac_TypeMeta :: "string \<times> string"
  ac_ObjectMeta :: 'o
  ac_Spec :: RaftClusterSpec
  ac_Status :: ApiStatus

record 'l ApiClusterList =
  ai_TypeMeta :: "string \<times> string"
  ai_ListMeta :: 'l
  ai_Items :: "nat option"

record ('o, 'c) api_heap =
  hp_next :: nat
  hp_times :: "nat \<Rightarrow> int"
  hp_members :: "nat \<Rightarrow> ApiMember list"
  hp_conditions :: "nat \<Rightarrow> 'c list"
  hp_items :: "nat \<Rightarrow> 'o ApiCluster list"

definition new_time :: "int \<Rightarrow> ('o, 'c) api_heap \<Rightarrow> nat \<times> ('o, 'c) api_heap" where
  "new_time t h = (hp_next h, h\<lparr>hp_next := Suc (hp_next h), hp_times := (hp_times h)(hp_next h := t)\<rparr>)"

definition new_members :: "ApiMember list \<Rightarrow> ('o, 'c) api_heap \<Rightarrow> nat \<times> ('o, 'c) api_heap" where
  "new_members ms h = (hp_next h, h\<lparr>hp_next := Suc (hp_next h), hp_members := (hp_members h)(hp_next h := ms)\<rparr>)"

definition new_items :: "('o, 'c) api_heap \<Rightarrow> nat \<times> ('o, 'c) api_heap" where
  "new_items h = (hp_next h, h\<lparr>hp_next := Suc (hp_next h)\<rparr>)"

section \<open>The copies\<close>

text \<open>\<open>DeepCopyInto\<close> of \<open>metav1.ObjectMeta\<close> and \<open>metav1.ListMeta\<close>, and the value that \<open>DeepCopy\<close> of a \<open>metav1.Time\<close> puts in new memory.\<close>

record ('o, 'l) k8s_copies =
  k8_ObjectMeta :: "'o \<Rightarrow> 'o"
  k8_ListMeta :: "'l \<Rightarrow> 'l"
  k8_Time :: "int \<Rightarrow> int"

definition MemberStatus_DeepCopyInto :: "ApiMember \<Rightarrow> ApiMember" where
  "MemberStatus_DeepCopyInto x = x"

definition MemberStatus_DeepCopy :: "ApiMember option \<Rightarrow> ApiMember option" where
  "MemberStatus_DeepCopy x = map_option MemberStatus_DeepCopyInto x"

definition ReconfigPolicy_DeepCopyInto :: "ReconfigPolicy \<Rightarrow> ReconfigPolicy" where
  "ReconfigPolicy_DeepCopyInto x = x"

definition ReconfigPolicy_DeepCopy :: "ReconfigPolicy option \<Rightarrow> ReconfigPolicy option" where
  "ReconfigPolicy_DeepCopy x = map_option ReconfigPolicy_DeepCopyInto x"

definition RaftClusterSpec_DeepCopyInto :: "RaftClusterSpec \<Rightarrow> RaftClusterSpec" where
  "RaftClusterSpec_DeepCopyInto x = x"

definition RaftClusterSpec_DeepCopy :: "RaftClusterSpec option \<Rightarrow> RaftClusterSpec option" where
  "RaftClusterSpec_DeepCopy x = map_option RaftClusterSpec_DeepCopyInto x"

text \<open>The struct is copied, then \<open>Members\<close> gets an array of its own and \<open>LastReconfigAt\<close> a time of its own.\<close>

definition copy_members :: "ApiStatus \<Rightarrow> ApiStatus \<times> ('o, 'c) api_heap \<Rightarrow> ApiStatus \<times> ('o, 'c) api_heap" where
  "copy_members x oh =
     (case as_Members x of
        None \<Rightarrow> oh
      | Some a \<Rightarrow> (case new_members (hp_members (snd oh) a) (snd oh) of (b, h) \<Rightarrow> ((fst oh)\<lparr>as_Members := Some b\<rparr>, h)))"

definition copy_time :: "('o, 'l) k8s_copies \<Rightarrow> ApiStatus \<Rightarrow> ApiStatus \<times> ('o, 'c) api_heap \<Rightarrow> ApiStatus \<times> ('o, 'c) api_heap" where
  "copy_time k x oh =
     (case as_LastReconfigAt x of
        None \<Rightarrow> oh
      | Some a \<Rightarrow> (case new_time (k8_Time k (hp_times (snd oh) a)) (snd oh) of (b, h) \<Rightarrow> ((fst oh)\<lparr>as_LastReconfigAt := Some b\<rparr>, h)))"

definition RaftClusterStatus_DeepCopyInto :: "('o, 'l) k8s_copies \<Rightarrow> ApiStatus \<Rightarrow> ('o, 'c) api_heap \<Rightarrow> ApiStatus \<times> ('o, 'c) api_heap" where
  "RaftClusterStatus_DeepCopyInto k x h = copy_time k x (copy_members x (x, h))"

definition RaftClusterStatus_DeepCopy ::
    "('o, 'l) k8s_copies \<Rightarrow> ApiStatus option \<Rightarrow> ('o, 'c) api_heap \<Rightarrow> ApiStatus option \<times> ('o, 'c) api_heap" where
  "RaftClusterStatus_DeepCopy k x h =
     (case x of None \<Rightarrow> (None, h) | Some st \<Rightarrow> apfst Some (RaftClusterStatus_DeepCopyInto k st h))"

definition RaftCluster_DeepCopyInto ::
    "('o, 'l) k8s_copies \<Rightarrow> 'o ApiCluster \<Rightarrow> ('o, 'c) api_heap \<Rightarrow> 'o ApiCluster \<times> ('o, 'c) api_heap" where
  "RaftCluster_DeepCopyInto k c h =
     (case RaftClusterStatus_DeepCopyInto k (ac_Status c) h of
        (st, h) \<Rightarrow> (c\<lparr>ac_ObjectMeta := k8_ObjectMeta k (ac_ObjectMeta c), ac_Status := st\<rparr>, h))"

definition RaftCluster_DeepCopy ::
    "('o, 'l) k8s_copies \<Rightarrow> 'o ApiCluster option \<Rightarrow> ('o, 'c) api_heap \<Rightarrow> 'o ApiCluster option \<times> ('o, 'c) api_heap" where
  "RaftCluster_DeepCopy k c h =
     (case c of None \<Rightarrow> (None, h) | Some c \<Rightarrow> apfst Some (RaftCluster_DeepCopyInto k c h))"

text \<open>The loop over the items; the array that they are copied to has been made before.\<close>

fun copy_items ::
    "('o, 'l) k8s_copies \<Rightarrow> 'o ApiCluster list \<Rightarrow> ('o, 'c) api_heap \<Rightarrow> 'o ApiCluster list \<times> ('o, 'c) api_heap" where
  "copy_items k [] h = ([], h)"
| "copy_items k (c # cs) h =
     (case RaftCluster_DeepCopyInto k c h of (c, h) \<Rightarrow>
      case copy_items k cs h of (cs, h) \<Rightarrow> (c # cs, h))"

definition RaftClusterList_DeepCopyInto ::
    "('o, 'l) k8s_copies \<Rightarrow> 'l ApiClusterList \<Rightarrow> ('o, 'c) api_heap \<Rightarrow> 'l ApiClusterList \<times> ('o, 'c) api_heap" where
  "RaftClusterList_DeepCopyInto k l h =
     (let out = l\<lparr>ai_ListMeta := k8_ListMeta k (ai_ListMeta l)\<rparr> in
      case ai_Items l of
        None \<Rightarrow> (out, h)
      | Some a \<Rightarrow>
          (case new_items h of (b, h) \<Rightarrow>
           case copy_items k (hp_items h a) h of
             (cs, h) \<Rightarrow> (out\<lparr>ai_Items := Some b\<rparr>, h\<lparr>hp_items := (hp_items h)(b := cs)\<rparr>)))"

definition RaftClusterList_DeepCopy ::
    "('o, 'l) k8s_copies \<Rightarrow> 'l ApiClusterList option \<Rightarrow> ('o, 'c) api_heap
       \<Rightarrow> 'l ApiClusterList option \<times> ('o, 'c) api_heap" where
  "RaftClusterList_DeepCopy k l h =
     (case l of None \<Rightarrow> (None, h) | Some l \<Rightarrow> apfst Some (RaftClusterList_DeepCopyInto k l h))"

text \<open>\<open>runtime.Object\<close>: a nil pointer becomes a nil interface.\<close>

datatype ('o, 'l) api_object = ClusterObject "'o ApiCluster" | ListObject "'l ApiClusterList"

definition RaftCluster_DeepCopyObject ::
    "('o, 'l) k8s_copies \<Rightarrow> 'o ApiCluster option \<Rightarrow> ('o, 'c) api_heap \<Rightarrow> ('o, 'l) api_object option \<times> ('o, 'c) api_heap" where
  "RaftCluster_DeepCopyObject k c h = apfst (map_option ClusterObject) (RaftCluster_DeepCopy k c h)"

definition RaftClusterList_DeepCopyObject ::
    "('o, 'l) k8s_copies \<Rightarrow> 'l ApiClusterList option \<Rightarrow> ('o, 'c) api_heap
       \<Rightarrow> ('o, 'l) api_object option \<times> ('o, 'c) api_heap" where
  "RaftClusterList_DeepCopyObject k l h =
     apfst (map_option ListObject) (RaftClusterList_DeepCopy k l h)"

section \<open>Specification\<close>

text \<open>What a reader of an object sees: the values behind its addresses.\<close>

definition member_view :: "('o, 'c) api_heap \<Rightarrow> ApiMember \<Rightarrow> MemberStatus" where
  "member_view h m =
     \<lparr>mb_NodeID = am_NodeID m, mb_Role = am_Role m, mb_CaughtUp = am_CaughtUp m,
      mb_LastHeartbeat = map_option (hp_times h) (am_LastHeartbeat m)\<rparr>"

definition status_view :: "('o, 'c) api_heap \<Rightarrow> ApiStatus \<Rightarrow> RaftClusterStatus \<times> MemberStatus list option \<times> 'c list option" where
  "status_view h x =
     (let ms = map_option (\<lambda>a. map (member_view h) (hp_members h a)) (as_Members x) in
      (\<lparr>cs_Phase = as_Phase x, cs_Leader = as_Leader x, cs_Members = (case ms of None \<Rightarrow> [] | Some ms \<Rightarrow> ms),
        cs_JointState = as_JointState x, cs_LastReconfigAt = map_option (hp_times h) (as_LastReconfigAt x),
        cs_CurrentReconfigStep = as_CurrentReconfigStep x, cs_ConfigurationIndex = as_ConfigurationIndex x\<rparr>,
       ms, map_option (hp_conditions h) (as_Conditions x)))"

definition cluster_view ::
    "('o, 'c) api_heap \<Rightarrow> 'o ApiCluster
       \<Rightarrow> (string \<times> string) \<times> 'o \<times> RaftClusterSpec \<times> RaftClusterStatus \<times> MemberStatus list option \<times> 'c list option" where
  "cluster_view h c = (ac_TypeMeta c, ac_ObjectMeta c, ac_Spec c, status_view h (ac_Status c))"

definition list_view where
  "list_view h l = (ai_TypeMeta l, ai_ListMeta l, map_option (\<lambda>a. map (cluster_view h) (hp_items h a)) (ai_Items l))"

text \<open>The libraries copy what they are given.\<close>

definition faithful :: "('o, 'l) k8s_copies \<Rightarrow> bool" where
  "faithful k \<longleftrightarrow> k8_ObjectMeta k = id \<and> k8_ListMeta k = id \<and> k8_Time k = id"

text \<open>Every address in use has been given out.\<close>

definition heartbeat_ok :: "('o, 'c) api_heap \<Rightarrow> ApiMember \<Rightarrow> bool" where
  "heartbeat_ok h m \<longleftrightarrow> pred_option (\<lambda>a. a < hp_next h) (am_LastHeartbeat m)"

definition status_ok :: "('o, 'c) api_heap \<Rightarrow> ApiStatus \<Rightarrow> bool" where
  "status_ok h x \<longleftrightarrow>
     pred_option (\<lambda>a. a < hp_next h \<and> list_all (heartbeat_ok h) (hp_members h a)) (as_Members x)
     \<and> pred_option (\<lambda>a. a < hp_next h) (as_LastReconfigAt x) \<and> pred_option (\<lambda>a. a < hp_next h) (as_Conditions x)"

definition list_ok :: "('o, 'c) api_heap \<Rightarrow> 'l ApiClusterList \<Rightarrow> bool" where
  "list_ok h l \<longleftrightarrow>
     pred_option (\<lambda>a. a < hp_next h \<and> list_all (status_ok h \<circ> ac_Status) (hp_items h a)) (ai_Items l)"

text \<open>Memory that was in use has not changed.\<close>

definition extends :: "('o, 'c) api_heap \<Rightarrow> ('o, 'c) api_heap \<Rightarrow> bool" where
  "extends h h' \<longleftrightarrow>
     hp_next h \<le> hp_next h'
     \<and> (\<forall>a < hp_next h. hp_times h' a = hp_times h a \<and> hp_members h' a = hp_members h a \<and> hp_items h' a = hp_items h a)
     \<and> hp_conditions h' = hp_conditions h"

text \<open>The memory of a status that was made at address \<open>n\<close> or later.\<close>

definition fresh_status :: "nat \<Rightarrow> ApiStatus \<Rightarrow> bool" where
  "fresh_status n x \<longleftrightarrow> pred_option (\<lambda>a. n \<le> a) (as_Members x) \<and> pred_option (\<lambda>a. n \<le> a) (as_LastReconfigAt x)"

text \<open>A program that holds a copy writes through it: to the array of a slice or behind a pointer.\<close>

datatype 'c api_write = SetMembers nat "ApiMember list" | SetTime nat int | SetConditions nat "'c list"

fun do_write :: "'c api_write \<Rightarrow> ('o, 'c) api_heap \<Rightarrow> ('o, 'c) api_heap" where
  "do_write (SetMembers a ms) h = h\<lparr>hp_members := (hp_members h)(a := ms)\<rparr>"
| "do_write (SetTime a t) h = h\<lparr>hp_times := (hp_times h)(a := t)\<rparr>"
| "do_write (SetConditions a cs) h = h\<lparr>hp_conditions := (hp_conditions h)(a := cs)\<rparr>"

text \<open>The writes that reach only the \<open>Members\<close> array or the \<open>LastReconfigAt\<close> time of a status, or of some item of a list.\<close>

fun own_write :: "ApiStatus \<Rightarrow> 'c api_write \<Rightarrow> bool" where
  "own_write x (SetMembers a ms) \<longleftrightarrow> as_Members x = Some a"
| "own_write x (SetTime a t) \<longleftrightarrow> as_LastReconfigAt x = Some a"
| "own_write x (SetConditions a cs) \<longleftrightarrow> False"

definition own_list_write :: "('o, 'c) api_heap \<Rightarrow> 'l ApiClusterList \<Rightarrow> 'c api_write \<Rightarrow> bool" where
  "own_list_write h l w \<longleftrightarrow>
     (case ai_Items l of None \<Rightarrow> False | Some a \<Rightarrow> list_ex (\<lambda>c. own_write (ac_Status c) w) (hp_items h a))"

section \<open>Lemmas\<close>

lemma extends_refl [simp]: "extends h h"
  by (simp add: extends_def)

lemma extends_trans: "extends h g \<Longrightarrow> extends g k \<Longrightarrow> extends h k"
  by (auto simp: extends_def)

lemma member_view_extends: "extends h h' \<Longrightarrow> heartbeat_ok h m \<Longrightarrow> member_view h' m = member_view h m \<and> heartbeat_ok h' m"
  by (cases "am_LastHeartbeat m") (auto simp: extends_def heartbeat_ok_def member_view_def)

lemma members_view_extends:
  assumes "extends h h'" and "list_all (heartbeat_ok h) ms"
  shows "map (member_view h') ms = map (member_view h) ms" and "list_all (heartbeat_ok h') ms"
  using assms member_view_extends [OF assms(1)] by (auto simp: list_all_iff)

lemma status_view_extends:
  assumes e: "extends h h'" and ok: "status_ok h x"
  shows "status_view h' x = status_view h x" and "status_ok h' x"
proof -
  have ms: "hp_members h' a = hp_members h a" "map (member_view h') (hp_members h a) = map (member_view h) (hp_members h a)"
    "list_all (heartbeat_ok h') (hp_members h a)" "a < hp_next h'" if "as_Members x = Some a" for a
    using that ok e members_view_extends [OF e, of "hp_members h a"] by (auto simp: status_ok_def extends_def)
  have t: "hp_times h' a = hp_times h a" "a < hp_next h'" if "as_LastReconfigAt x = Some a" for a
    using that ok e by (auto simp: status_ok_def extends_def)
  show "status_view h' x = status_view h x"
    using ms t e by (cases "as_Members x"; cases "as_LastReconfigAt x") (auto simp: status_view_def Let_def extends_def)
  show "status_ok h' x"
    using ms t e ok by (cases "as_Members x"; cases "as_LastReconfigAt x"; cases "as_Conditions x")
      (auto simp: status_ok_def extends_def)
qed

text \<open>The copy of a status: fresh memory for members and time, the values and the conditions of the original.\<close>

lemma copy_members_ok:
  assumes ok: "status_ok h x" and c: "copy_members x (x, h) = (y, g)"
  shows "extends h g" and "status_ok g y" and "status_view g y = status_view h x"
    and "as_Conditions y = as_Conditions x" and "as_LastReconfigAt y = as_LastReconfigAt x"
    and "pred_option (\<lambda>a. hp_next h \<le> a \<and> a < hp_next g) (as_Members y)"
proof -
  have e: "extends h g"
    using c by (auto simp: copy_members_def new_members_def extends_def split: option.splits)
  show "extends h g"
    by (fact e)
  note ext = status_view_extends [OF e ok]
  have y: "as_Members x = None \<Longrightarrow> y = x"
    "as_Members x = Some a \<Longrightarrow> y = x\<lparr>as_Members := Some (hp_next h)\<rparr> \<and> hp_members g (hp_next h) = hp_members g a" for a
    using c ok by (auto simp: copy_members_def new_members_def status_ok_def)
  show "status_view g y = status_view h x" "as_Conditions y = as_Conditions x" "as_LastReconfigAt y = as_LastReconfigAt x"
    using y ext(1) by (cases "as_Members x"; auto simp: status_view_def Let_def)+
  have n: "as_Members x = Some a \<Longrightarrow> hp_next h < hp_next g" for a
    using c by (auto simp: copy_members_def new_members_def)
  then show "status_ok g y" "pred_option (\<lambda>a. hp_next h \<le> a \<and> a < hp_next g) (as_Members y)"
    using y ext(2) by (cases "as_Members x"; auto simp: status_ok_def)+
qed

lemma copy_time_ok:
  assumes k: "faithful k" and ok: "status_ok h x" and c: "copy_time k x (y, h) = (z, g)"
    and y: "status_ok h y" "as_LastReconfigAt y = as_LastReconfigAt x"
  shows "extends h g" and "status_ok g z" and "status_view g z = status_view h y"
    and "as_Conditions z = as_Conditions y" and "as_Members z = as_Members y"
    and "pred_option (\<lambda>a. hp_next h \<le> a) (as_LastReconfigAt z)"
proof -
  have e: "extends h g"
    using c by (auto simp: copy_time_def new_time_def extends_def split: option.splits)
  show "extends h g"
    by (fact e)
  note ext = status_view_extends [OF e y(1)]
  have z: "as_LastReconfigAt x = None \<Longrightarrow> z = y"
    "as_LastReconfigAt x = Some a \<Longrightarrow> z = y\<lparr>as_LastReconfigAt := Some (hp_next h)\<rparr> \<and> hp_next h < hp_next g
       \<and> hp_times g (hp_next h) = hp_times g a" for a
    using c k ok by (auto simp: copy_time_def new_time_def status_ok_def faithful_def)
  show "status_view g z = status_view h y" "as_Conditions z = as_Conditions y" "as_Members z = as_Members y"
    using z ext(1) y(2) by (cases "as_LastReconfigAt x"; auto simp: status_view_def Let_def)+
  show "status_ok g z" "pred_option (\<lambda>a. hp_next h \<le> a) (as_LastReconfigAt z)"
    using z ext(2) y(2) by (cases "as_LastReconfigAt x"; auto simp: status_ok_def)+
qed

lemma status_copy:
  assumes k: "faithful k" and ok: "status_ok h x" and c: "RaftClusterStatus_DeepCopyInto k x h = (x', h')"
  shows "extends h h'" and "status_ok h' x'" and "status_view h' x' = status_view h x"
    and "as_Conditions x' = as_Conditions x"
    and "pred_option (\<lambda>a. hp_next h \<le> a) (as_Members x')" and "pred_option (\<lambda>a. hp_next h \<le> a) (as_LastReconfigAt x')"
proof -
  obtain y g where m: "copy_members x (x, h) = (y, g)"
    by fastforce
  note 1 = copy_members_ok [OF ok m]
  have okg: "status_ok g x"
    by (rule status_view_extends [OF 1(1) ok])
  have t: "copy_time k x (y, g) = (x', h')"
    using c m by (simp add: RaftClusterStatus_DeepCopyInto_def)
  note 2 = copy_time_ok [OF k okg t 1(2,5)]
  show "extends h h'"
    using 1(1) 2(1) by (rule extends_trans)
  show "status_ok h' x'" "status_view h' x' = status_view h x" "as_Conditions x' = as_Conditions x"
    using 1 2 by auto
  show "pred_option (\<lambda>a. hp_next h \<le> a) (as_Members x')"
    using 1(6) 2(5) by (auto simp: pred_option_def)
  have "hp_next h \<le> hp_next g"
    using 1(1) by (simp add: extends_def)
  then show "pred_option (\<lambda>a. hp_next h \<le> a) (as_LastReconfigAt x')"
    using 2(6) by (cases "as_LastReconfigAt x'") auto
qed

lemma cluster_view_extends:
  assumes "extends h h'" and "list_all (status_ok h \<circ> ac_Status) cs"
  shows "map (cluster_view h') cs = map (cluster_view h) cs" and "list_all (status_ok h' \<circ> ac_Status) cs"
  using assms status_view_extends [OF assms(1)] by (auto simp: list_all_iff cluster_view_def)

lemma list_view_extends: "extends h h' \<Longrightarrow> list_ok h l \<Longrightarrow> list_view h' l = list_view h l"
  using cluster_view_extends [of h h'] by (cases "ai_Items l") (auto simp: list_ok_def list_view_def extends_def)

lemma own_write_mono: "m \<le> n \<Longrightarrow> pred_option (\<lambda>a. n \<le> a) x \<Longrightarrow> pred_option (\<lambda>a. m \<le> a) (x :: nat option)"
  by (cases x) auto

lemma fresh_status_mono: "m \<le> n \<Longrightarrow> fresh_status n x \<Longrightarrow> fresh_status m x"
  by (auto simp: fresh_status_def intro: own_write_mono)

lemma fresh_write_extends: "extends h g \<Longrightarrow> fresh_status (hp_next h) x \<Longrightarrow> own_write x w \<Longrightarrow> extends h (do_write w g)"
  by (cases w) (auto simp: extends_def fresh_status_def)

lemma cluster_copy:
  assumes k: "faithful k" and ok: "status_ok h (ac_Status c)" and c: "RaftCluster_DeepCopyInto k c h = (c', h')"
  shows "extends h h'" and "status_ok h' (ac_Status c')" and "cluster_view h' c' = cluster_view h c"
    and "fresh_status (hp_next h) (ac_Status c')"
proof -
  obtain st g where st: "RaftClusterStatus_DeepCopyInto k (ac_Status c) h = (st, g)"
    by fastforce
  have c': "c' = c\<lparr>ac_Status := st\<rparr>" and h': "h' = g"
    using c st k by (simp_all add: RaftCluster_DeepCopyInto_def faithful_def)
  note 1 = status_copy [OF k ok st]
  show "extends h h'" "status_ok h' (ac_Status c')" "cluster_view h' c' = cluster_view h c"
    "fresh_status (hp_next h) (ac_Status c')"
    using 1 by (simp_all add: c' h' cluster_view_def fresh_status_def)
qed

lemma items_copy:
  assumes "faithful k" and "copy_items k cs h = (cs', h')" and "list_all (status_ok h \<circ> ac_Status) cs"
  shows "extends h h' \<and> map (cluster_view h') cs' = map (cluster_view h) cs
    \<and> list_all (status_ok h' \<circ> ac_Status) cs' \<and> list_all (fresh_status (hp_next h) \<circ> ac_Status) cs'"
  using assms(2,3)
proof (induction cs arbitrary: h cs' h')
  case (Cons c cs)
  obtain d g where d: "RaftCluster_DeepCopyInto k c h = (d, g)"
    by fastforce
  obtain ds where ds: "copy_items k cs g = (ds, h')" and cs': "cs' = d # ds"
    using Cons.prems d by (auto split: prod.splits)
  have okc: "status_ok h (ac_Status c)" and okcs: "list_all (status_ok h \<circ> ac_Status) cs"
    using Cons.prems(2) by (simp_all add: comp_def)
  note 1 = cluster_copy [OF assms(1) okc d] and 2 = cluster_view_extends [OF cluster_copy(1) [OF assms(1) okc d] okcs]
  note IH = Cons.IH [OF ds 2(2)]
  have "hp_next h \<le> hp_next g"
    using 1(1) by (simp add: extends_def)
  then have "list_all (fresh_status (hp_next h) \<circ> ac_Status) ds"
    using IH by (auto simp: list_all_iff intro: fresh_status_mono)
  moreover have "cluster_view h' d = cluster_view g d" "status_ok h' (ac_Status d)"
    using cluster_view_extends [of g h' "[d]"] IH 1(2) by auto
  moreover have "extends h h'"
    using 1(1) IH by (blast intro: extends_trans)
  ultimately show ?case
    using 1 2(1) IH by (simp add: cs' comp_def)
qed simp

lemma list_copy:
  assumes k: "faithful k" and ok: "list_ok h l" and c: "RaftClusterList_DeepCopyInto k l h = (l', h')"
  shows "extends h h'" and "list_view h' l' = list_view h l"
    and "\<And>a. ai_Items l' = Some a \<Longrightarrow> hp_next h \<le> a \<and> list_all (fresh_status (hp_next h) \<circ> ac_Status) (hp_items h' a)"
proof -
  have "extends h h' \<and> list_view h' l' = list_view h l
    \<and> (\<forall>a. ai_Items l' = Some a \<longrightarrow> hp_next h \<le> a \<and> list_all (fresh_status (hp_next h) \<circ> ac_Status) (hp_items h' a))"
  proof (cases "ai_Items l")
    case None
    then show ?thesis
      using c k by (auto simp: RaftClusterList_DeepCopyInto_def faithful_def list_view_def Let_def)
  next
    case (Some a)
    define g where "g = h\<lparr>hp_next := Suc (hp_next h)\<rparr>"
    obtain cs g' where cs: "copy_items k (hp_items h a) g = (cs, g')"
      by fastforce
    have l': "l' = l\<lparr>ai_Items := Some (hp_next h)\<rparr>" and h': "h' = g'\<lparr>hp_items := (hp_items g')(hp_next h := cs)\<rparr>"
      using c k cs Some by (auto simp: RaftClusterList_DeepCopyInto_def faithful_def new_items_def g_def Let_def)
    have hg: "extends h g"
      by (simp add: extends_def g_def)
    have okh: "list_all (status_ok h \<circ> ac_Status) (hp_items h a)"
      using ok Some by (simp add: list_ok_def)
    note g = cluster_view_extends [OF hg okh]
    note it = items_copy [OF k cs g(2)]
    have "list_all (fresh_status (hp_next h) \<circ> ac_Status) cs"
      using it by (auto simp: list_all_iff g_def intro: fresh_status_mono [of _ "Suc (hp_next h)"])
    moreover have "extends h h'"
      using it hg by (auto simp: extends_def h' g_def)
    moreover have "cluster_view h' = cluster_view g'"
      by (simp add: fun_eq_iff cluster_view_def status_view_def member_view_def [abs_def] h')
    ultimately show ?thesis
      using it g(1) Some by (simp add: l' h' list_view_def)
  qed
  then show "extends h h'" "list_view h' l' = list_view h l"
    "\<And>a. ai_Items l' = Some a \<Longrightarrow> hp_next h \<le> a \<and> list_all (fresh_status (hp_next h) \<circ> ac_Status) (hp_items h' a)"
    by auto
qed

lemma own_list_write_extends:
  assumes "extends h g" and "\<And>a. ai_Items l = Some a \<Longrightarrow> list_all (fresh_status (hp_next h) \<circ> ac_Status) (hp_items g a)"
    and "own_list_write g l w"
  shows "extends h (do_write w g)"
  using assms by (auto simp: own_list_write_def list_all_iff list_ex_iff intro: fresh_write_extends split: option.splits)

lemma hp_items_do_write [simp]: "hp_items (do_write w h) = hp_items h"
  by (cases w) auto

lemma own_list_writes_extend:
  assumes "extends h g" and "\<And>a. ai_Items l = Some a \<Longrightarrow> list_all (fresh_status (hp_next h) \<circ> ac_Status) (hp_items g a)"
    and "list_all (own_list_write g l) ws"
  shows "extends h (fold do_write ws g)"
  using assms
proof (induction ws arbitrary: g)
  case (Cons w ws)
  have "own_list_write (do_write w g) l = own_list_write g l"
    by (cases "ai_Items l") (simp_all add: own_list_write_def fun_eq_iff)
  moreover have "extends h (do_write w g)"
    using Cons.prems by (intro own_list_write_extends [of h g l w]) (simp_all add: comp_def)
  ultimately show ?case
    using Cons.IH [of "do_write w g"] Cons.prems by simp
qed simp

lemma status_copy_members:
  assumes "RaftClusterStatus_DeepCopyInto k x h = (x', h')" and "as_Members x' = Some b" and "status_ok h x"
  shows "\<exists>a. as_Members x = Some a \<and> hp_members h' b = hp_members h a \<and> hp_members h' a = hp_members h a"
  using assms
  by (cases "as_Members x"; cases "as_LastReconfigAt x")
    (auto simp: RaftClusterStatus_DeepCopyInto_def copy_members_def copy_time_def new_members_def new_time_def status_ok_def)

lemma status_copy_conditions:
  "RaftClusterStatus_DeepCopyInto k x h = (x', h') \<Longrightarrow> as_Conditions x' = as_Conditions x"
  by (cases "as_Members x"; cases "as_LastReconfigAt x")
    (auto simp: RaftClusterStatus_DeepCopyInto_def copy_members_def copy_time_def new_members_def new_time_def)

section \<open>Samples\<close>

definition sample_k8s :: "(string, string) k8s_copies" where
  "sample_k8s = \<lparr>k8_ObjectMeta = id, k8_ListMeta = id, k8_Time = id\<rparr>"

definition sample_api_status :: ApiStatus where
  "sample_api_status =
     \<lparr>as_Phase = ''Ready'', as_Leader = ''kv-0'', as_Members = Some 0, as_JointState = ''none'', as_LastReconfigAt = Some 1,
      as_Conditions = Some 2, as_CurrentReconfigStep = [], as_ConfigurationIndex = 0\<rparr>"

definition sample_api_cluster :: "string ApiCluster" where
  "sample_api_cluster =
     \<lparr>ac_TypeMeta = (''RaftCluster'', ''storage.sys/v1''), ac_ObjectMeta = ''kv'',
      ac_Spec = \<lparr>sc_Replicas = 3, sc_Image = ''kv:1'', sc_StorageSize = ''1Gi'', sc_SnapshotInterval = ''30s'',
        sc_ElectionTimeoutMs = 300, sc_SafetyMode = ''safe'',
        sc_ReconfigPolicy = \<lparr>rp_RateLimit = ''1/min'', rp_MaxParallel = 1, rp_CooldownSeconds = 60\<rparr>\<rparr>,
      ac_Status = sample_api_status\<rparr>"

definition sample_api_list :: "string ApiClusterList" where
  "sample_api_list = \<lparr>ai_TypeMeta = (''RaftClusterList'', ''storage.sys/v1''), ai_ListMeta = ''7'', ai_Items = Some 3\<rparr>"

definition sample_heap :: "(string, string) api_heap" where
  "sample_heap =
     \<lparr>hp_next = 5, hp_times = (\<lambda>a. int a * 100),
      hp_members = (\<lambda>a. if a = 0 then [\<lparr>am_NodeID = ''kv-0'', am_Role = ''voter'', am_CaughtUp = True, am_LastHeartbeat = Some 4\<rparr>] else []),
      hp_conditions = (\<lambda>a. if a = 2 then [''Available''] else []),
      hp_items = (\<lambda>a. if a = 3 then [sample_api_cluster] else [])\<rparr>"

lemmas sample_api_defs = sample_k8s_def sample_api_status_def sample_api_cluster_def sample_api_list_def sample_heap_def

lemma sample_faithful: "faithful sample_k8s"
  by (simp add: faithful_def sample_k8s_def)

lemma sample_list_ok: "list_ok sample_heap sample_api_list"
  by (simp add: list_ok_def status_ok_def heartbeat_ok_def sample_api_defs)

lemma sample_status_ok: "status_ok sample_heap sample_api_status"
  by (simp add: status_ok_def heartbeat_ok_def sample_api_defs)

section \<open>Properties\<close>

text \<open>C26: A deep copy of a list of clusters reads the same as the list did: type and list metadata, and for every item
  its metadata, its spec and its status with members, times and conditions, nil slices and pointers staying nil. Making
  the copy changes nothing that the original reads.\<close>

theorem deep_copy_equal:
  assumes "faithful k" and "list_ok h l" and "RaftClusterList_DeepCopyInto k l h = (l', h')"
  shows "list_view h' l' = list_view h l \<and> list_view h' l = list_view h l"
  using list_copy [OF assms] list_view_extends [OF _ assms(2)] by blast

theorem deep_copy_equal_witness:
  "list_view (snd (RaftClusterList_DeepCopyInto sample_k8s sample_api_list sample_heap))
     (fst (RaftClusterList_DeepCopyInto sample_k8s sample_api_list sample_heap)) = list_view sample_heap sample_api_list"
  using deep_copy_equal [OF sample_faithful sample_list_ok prod.collapse [symmetric]] by blast

text \<open>C27: What the copies do separate: after any sequence of writes through the copy of a list to the \<open>Members\<close> arrays
  and \<open>LastReconfigAt\<close> times of its items, the original reads as before.\<close>

theorem deep_copy_separate:
  assumes "faithful k" and "list_ok h l" and "RaftClusterList_DeepCopyInto k l h = (l', h')"
    and "list_all (own_list_write h' l') ws"
  shows "list_view (fold do_write ws h') l = list_view h l"
  using list_copy [OF assms(1-3)] own_list_writes_extend [OF _ _ assms(4)] list_view_extends [OF _ assms(2)] by blast

theorem deep_copy_separate_witness:
  "list_view (fold do_write [SetMembers 6 [], SetTime 7 0]
     (snd (RaftClusterList_DeepCopyInto sample_k8s sample_api_list sample_heap))) sample_api_list
   = list_view sample_heap sample_api_list"
  using deep_copy_separate [OF sample_faithful sample_list_ok prod.collapse [symmetric], of "[SetMembers 6 [], SetTime 7 0]"]
  by (simp add: own_list_write_def RaftClusterList_DeepCopyInto_def RaftCluster_DeepCopyInto_def
      RaftClusterStatus_DeepCopyInto_def copy_members_def copy_time_def new_items_def new_members_def new_time_def
      sample_api_defs)

text \<open>What they do not separate: the copy of a status has the \<open>Conditions\<close> array of the original, and its members
  have the \<open>LastHeartbeat\<close> times of the original's members. A write to either through the copy is read in the original.\<close>

theorem deep_copy_shares:
  assumes "status_ok h x" and "RaftClusterStatus_DeepCopyInto k x h = (x', h')"
  shows "(\<forall>a cs. as_Conditions x' = Some a
      \<longrightarrow> snd (snd (status_view (do_write (SetConditions a cs) h') x)) = Some cs)
    \<and> (\<forall>b i t v. as_Members x' = Some b \<and> i < length (hp_members h' b) \<and> am_LastHeartbeat (hp_members h' b ! i) = Some t
      \<longrightarrow> mb_LastHeartbeat (cs_Members (fst (status_view (do_write (SetTime t v) h') x)) ! i) = Some v)"
  using status_copy_conditions [OF assms(2)] status_copy_members [OF assms(2) _ assms(1)]
  by (auto simp: status_view_def Let_def member_view_def)

theorem deep_copy_shares_witness:
  "snd (snd (status_view (do_write (SetConditions 2 [''Lost''])
       (snd (RaftClusterStatus_DeepCopyInto sample_k8s sample_api_status sample_heap))) sample_api_status)) = Some [''Lost'']
   \<and> mb_LastHeartbeat (cs_Members (fst (status_view (do_write (SetTime 4 9)
       (snd (RaftClusterStatus_DeepCopyInto sample_k8s sample_api_status sample_heap))) sample_api_status)) ! 0) = Some 9"
proof -
  have c: "as_Conditions (fst (RaftClusterStatus_DeepCopyInto sample_k8s sample_api_status sample_heap)) = Some 2"
    "as_Members (fst (RaftClusterStatus_DeepCopyInto sample_k8s sample_api_status sample_heap)) = Some 5"
    "length (hp_members (snd (RaftClusterStatus_DeepCopyInto sample_k8s sample_api_status sample_heap)) 5) = 1"
    "am_LastHeartbeat (hp_members (snd (RaftClusterStatus_DeepCopyInto sample_k8s sample_api_status sample_heap)) 5 ! 0) = Some 4"
    by (simp_all add: RaftClusterStatus_DeepCopyInto_def copy_members_def copy_time_def new_members_def new_time_def sample_api_defs)
  show ?thesis
    using deep_copy_shares [OF sample_status_ok prod.collapse [symmetric], of sample_k8s] c by simp
qed

end
