(* ===== verification/OperatorMain.thy ===== *)
theory OperatorMain
  imports Go_Flag
begin

text \<open>
  \<open>operator/cmd/operator/main.go\<close>: the operator's process, with the registration of the API types
  (\<open>operator/api/v1/groupversion_info.go\<close>, the \<open>init\<close> of \<open>raftcluster_types.go\<close>) and \<open>SetupWithManager\<close> of the reconciler.
  The controller manager and the other calls into \<open>controller-runtime\<close> are the functions of \<open>ctrl_lib\<close>, over its scheme
  \<open>'s\<close> and its manager \<open>'m\<close>; the flags that its packages add to the command line are a set of flags over \<open>'z\<close>. The process
  ends with an exit code.
\<close>

section \<open>The types\<close>

record GroupVersion =
  gv_Group :: string
  gv_Version :: string

definition api_GroupVersion :: GroupVersion where
  "api_GroupVersion = \<lparr>gv_Group = ''storage.sys'', gv_Version = ''v1''\<rparr>"

text \<open>The kinds that \<open>init\<close> registers with the scheme builder.\<close>

definition api_kinds :: "string list" where
  "api_kinds = [''RaftCluster'', ''RaftClusterList'']"

section \<open>The controller manager\<close>

record 's mgr_options =
  mo_Scheme :: 's
  mo_Metrics :: string
  mo_Probe :: string
  mo_LeaderElection :: bool
  mo_LeaderElectionID :: string

record controller =
  ct_For :: string
  ct_Owns :: "string list"

record ('s, 'm) ctrl_lib =
  cb_NewScheme :: 's
  cb_AddCoreTypes :: "'s \<Rightarrow> 's res"
  cb_AddTypes :: "GroupVersion \<Rightarrow> string list \<Rightarrow> 's \<Rightarrow> 's res"
  cb_GetConfig :: "unit res"
  cb_NewManager :: "'s mgr_options \<Rightarrow> 'm res"
  cb_Complete :: "controller \<Rightarrow> 'm \<Rightarrow> unit res \<times> 'm"
  cb_AddHealthzCheck :: "string \<Rightarrow> 'm \<Rightarrow> unit res \<times> 'm"
  cb_AddReadyzCheck :: "string \<Rightarrow> 'm \<Rightarrow> unit res \<times> 'm"
  cb_Start :: "'m \<Rightarrow> unit res \<times> 'm"

definition SetupWithManager :: "('s, 'm) ctrl_lib \<Rightarrow> 'm \<Rightarrow> unit res \<times> 'm" where
  "SetupWithManager K mgr = cb_Complete K \<lparr>ct_For = ''RaftCluster'', ct_Owns = [''StatefulSet'', ''Service'']\<rparr> mgr"

section \<open>The command line\<close>

record 'z op_flags =
  of_metrics :: string
  of_probe :: string
  of_leader_elect :: bool
  of_lib :: 'z

definition op_default_flags :: "'z \<Rightarrow> 'z op_flags" where
  "op_default_flags z = \<lparr>of_metrics = '':8080'', of_probe = '':8081'', of_leader_elect = False, of_lib = z\<rparr>"

definition op_set_flag :: "'z flag_set \<Rightarrow> string \<Rightarrow> string \<Rightarrow> 'z op_flags \<Rightarrow> 'z op_flags option" where
  "op_set_flag Z name v f =
     (if name = ''metrics-bind-address'' then Some (f\<lparr>of_metrics := v\<rparr>)
      else if name = ''health-probe-bind-address'' then Some (f\<lparr>of_probe := v\<rparr>)
      else if name = ''leader-elect'' then map_option (\<lambda>b. f\<lparr>of_leader_elect := b\<rparr>) (ParseBool v)
      else map_option (\<lambda>z. f\<lparr>of_lib := z\<rparr>) (fg_set Z name v (of_lib f)))"

definition op_flag_set :: "'z flag_set \<Rightarrow> 'z op_flags flag_set" where
  "op_flag_set Z =
     \<lparr>fg_bool = (\<lambda>name.
        if name = ''metrics-bind-address'' \<or> name = ''health-probe-bind-address'' then Some False
        else if name = ''leader-elect'' then Some True
        else fg_bool Z name),
      fg_set = op_set_flag Z\<rparr>"

section \<open>The process\<close>

text \<open>\<open>init\<close>: \<open>Must\<close> panics on an error.\<close>

definition op_init :: "('s, 'm) ctrl_lib \<Rightarrow> 's option" where
  "op_init K =
     (case cb_AddCoreTypes K (cb_NewScheme K) of
        Inl _ \<Rightarrow> None
      | Inr sch \<Rightarrow> (case cb_AddTypes K api_GroupVersion api_kinds sch of Inl _ \<Rightarrow> None | Inr sch \<Rightarrow> Some sch))"

definition op_options :: "'s \<Rightarrow> 'z op_flags \<Rightarrow> 's mgr_options" where
  "op_options sch f =
     \<lparr>mo_Scheme = sch, mo_Metrics = of_metrics f, mo_Probe = of_probe f, mo_LeaderElection = of_leader_elect f,
      mo_LeaderElectionID = ''raft-operator.storage.sys''\<rparr>"

text \<open>The manager is set up call by call; the first error exits. The result is the exit code with the manager, if there is one.\<close>

definition op_run :: "('s, 'm) ctrl_lib \<Rightarrow> 'm \<Rightarrow> nat \<times> 'm" where
  "op_run K mgr =
     (case SetupWithManager K mgr of
        (Inl _, mgr) \<Rightarrow> (1, mgr)
      | (Inr _, mgr) \<Rightarrow>
          (case cb_AddHealthzCheck K ''healthz'' mgr of
             (Inl _, mgr) \<Rightarrow> (1, mgr)
           | (Inr _, mgr) \<Rightarrow>
               (case cb_AddReadyzCheck K ''readyz'' mgr of
                  (Inl _, mgr) \<Rightarrow> (1, mgr)
                | (Inr _, mgr) \<Rightarrow>
                    (case cb_Start K mgr of
                       (Inl _, mgr) \<Rightarrow> (1, mgr)
                     | (Inr _, mgr) \<Rightarrow> (0, mgr)))))"

definition op_main :: "('s, 'm) ctrl_lib \<Rightarrow> 'z flag_set \<Rightarrow> 'z \<Rightarrow> string list \<Rightarrow> nat \<times> 'm option" where
  "op_main K Z z args =
     (case op_init K of
        None \<Rightarrow> (2, None)
      | Some sch \<Rightarrow>
          (case flag_parse (op_flag_set Z) args (op_default_flags z) of
             Inl code \<Rightarrow> (code, None)
           | Inr f \<Rightarrow>
               (case cb_GetConfig K of
                  Inl _ \<Rightarrow> (1, None)
                | Inr _ \<Rightarrow>
                    (case cb_NewManager K (op_options sch f) of
                       Inl _ \<Rightarrow> (1, None)
                     | Inr mgr \<Rightarrow> (case op_run K mgr of (code, mgr) \<Rightarrow> (code, Some mgr))))))"

section \<open>Specification\<close>

text \<open>
  A manager that keeps a log of the calls made on it, each of which fails or succeeds as \<open>ok\<close> says; the scheme is the
  list of the kinds known to it.
\<close>

datatype mgr_call =
    Created "string list mgr_options"
  | Completed controller
  | Healthz string
  | Readyz string
  | Started

definition logged :: "(mgr_call \<Rightarrow> bool) \<Rightarrow> mgr_call \<Rightarrow> mgr_call list \<Rightarrow> unit res \<times> mgr_call list" where
  "logged ok c cs = (if ok c then Inr () else Inl (ErrLib 0), cs @ [c])"

definition logging_lib :: "(mgr_call \<Rightarrow> bool) \<Rightarrow> (string list, mgr_call list) ctrl_lib" where
  "logging_lib ok =
     \<lparr>cb_NewScheme = [], cb_AddCoreTypes = (\<lambda>sch. Inr (sch @ [''StatefulSet'', ''Service''])),
      cb_AddTypes = (\<lambda>gv kinds sch. Inr (sch @ kinds)), cb_GetConfig = Inr (),
      cb_NewManager = (\<lambda>opts. if ok (Created opts) then Inr [Created opts] else Inl (ErrLib 0)),
      cb_Complete = (\<lambda>c. logged ok (Completed c)), cb_AddHealthzCheck = (\<lambda>n. logged ok (Healthz n)),
      cb_AddReadyzCheck = (\<lambda>n. logged ok (Readyz n)), cb_Start = logged ok Started\<rparr>"

text \<open>All the calls of a start that nothing stops, and the calls up to the first that fails.\<close>

definition startup_calls :: "'z op_flags \<Rightarrow> mgr_call list" where
  "startup_calls f =
     [Created (op_options [''StatefulSet'', ''Service'', ''RaftCluster'', ''RaftClusterList''] f),
      Completed \<lparr>ct_For = ''RaftCluster'', ct_Owns = [''StatefulSet'', ''Service'']\<rparr>, Healthz ''healthz'', Readyz ''readyz'', Started]"

fun until_failure :: "('a \<Rightarrow> bool) \<Rightarrow> 'a list \<Rightarrow> 'a list" where
  "until_failure ok [] = []"
| "until_failure ok (c # cs) = c # (if ok c then until_failure ok cs else [])"

definition no_flags :: "unit flag_set" where
  "no_flags = \<lparr>fg_bool = (\<lambda>_. None), fg_set = (\<lambda>_ _ _. None)\<rparr>"

section \<open>Lemmas\<close>

lemma op_main_logging:
  assumes "flag_parse (op_flag_set Z) args (op_default_flags z) = Inr f"
  shows "op_main (logging_lib ok) Z z args =
    (if list_all ok (startup_calls f) then 0 else 1,
     if ok (hd (startup_calls f)) then Some (until_failure ok (startup_calls f)) else None)"
  using assms
  by (simp add: op_main_def op_init_def op_run_def logging_lib_def startup_calls_def logged_def SetupWithManager_def api_kinds_def)

lemma deployed_flags:
  "flag_parse (op_flag_set Z) [''--leader-elect''] (op_default_flags z) = Inr ((op_default_flags z)\<lparr>of_leader_elect := True\<rparr>)"
  by (simp add: flag_text_def split_flag_def op_flag_set_def op_set_flag_def ParseBool_def)

section \<open>Property\<close>



end
