(* ===== verification/Porcupine.thy ===== *)
theory Porcupine
  imports KVStore
begin

text \<open>
  \<open>test/correctness/porcupine/model.go\<close> and \<open>checker.go\<close>: the sequential model that the linearizability checker runs,
  and the conversion of a recorded history into its events. The search itself is the library's.
\<close>

section \<open>The model\<close>

record KVInput =
  in_Op :: string
  in_Key :: string
  in_Value :: string

record KVOutput =
  ou_Value :: string
  ou_Ok :: bool

definition KVModel_Init :: "(string, string) gomap" where
  "KVModel_Init = []"

text \<open>The state is copied key by key before it is changed; a rejected step returns the old state.\<close>

definition KVModel_Step ::
    "(string, string) gomap \<Rightarrow> KVInput \<Rightarrow> KVOutput \<Rightarrow> bool \<times> (string, string) gomap" where
  "KVModel_Step st inp out =
     (let newState = foldl (\<lambda>acc e. AList.update (fst e) (snd e) acc) [] st in
      if in_Op inp = ''get'' then
        (case map_of st (in_Key inp) of
           Some val \<Rightarrow> if ou_Ok out \<and> ou_Value out = val then (True, newState) else (False, st)
         | None \<Rightarrow> if \<not> ou_Ok out then (True, newState) else (False, st))
      else if in_Op inp = ''put'' then
        (if ou_Ok out then (True, AList.update (in_Key inp) (in_Value inp) newState) else (False, st))
      else if in_Op inp = ''delete'' then
        (if ou_Ok out then (True, AList.delete (in_Key inp) newState) else (False, st))
      else (False, st))"

definition DescribeOperation :: "KVInput \<Rightarrow> KVOutput \<Rightarrow> string" where
  "DescribeOperation inp out =
     (if in_Op inp = ''get'' then
        (if ou_Ok out then ''get('' @ in_Key inp @ '') -> '' @ ou_Value out else ''get('' @ in_Key inp @ '') -> not found'')
      else if in_Op inp = ''put'' then ''put('' @ in_Key inp @ '', '' @ in_Value inp @ '') -> ok''
      else if in_Op inp = ''delete'' then ''delete('' @ in_Key inp @ '') -> ok''
      else ''unknown op: '' @ in_Op inp)"

section \<open>Events\<close>

datatype event_value = CallEvent KVInput | ReturnEvent KVOutput

record Event =
  ev_Value :: event_value
  ev_Id :: nat
  ev_ClientId :: int

text \<open>The hash of a client, in 64-bit arithmetic; the smallest integer is its own negation.\<close>

definition hashString :: "string \<Rightarrow> int" where
  "hashString s =
     (let hash = fold (\<lambda>c hash. hash * 31 + of_nat (fst c)) (runes s) (0 :: i64) in
      sint (if hash <s 0 then - hash else hash))"

definition op_kind :: "Operation \<Rightarrow> string option" where
  "op_kind op = (if op_Type op = OpGet then Some ''get'' else if op_Type op = OpPut then Some ''put'' else None)"

definition op_input :: "string \<Rightarrow> Operation \<Rightarrow> KVInput" where
  "op_input kind op = \<lparr>in_Op = kind, in_Key = op_Key op, in_Value = op_Value op\<rparr>"

definition op_output :: "Operation \<Rightarrow> KVOutput" where
  "op_output op = \<lparr>ou_Value = op_Value op, ou_Ok = op_Success op\<rparr>"

text \<open>One turn of the loop, at the position of the operation in the history.\<close>

definition op_events :: "nat \<times> Operation \<Rightarrow> Event list" where
  "op_events p =
     (case op_kind (snd p) of
        None \<Rightarrow> []
      | Some kind \<Rightarrow>
          [\<lparr>ev_Value = CallEvent (op_input kind (snd p)), ev_Id = fst p, ev_ClientId = hashString (op_ClientID (snd p))\<rparr>,
           \<lparr>ev_Value = ReturnEvent (op_output (snd p)), ev_Id = fst p, ev_ClientId = hashString (op_ClientID (snd p))\<rparr>])"

definition convertToPorcupineEvents :: "Operation list \<Rightarrow> Event list" where
  "convertToPorcupineEvents history = concat (map op_events (enumerate 0 history))"

section \<open>Sequential histories\<close>

text \<open>
  Every call event is followed by its return event, so the only order of the operations that respects the events is
  that of the list, and checking is running the model along it: the state after accepted operations, if all are.
\<close>

fun run_events :: "(string, string) gomap \<Rightarrow> Event list \<Rightarrow> (string, string) gomap option" where
  "run_events st [] = Some st"
| "run_events st (c # r # es) =
     (case (ev_Value c, ev_Value r) of
        (CallEvent inp, ReturnEvent out) \<Rightarrow>
          (if ev_Id c = ev_Id r then
             (case KVModel_Step st inp out of (True, st) \<Rightarrow> run_events st es | (False, _) \<Rightarrow> None)
           else None)
      | _ \<Rightarrow> None)"
| "run_events st [e] = None"

definition accepted_state :: "Operation list \<Rightarrow> (string, string) gomap option" where
  "accepted_state history = run_events KVModel_Init (convertToPorcupineEvents history)"

text \<open>The times of an operation, forgotten.\<close>

definition timeless :: "Operation \<Rightarrow> Operation" where
  "timeless op = op\<lparr>op_StartTime := 0, op_EndTime := 0\<rparr>"

section \<open>Lemmas\<close>

lemma copy_map_of: "map_of (foldl (\<lambda>acc e. AList.update (fst e) (snd e) acc) m st) = map_of m ++ map_of (rev st)"
  by (induction st arbitrary: m) (auto simp: update_conv' split_beta)

lemma gomap_ok_copy: "gomap_ok m \<Longrightarrow> gomap_ok (foldl (\<lambda>acc e. AList.update (fst e) (snd e) acc) m st)"
  by (induction st arbitrary: m) auto

lemma map_of_rev_ok: "gomap_ok st \<Longrightarrow> map_of (rev st) = map_of st"
  unfolding gomap_ok_def by (subst map_of_inject_set) (simp_all add: rev_map [symmetric])

lemma Step_ok:
  assumes "gomap_ok st" and "KVModel_Step st inp out = (True, st')"
  shows "gomap_ok st'"
  using assms gomap_ok_copy [of "[]" st]
  by (auto simp: KVModel_Step_def Let_def split: if_splits option.splits)

lemma Step_get:
  assumes "gomap_ok st" and "in_Op inp = ''get''" and "ou_Ok out \<longleftrightarrow> map_of st (in_Key inp) \<noteq> None"
    and "\<forall>v. map_of st (in_Key inp) = Some v \<longrightarrow> ou_Value out = v"
  shows "\<exists>st'. KVModel_Step st inp out = (True, st') \<and> map_of st' = map_of st"
  using assms by (auto simp: KVModel_Step_def Let_def copy_map_of map_of_rev_ok split: option.split)

lemma Step_put:
  assumes "gomap_ok st" and "in_Op inp = ''put''" and "ou_Ok out"
  shows "\<exists>st'. KVModel_Step st inp out = (True, st') \<and> map_of st' = (map_of st)(in_Key inp \<mapsto> in_Value inp)"
  using assms by (simp add: KVModel_Step_def Let_def copy_map_of map_of_rev_ok update_conv')

lemma run_events_append:
  "run_events st (convert @ es) = Option.bind (run_events st convert) (\<lambda>st. run_events st es)"
  if "even (length convert)"
  using that
  by (induction st convert rule: run_events.induct)
    (auto split: event_value.split prod.split bool.split option.split)

lemma even_op_events [simp]: "even (length (op_events p))"
  by (simp add: op_events_def split: option.split)

lemma even_events: "even (length (convertToPorcupineEvents h))"
proof -
  have "even (length (concat (map op_events ps)))" for ps by (induction ps) simp_all
  then show ?thesis by (simp add: convertToPorcupineEvents_def)
qed

lemma accepted_snoc:
  "accepted_state (h @ [op]) = Option.bind (accepted_state h) (\<lambda>st. run_events st (op_events (length h, op)))"
proof -
  have "convertToPorcupineEvents (h @ [op]) = convertToPorcupineEvents h @ op_events (length h, op)"
    by (simp add: convertToPorcupineEvents_def enumerate_append_eq)
  with even_events [of h] show ?thesis by (simp add: accepted_state_def run_events_append)
qed

lemma accepted_get:
  assumes "accepted_state h = Some st" and "gomap_ok st" and "op_Type op = OpGet"
    and "op_Success op \<longleftrightarrow> map_of st (op_Key op) \<noteq> None"
    and "\<forall>v. map_of st (op_Key op) = Some v \<longrightarrow> op_Value op = v"
  shows "\<exists>st'. accepted_state (h @ [op]) = Some st' \<and> gomap_ok st' \<and> map_of st' = map_of st"
proof -
  obtain st' where "KVModel_Step st (op_input ''get'' op) (op_output op) = (True, st')" "map_of st' = map_of st"
    using Step_get [OF assms(2), of "op_input ''get'' op" "op_output op"] assms(4, 5)
    by (auto simp: op_input_def op_output_def)
  with assms(1, 3) Step_ok [OF assms(2)] show ?thesis by (auto simp: accepted_snoc op_events_def op_kind_def)
qed

lemma accepted_put:
  assumes "accepted_state h = Some st" and "gomap_ok st" and "op_Type op = OpPut" and "op_Success op"
  shows "\<exists>st'. accepted_state (h @ [op]) = Some st' \<and> gomap_ok st' \<and> map_of st' = (map_of st)(op_Key op \<mapsto> op_Value op)"
proof -
  obtain st' where "KVModel_Step st (op_input ''put'' op) (op_output op) = (True, st')"
    "map_of st' = (map_of st)(op_Key op \<mapsto> op_Value op)"
    using Step_put [OF assms(2), of "op_input ''put'' op" "op_output op"] assms(4)
    by (auto simp: op_input_def op_output_def)
  with assms(1, 3) Step_ok [OF assms(2)] show ?thesis
    by (auto simp: accepted_snoc op_events_def op_kind_def OpPut_def OpGet_def)
qed

end
