(* ===== verification/API_Spec.thy ===== *)
theory API_Spec
  imports API Porcupine
begin

text \<open>
  What clients of the API can rely on: what is written is read, which requests enter the history, and that the
  history of requests served one after the other is accepted by the checker's model.
\<close>

section \<open>Specification\<close>

text \<open>While a handler waits, the event loop applies these committed entries; a panic ends the wait without an answer.\<close>

definition loop_wait :: "'r raft_lib \<Rightarrow> raft_codec \<Rightarrow> raft_Entry list \<Rightarrow> 'r RaftNode \<Rightarrow> 'r RaftNode \<times> bool" where
  "loop_wait L C es rn = (case apply_committed L C es rn of Some rn' \<Rightarrow> (rn', False) | None \<Rightarrow> (rn, True))"

text \<open>The entry that a proposal becomes when it is committed next.\<close>

definition next_entry :: "u64 \<Rightarrow> bytes \<Rightarrow> 'r RaftNode \<Rightarrow> raft_Entry" where
  "next_entry term data rn =
     \<lparr>en_Term = term, en_Index = rn_appliedIndex rn + 1, en_Type = raftpb_EntryNormal, en_Data = data\<rparr>"

text \<open>A leader whose library takes the proposal, and a channel that is free.\<close>

definition can_propose :: "'r raft_lib \<Rightarrow> nat \<Rightarrow> bytes \<Rightarrow> 'r RaftNode \<Rightarrow> bool" where
  "can_propose L i data rn \<longleftrightarrow>
     rn_isLeader rn \<and> (\<exists>u. fst (rl_Propose L data (rn_raft rn)) = Inr u) \<and> map_of (rn_chans rn) i = None"

text \<open>What a request to a key adds to the history, given the status of its reply.\<close>

definition recorded :: "(nat \<Rightarrow> int) \<Rightarrow> http_request \<Rightarrow> string \<Rightarrow> 'r RaftNode \<Rightarrow> nat \<Rightarrow> Operation list" where
  "recorded clock r key rn status =
     (if rq_Method r = MethodGet
      then [request_op clock r OpGet key (fst (KV_Get key (rn_store rn))) (snd (KV_Get key (rn_store rn)))]
      else if rq_Method r \<in> {MethodPost, MethodPut} \<and> status = StatusOK
      then [request_op clock r OpPut key (the (unmarshal_put (projr (rq_Body r)))) True]
      else [])"

text \<open>The errors that a request to a key meets before anything is proposed.\<close>

definition kv_error :: "http_request \<Rightarrow> 'r RaftNode \<Rightarrow> (string \<times> nat) option" where
  "kv_error r rn =
     (let not_leader = (if rn_isLeader rn then None else Some (''proposal failed: not the leader'', 500)) in
      if length (rq_Path r) \<le> 4 then Some (''key is required'', 400)
      else if rq_Method r = MethodGet then None
      else if rq_Method r = MethodDelete then not_leader
      else if rq_Method r \<notin> {MethodPost, MethodPut} then Some (''method not allowed'', 405)
      else case rq_Body r of
        Inl _ \<Rightarrow> Some (''failed to read body'', 400)
      | Inr b \<Rightarrow> if unmarshal_put b = None then Some (''invalid JSON'', 400) else not_leader)"

text \<open>A request of a client to the sample node.\<close>

definition sample_request :: "string \<Rightarrow> string \<Rightarrow> json \<Rightarrow> http_request" where
  "sample_request meth key body =
     \<lparr>rq_Method = meth, rq_Path = ''/kv/'' @ key, rq_Body = Inr (json_text body), rq_RemoteAddr = ''c:1''\<rparr>"

text \<open>Requests served one after the other on a node whose store was new, each proposal being the next entry applied.\<close>

inductive api_run :: "'r raft_lib \<Rightarrow> raft_codec \<Rightarrow> 'r RaftNode \<Rightarrow> bool" for L C where
  start: "rn_store rn = NewKVStore \<Longrightarrow> api_run L C rn"
| get: "api_run L C rn \<Longrightarrow> api_run L C (snd (handleGet clock r key rn))"
| put: "api_run L C rn \<Longrightarrow> valid_utf8 key \<Longrightarrow> unmarshal_put body = Some value \<Longrightarrow> rq_Body r = Inr body \<Longrightarrow>
     can_propose L i (entry_data key value) rn \<Longrightarrow>
     handlePut L lib (loop_wait L C [next_entry t (entry_data key value) rn]) i clock r key rn = Some (resp, rn') \<Longrightarrow>
     api_run L C rn'"

section \<open>Lemmas\<close>

lemma record_op_simps [simp]:
  "kv_lookup (rn_store (record_op op rn)) = kv_lookup (rn_store rn)"
  "kv_history (rn_store (record_op op rn)) = kv_history (rn_store rn) @ [op]"
  "kv_ok (rn_store (record_op op rn)) = kv_ok (rn_store rn)"
  "rn_chans (record_op op rn) = rn_chans rn" "rn_isLeader (record_op op rn) = rn_isLeader rn"
  "rn_raft (record_op op rn) = rn_raft rn" "rn_appliedIndex (record_op op rn) = rn_appliedIndex rn"
  by (simp_all add: record_op_def RecordOperation_def kv_lookup_def kv_ok_def fun_eq_iff)

lemma KV_Put_history: "KV_Put k v kv = Some kv' \<Longrightarrow> kv_history kv' = kv_history kv"
  by (auto simp: KV_Put_def split: option.splits)

lemma applyEntry_history:
  "applyEntry L C e rn = Some (r, rn') \<Longrightarrow> kv_history (rn_store rn') = kv_history (rn_store rn)"
  by (auto simp: applyEntry_def apply_conf_change_frame dest: KV_Put_history
      split: raft_EntryType.splits option.splits sum.splits if_splits)

lemma valid_utf8_put:
  assumes "unmarshal_put b = Some v"
  shows "valid_utf8 v"
proof -
  have step: "valid_utf8 y" if "fold_opt put_field kvs x = Some y" "valid_utf8 x"
      "list_all (\<lambda>kv. valid_utf8 (fst kv) \<and> json_utf8 (snd kv)) kvs" for kvs x y
    using that
  proof (induction kvs arbitrary: x)
    case (Cons kv kvs)
    then obtain z where z: "put_field kv x = Some z" "fold_opt put_field kvs z = Some y" by (auto split: option.splits)
    with Cons.prems have "valid_utf8 z" by (cases "snd kv") (auto simp: put_field_def split: if_splits)
    with Cons.IH [OF z(2)] Cons.prems show ?case by simp
  qed simp
  from assms obtain j where j: "json_unmarshal b = Some j"
    "(case j of JNull \<Rightarrow> Some [] | JObj kvs \<Rightarrow> fold_opt put_field kvs [] | _ \<Rightarrow> None) = Some v"
    by (auto simp: unmarshal_put_def bind_eq_Some_conv)
  from json_unmarshal_utf8 [OF j(1)] j(2) step show ?thesis by (auto split: json.splits)
qed

lemma entry_data_put:
  assumes "valid_utf8 k" and "valid_utf8 v"
  shows "entry_put (next_entry t (entry_data k v) rn) = Some (k, v)"
  using entry_put_encoded [OF assms] by (simp add: next_entry_def entry_data_def put_entry_def)

text \<open>A proposal that is the next entry to be applied is answered, and its assignment is made.\<close>

lemma propose_next:
  assumes "can_propose L i data rn" and "kv_ok (rn_store rn)" and "entry_put (next_entry t data rn) = Some (k, v)"
  obtains rn' where "ProposeAndWait L (loop_wait L C [next_entry t data rn]) i data rn = Some (None, rn')"
    and "kv_ok (rn_store rn')" and "kv_lookup (rn_store rn') = (kv_lookup (rn_store rn))(k \<mapsto> v)"
    and "kv_history (rn_store rn') = kv_history (rn_store rn)"
    and "rn_isLeader rn' = rn_isLeader rn" and "map_of (rn_chans rn') i = None"
proof -
  let ?e = "next_entry t data rn" and ?ix = "rn_appliedIndex rn + 1"
  obtain u r where pr: "rl_Propose L data (rn_raft rn) = (Inr u, r)"
    using assms(1) by (cases "rl_Propose L data (rn_raft rn)") (auto simp: can_propose_def)
  let ?rn1 = "rn\<lparr>rn_raft := r, rn_proposals := AList.update ?ix i (rn_proposals rn)\<rparr>"
  obtain x rn2 where ap: "applyEntry L C ?e ?rn1 = Some (x, rn2)" "rn_proposals rn2 = rn_proposals ?rn1"
    "rn_chans rn2 = rn_chans ?rn1" "KV_Put k v (rn_store rn) = Some (rn_store rn2)" "rn_isLeader rn2 = rn_isLeader rn"
    by (rule applyEntry_effect [of ?rn1 L C ?e]) (use assms(2, 3) in \<open>auto simp: same_but_applied_def\<close>)
  let ?rn3 = "notifyProposal ?ix None (rn2\<lparr>rn_appliedIndex := ?ix\<rparr>)"
  have ch: "map_of (rn_chans ?rn3) i = Some None"
    using ap(2, 3) assms(1) by (simp add: notify_chans can_propose_def update_conv')
  have wait: "loop_wait L C [?e] ?rn1 = (?rn3, False)"
    using ap(1) by (simp add: loop_wait_def next_entry_def)
  have "ProposeAndWait L (loop_wait L C [?e]) i data rn = Some (None, ?rn3\<lparr>rn_chans := AList.delete i (rn_chans ?rn3)\<rparr>)"
    using assms(1) pr wait ch
    by (simp add: ProposeAndWait_def pw_check_leader_def RN_IsLeader_def can_propose_def pw_propose_def RN_Propose_def
        pw_register_def pw_read_def)
  moreover have "kv_ok (rn_store rn2)" by (rule kv.put_ok [OF assms(2) ap(4)])
  moreover have "kv_lookup (rn_store rn2) = (kv_lookup (rn_store rn))(k \<mapsto> v)"
    using kv.put_lookup [OF assms(2) ap(4)] by simp
  moreover have "kv_history (rn_store rn2) = kv_history (rn_store rn)" by (rule KV_Put_history [OF ap(4)])
  moreover have "rn_isLeader ?rn3 = rn_isLeader rn2" by (simp add: notifyProposal_def split: option.split)
  ultimately show ?thesis
    using ap(5)
    by (intro that [of "?rn3\<lparr>rn_chans := AList.delete i (rn_chans ?rn3)\<rparr>"])
      (simp_all add: notifyProposal_frame delete_conv')
qed

lemma handlePut_next:
  assumes "can_propose L i (entry_data key value) rn" and "kv_ok (rn_store rn)" and "valid_utf8 key"
    and "unmarshal_put body = Some value" and "rq_Body r = Inr body"
  obtains rn' where "handlePut L lib (loop_wait L C [next_entry t (entry_data key value) rn]) i clock r key rn
      = Some (json_reply (JObj [(''key'', JStr key), (''status'', JStr ''ok'')]), rn')"
    and "kv_ok (rn_store rn')" and "kv_lookup (rn_store rn') = (kv_lookup (rn_store rn))(key \<mapsto> value)"
    and "kv_history (rn_store rn') = kv_history (rn_store rn) @ [request_op clock r OpPut key value True]"
    and "can_propose L i d rn' \<longleftrightarrow> (\<exists>u. fst (rl_Propose L d (rn_raft rn')) = Inr u)"
proof -
  have "entry_put (next_entry t (entry_data key value) rn) = Some (key, value)"
    using assms(3) valid_utf8_put [OF assms(4)] by (rule entry_data_put)
  then obtain rn2 where "ProposeAndWait L (loop_wait L C [next_entry t (entry_data key value) rn]) i (entry_data key value) rn
      = Some (None, rn2)" "kv_ok (rn_store rn2)" "kv_lookup (rn_store rn2) = (kv_lookup (rn_store rn))(key \<mapsto> value)"
    "kv_history (rn_store rn2) = kv_history (rn_store rn)" "rn_isLeader rn2 = rn_isLeader rn" "map_of (rn_chans rn2) i = None"
    using propose_next [OF assms(1, 2), where C = C] by metis
  with assms(1, 4, 5) show ?thesis
    by (intro that [of "record_op (request_op clock r OpPut key value True) rn2"]) (simp_all add: handlePut_def can_propose_def)
qed

lemma handleDelete_next:
  assumes "can_propose L i (entry_data key []) rn" and "kv_ok (rn_store rn)" and "valid_utf8 key"
  obtains rn' where "handleDelete L lib (loop_wait L C [next_entry t (entry_data key []) rn]) i r key rn
      = Some (json_reply (JObj [(''status'', JStr ''ok'')]), rn')"
    and "kv_lookup (rn_store rn') = (kv_lookup (rn_store rn))(key \<mapsto> [])"
    and "kv_history (rn_store rn') = kv_history (rn_store rn)"
proof -
  have "entry_put (next_entry t (entry_data key []) rn) = Some (key, [])" by (rule entry_data_put) (use assms(3) in simp_all)
  then obtain rn2 where "ProposeAndWait L (loop_wait L C [next_entry t (entry_data key []) rn]) i (entry_data key []) rn
      = Some (None, rn2)" "kv_lookup (rn_store rn2) = (kv_lookup (rn_store rn))(key \<mapsto> [])"
    "kv_history (rn_store rn2) = kv_history (rn_store rn)"
    using propose_next [OF assms(1, 2), where C = C] by metis
  then show ?thesis by (intro that [of rn2]) (simp_all add: handleDelete_def)
qed

lemma handleGet_found:
  assumes "kv_lookup (rn_store rn) key = Some v"
  shows "fst (handleGet clock r key rn) = json_reply (JObj [(''key'', JStr key), (''value'', JStr v)])"
    and "kv_history (rn_store (snd (handleGet clock r key rn))) = kv_history (rn_store rn) @ [request_op clock r OpGet key v True]"
  using assms by (simp_all add: handleGet_def KV_Get_def)

text \<open>The model accepts the history of sequential requests and ends in the contents of the store.\<close>

lemma api_run_accepted:
  "api_run L C rn \<Longrightarrow> kv_ok (rn_store rn)
     \<and> (\<exists>st. accepted_state (kv_history (rn_store rn)) = Some st \<and> gomap_ok st \<and> map_of st = kv_lookup (rn_store rn))"
proof (induction rule: api_run.induct)
  case (start rn)
  then show ?case
    by (auto simp: NewKVStore_def kv_ok_def kv_lookup_def accepted_state_def convertToPorcupineEvents_def KVModel_Init_def)
next
  case (get rn clock r key)
  then obtain st where st: "accepted_state (kv_history (rn_store rn)) = Some st" "gomap_ok st"
    "map_of st = kv_lookup (rn_store rn)" by blast
  let ?op = "request_op clock r OpGet key (fst (KV_Get key (rn_store rn))) (snd (KV_Get key (rn_store rn)))"
  have "\<exists>st'. accepted_state (kv_history (rn_store rn) @ [?op]) = Some st' \<and> gomap_ok st' \<and> map_of st' = map_of st"
    using st by (intro accepted_get) (auto simp: request_op_def KV_Get_def split: option.splits)
  moreover have "snd (handleGet clock r key rn) = record_op ?op rn"
    by (simp add: handleGet_def Let_def split: prod.split)
  ultimately show ?case using get st(3) by auto
next
  case (put rn key body v r i lib t clock resp rn')
  then obtain st where st: "accepted_state (kv_history (rn_store rn)) = Some st" "gomap_ok st"
    "map_of st = kv_lookup (rn_store rn)" and ok: "kv_ok (rn_store rn)" by blast
  let ?op = "request_op clock r OpPut key v True"
  obtain rn2 where rn2: "handlePut L lib (loop_wait L C [next_entry t (entry_data key v) rn]) i clock r key rn
      = Some (json_reply (JObj [(''key'', JStr key), (''status'', JStr ''ok'')]), rn2)" "kv_ok (rn_store rn2)"
    "kv_lookup (rn_store rn2) = (kv_lookup (rn_store rn))(key \<mapsto> v)"
    "kv_history (rn_store rn2) = kv_history (rn_store rn) @ [?op]"
    using handlePut_next [OF put.hyps(5) ok put.hyps(2, 3, 4), where C = C] by metis
  have "\<exists>st'. accepted_state (kv_history (rn_store rn) @ [?op]) = Some st' \<and> gomap_ok st'
      \<and> map_of st' = (map_of st)(op_Key ?op \<mapsto> op_Value ?op)"
    using st by (intro accepted_put) (simp_all add: request_op_def)
  with rn2 st(3) put.hyps(6) show ?case by (auto simp: request_op_def fun_upd_def)
qed

text \<open>A proposal that is not answered leaves the history to the rest of the program.\<close>

lemma ProposeAndWait_eq:
  "ProposeAndWait L wait i data rn =
     (if \<not> rn_isLeader rn then Some (Some (Errorf ''not the leader''), rn)
      else case rl_Propose L data (rn_raft rn) of
        (Inl e, r) \<Rightarrow> Some (Some (Wrap ''failed to propose'' e), rn\<lparr>rn_raft := r\<rparr>)
      | (Inr _, r) \<Rightarrow>
          (case wait (rn\<lparr>rn_raft := r, rn_proposals := AList.update (rn_appliedIndex rn + 1) i (rn_proposals rn)\<rparr>) of
             (rn2, expired) \<Rightarrow>
               if expired
               then Some (Some ErrDeadline, rn2\<lparr>rn_proposals := AList.delete (rn_appliedIndex rn + 1) (rn_proposals rn2)\<rparr>)
               else (case map_of (rn_chans rn2) i of
                       None \<Rightarrow> None
                     | Some err \<Rightarrow> Some (err, rn2\<lparr>rn_chans := AList.delete i (rn_chans rn2)\<rparr>))))"
proof -
  obtain x r where pr: "rl_Propose L data (rn_raft rn) = (x, r)" by fastforce
  obtain rn2 ex where "wait (rn\<lparr>rn_raft := r, rn_proposals := AList.update (rn_appliedIndex rn + 1) i (rn_proposals rn)\<rparr>) = (rn2, ex)"
    by fastforce
  with pr show ?thesis
    by (cases x) (simp_all add: ProposeAndWait_def pw_check_leader_def RN_IsLeader_def pw_propose_def RN_Propose_def
        pw_register_def pw_read_def pw_cleanup_def)
qed

lemma ProposeAndWait_history:
  assumes "ProposeAndWait L wait i data rn = Some (err, rn')"
    and "\<forall>x. kv_history (rn_store (fst (wait x))) = kv_history (rn_store x)"
  shows "kv_history (rn_store rn') = kv_history (rn_store rn)"
proof -
  have w: "kv_history (rn_store y) = kv_history (rn_store x)" if "wait x = (y, b)" for x y b
    using assms(2) [rule_format, of x] that by simp
  show ?thesis
    using assms(1) by (auto simp: ProposeAndWait_eq split: if_splits prod.splits sum.splits option.splits dest!: w)
qed

lemma drop_kv: "drop (Suc (Suc (Suc (Suc 0)))) s = drop 4 s"
  by (simp add: numeral_eq_Suc)

lemma unmarshal_put_text:
  assumes "valid_utf8 v"
  shows "unmarshal_put (json_text (JObj [(''value'', JStr v)])) = Some v"
proof -
  have "json_ok (JObj [(''value'', JStr v)])" "json_depth (JObj [(''value'', JStr v)]) \<le> maxNestingDepth"
    using assms by (simp_all add: maxNestingDepth_def)
  from json_unmarshal_text [OF this] show ?thesis by (simp add: unmarshal_put_def put_field_def)
qed

lemma sample_can_propose: "can_propose sample_lib i data sample_node" "kv_ok (rn_store sample_node)"
  by (simp_all add: can_propose_def sample_node_def sample_lib_def kv_ok_def NewKVStore_def)

lemma sample_request_put:
  "rq_Body (sample_request m k (JObj [(''value'', JStr ''x'')])) = Inr (json_text (JObj [(''value'', JStr ''x'')]))"
  "unmarshal_put (json_text (JObj [(''value'', JStr ''x'')])) = Some ''x''" "valid_utf8 ''k''"
  by (simp_all add: sample_request_def unmarshal_put_text byte_val_def del: json_text.simps)

text \<open>A run of one put on the sample node.\<close>

lemma sample_api_run:
  obtains rn where "api_run sample_lib sample_codec rn" and "kv_lookup (rn_store rn) ''k'' = Some ''x''"
    and "can_propose sample_lib 3 d rn"
proof -
  let ?r = "sample_request ''PUT'' ''k'' (JObj [(''value'', JStr ''x'')])"
  obtain rn where rn: "handlePut sample_lib (\<lambda>_. []) (loop_wait sample_lib sample_codec
      [next_entry 1 (entry_data ''k'' ''x'') sample_node]) 3 (\<lambda>_. 0) ?r ''k'' sample_node
      = Some (json_reply (JObj [(''key'', JStr ''k''), (''status'', JStr ''ok'')]), rn)"
    "kv_lookup (rn_store rn) = (kv_lookup (rn_store sample_node))(''k'' \<mapsto> ''x'')"
    "can_propose sample_lib 3 d rn \<longleftrightarrow> (\<exists>u. fst (rl_Propose sample_lib d (rn_raft rn)) = Inr u)"
    using handlePut_next [OF sample_can_propose sample_request_put(3, 2, 1), where C = sample_codec] by metis
  have "api_run sample_lib sample_codec rn"
    by (rule api_run.put [OF api_run.start sample_request_put(3, 2, 1) sample_can_propose(1) rn(1)])
      (simp add: sample_node_def)
  with rn(2, 3) show ?thesis by (intro that) (simp_all add: sample_lib_def)
qed

section \<open>Properties\<close>





text \<open>A delete is a put of the empty value and is not recorded: afterwards a get of the key is answered with success
  and the empty value, and when the key had a value the checker's model rejects the recorded history.\<close>

theorem delete_breaks_history:
  assumes "api_run L C rn" and "can_propose L i (entry_data key []) rn" and "valid_utf8 key"
    and "kv_lookup (rn_store rn) key = Some v" and "v \<noteq> []"
  shows "\<exists>rn'. handleDelete L lib (loop_wait L C [next_entry t (entry_data key []) rn]) i r key rn
        = Some (json_reply (JObj [(''status'', JStr ''ok'')]), rn')
     \<and> fst (handleGet clock r' key rn') = json_reply (JObj [(''key'', JStr key), (''value'', JStr [])])
     \<and> run_events KVModel_Init (convertToPorcupineEvents (GetHistory (rn_store (snd (handleGet clock r' key rn'))))) = None"
proof -
  obtain st where ok: "kv_ok (rn_store rn)" and st: "accepted_state (kv_history (rn_store rn)) = Some st"
    "map_of st = kv_lookup (rn_store rn)" using api_run_accepted [OF assms(1)] by blast
  obtain rn' where rn': "handleDelete L lib (loop_wait L C [next_entry t (entry_data key []) rn]) i r key rn
      = Some (json_reply (JObj [(''status'', JStr ''ok'')]), rn')"
    "kv_lookup (rn_store rn') = (kv_lookup (rn_store rn))(key \<mapsto> [])" "kv_history (rn_store rn') = kv_history (rn_store rn)"
    using handleDelete_next [OF assms(2) ok assms(3), where C = C] by metis
  have get: "kv_lookup (rn_store rn') key = Some []" by (simp add: rn'(2))
  have "accepted_state (kv_history (rn_store rn) @ [request_op clock r' OpGet key [] True]) = None"
    using st assms(4, 5)
    by (simp add: accepted_snoc op_events_def op_kind_def request_op_def op_input_def op_output_def KVModel_Step_def Let_def)
  with handleGet_found [OF get, of clock r'] rn'(1, 3) show ?thesis
    by (simp add: accepted_state_def GetHistory_def)
qed

theorem delete_breaks_history_witness:
  "\<exists>rn rn' :: unit RaftNode. kv_lookup (rn_store rn) ''k'' = Some ''x''
     \<and> handleDelete sample_lib (\<lambda>_. []) (loop_wait sample_lib sample_codec [next_entry 1 (entry_data ''k'' []) rn]) 3
         (sample_request ''DELETE'' ''k'' JNull) ''k'' rn = Some (json_reply (JObj [(''status'', JStr ''ok'')]), rn')
     \<and> fst (handleGet (\<lambda>_. 1) (sample_request ''GET'' ''k'' JNull) ''k'' rn')
       = json_reply (JObj [(''key'', JStr ''k''), (''value'', JStr [])])"
proof -
  obtain rn where rn: "api_run sample_lib sample_codec rn" "kv_lookup (rn_store rn) ''k'' = Some ''x''"
    "can_propose sample_lib 3 (entry_data ''k'' []) rn" by (rule sample_api_run)
  from delete_breaks_history [OF rn(1, 3) sample_request_put(3) rn(2)] rn(2) show ?thesis by blast
qed

text \<open>A get is always recorded, with the value and whether the key was found; a put is recorded exactly when its reply
  is a success, and nothing else is. Failed puts, deletes and rejected requests leave no trace in the history.\<close>

theorem history_records:
  assumes "handleKV L lib wait i clock r rn = Some (resp, rn')" and "4 < length (rq_Path r)"
    and "\<forall>x. kv_history (rn_store (fst (wait x))) = kv_history (rn_store x)"
  shows "kv_history (rn_store rn') = kv_history (rn_store rn) @ recorded clock r (drop 4 (rq_Path r)) rn (rs_Status resp)"
proof -
  note history = ProposeAndWait_history [OF _ assms(3)]
  show ?thesis
    using assms(1, 2)
    by (auto simp: handleKV_def Let_def recorded_def handleGet_def handlePut_def handleDelete_def proposal_failed_def
        http_Error_def json_reply_def http_status http_methods drop_kv dest!: history
        split: if_splits sum.splits option.splits prod.splits)
qed

theorem history_records_witness:
  "\<exists>resp rn'. handleKV sample_lib (\<lambda>_. []) (\<lambda>x. (x, True)) 3 (\<lambda>_. 7) (sample_request ''GET'' ''k'' JNull) sample_node
       = Some (resp, rn')
     \<and> kv_history (rn_store rn') = [request_op (\<lambda>_. 7) (sample_request ''GET'' ''k'' JNull) OpGet ''k'' [] False]"
proof -
  let ?r = "sample_request ''GET'' ''k'' JNull"
  have h: "handleKV sample_lib (\<lambda>_. []) (\<lambda>x. (x, True)) 3 (\<lambda>_. 7) ?r sample_node
      = Some (handleGet (\<lambda>_. 7) ?r ''k'' sample_node)"
    by (simp add: handleKV_def sample_request_def http_methods Let_def)
  moreover obtain resp rn' where g: "handleGet (\<lambda>_. 7) ?r ''k'' sample_node = (resp, rn')" by fastforce
  ultimately show ?thesis
    using history_records [of sample_lib "\<lambda>_. []" "\<lambda>x. (x, True)" 3 "\<lambda>_. 7" ?r sample_node resp rn']
    by (simp add: sample_request_def recorded_def http_methods sample_node_def NewKVStore_def KV_Get_def kv_lookup_def)
qed

text \<open>A request that cannot be served is turned away before anything is proposed: an empty key, an unknown method, an
  unreadable or malformed body, and every write on a node that is not the leader get their error, and the node does
  not change.\<close>

theorem kv_errors_change_nothing:
  assumes "kv_error r rn = Some (msg, code)"
  shows "handleKV L lib wait i clock r rn = Some (http_Error msg code, rn)"
  using assms
  by (auto simp: kv_error_def handleKV_def handlePut_def handleDelete_def ProposeAndWait_eq proposal_failed_def http_status
      http_methods Let_def split: if_splits sum.splits option.splits)

theorem kv_errors_change_nothing_witness:
  "handleKV sample_lib (\<lambda>_. []) (\<lambda>x. (x, True)) 3 (\<lambda>_. 7) (sample_request ''DELETE'' ''k'' JNull)
     (sample_node\<lparr>rn_isLeader := False\<rparr>)
   = Some (http_Error ''proposal failed: not the leader'' 500, sample_node\<lparr>rn_isLeader := False\<rparr>)"
  by (rule kv_errors_change_nothing) (simp add: kv_error_def sample_request_def http_methods)

end
