(* ===== verification/Linearizability.thy ===== *)
theory Linearizability
  imports Porcupine "HOL-Library.Multiset"
begin

text \<open>
  What the search of \<open>porcupine.CheckEvents\<close> decides: whether the operations of a list of events can be put in an order that
  respects real time (an operation that returned before another was called comes first) and that the model accepts. For
  the events that \<open>convertToPorcupineEvents\<close> makes, this is the question whether the model accepts the recorded order.
\<close>

section \<open>Linearizable events\<close>

fun is_call :: "event_value \<Rightarrow> bool" where
  "is_call (CallEvent i) \<longleftrightarrow> True"
| "is_call (ReturnEvent ret) \<longleftrightarrow> False"

fun call_input :: "event_value \<Rightarrow> KVInput" where
  "call_input (CallEvent i) = i"
| "call_input (ReturnEvent ret) = \<lparr>in_Op = [], in_Key = [], in_Value = []\<rparr>"

fun return_output :: "event_value \<Rightarrow> KVOutput" where
  "return_output (ReturnEvent ret) = ret"
| "return_output (CallEvent i) = \<lparr>ou_Value = [], ou_Ok = False\<rparr>"

text \<open>An operation: the positions of its call and of its return, its input and its output.\<close>

type_synonym lin_op = "(nat \<times> nat) \<times> KVInput \<times> KVOutput"

definition event_ops :: "Event list \<Rightarrow> lin_op list" where
  "event_ops evs =
     map (\<lambda>(p, q). ((p, q), call_input (ev_Value (evs ! p)), return_output (ev_Value (evs ! q))))
       (filter (\<lambda>(p, q). is_call (ev_Value (evs ! p)) \<and> \<not> is_call (ev_Value (evs ! q)) \<and> ev_Id (evs ! p) = ev_Id (evs ! q))
         (List.product [0..<length evs] [0..<length evs]))"

definition respects_time :: "lin_op list \<Rightarrow> bool" where
  "respects_time ops \<longleftrightarrow>
     (\<forall>i < length ops. \<forall>j < length ops. snd (fst (ops ! i)) < fst (fst (ops ! j)) \<longrightarrow> i < j)"

fun run_steps :: "(string, string) gomap \<Rightarrow> (KVInput \<times> KVOutput) list \<Rightarrow> (string, string) gomap option" where
  "run_steps st [] = Some st"
| "run_steps st ((i, ret) # xs) = (case KVModel_Step st i ret of (True, st) \<Rightarrow> run_steps st xs | (False, _) \<Rightarrow> None)"

definition linearizable :: "Event list \<Rightarrow> bool" where
  "linearizable evs \<longleftrightarrow>
     (\<exists>ops. mset ops = mset (event_ops evs) \<and> respects_time ops \<and> run_steps KVModel_Init (map snd ops) \<noteq> None)"

section \<open>Sequential events\<close>

text \<open>Operations, each with its identifier and its client, as events one after the other.\<close>

type_synonym seq_op = "nat \<times> KVInput \<times> KVOutput \<times> int"

definition seq_pair :: "seq_op \<Rightarrow> Event list" where
  "seq_pair x =
     (case x of (n, i, ret, c) \<Rightarrow>
        [\<lparr>ev_Value = CallEvent i, ev_Id = n, ev_ClientId = c\<rparr>, \<lparr>ev_Value = ReturnEvent ret, ev_Id = n, ev_ClientId = c\<rparr>])"

definition seq_events :: "seq_op list \<Rightarrow> Event list" where
  "seq_events xs = concat (map seq_pair xs)"

definition seq_step :: "seq_op \<Rightarrow> KVInput \<times> KVOutput" where
  "seq_step x = (case x of (n, i, ret, c) \<Rightarrow> (i, ret))"

definition seq_ops :: "seq_op list \<Rightarrow> lin_op list" where
  "seq_ops xs = map (\<lambda>k. ((2 * k, Suc (2 * k)), seq_step (xs ! k))) [0..<length xs]"

text \<open>The operations that the conversion keeps.\<close>

definition kept_ops :: "nat \<times> Operation \<Rightarrow> seq_op list" where
  "kept_ops p =
     (case op_kind (snd p) of
        None \<Rightarrow> []
      | Some kind \<Rightarrow> [(fst p, op_input kind (snd p), op_output (snd p), hashString (op_ClientID (snd p)))])"

section \<open>Lemmas\<close>

lemma seq_events_simps [simp]: "seq_events [] = []" "seq_events (x # xs) = seq_pair x @ seq_events xs"
  by (simp_all add: seq_events_def)

lemma length_seq_events [simp]: "length (seq_events xs) = 2 * length xs"
  by (induction xs) (auto simp: seq_pair_def split: prod.split)

lemma seq_events_nth:
  "k < length xs \<Longrightarrow> seq_events xs ! (2 * k) = hd (seq_pair (xs ! k)) \<and> seq_events xs ! Suc (2 * k) = last (seq_pair (xs ! k))"
proof (induction xs arbitrary: k)
  case (Cons x xs)
  then show ?case
    by (cases k; cases x) (simp_all add: seq_pair_def)
qed simp

lemma seq_pair_simps [simp]:
  "ev_Value (hd (seq_pair x)) = CallEvent (fst (seq_step x))" "ev_Value (last (seq_pair x)) = ReturnEvent (snd (seq_step x))"
  "ev_Id (hd (seq_pair x)) = fst x" "ev_Id (last (seq_pair x)) = fst x"
  by (simp_all add: seq_pair_def seq_step_def split: prod.split)

lemma two_times_cases:
  assumes "p < 2 * (n :: nat)"
  obtains k where "k < n" and "p = 2 * k \<or> p = Suc (2 * k)"
  using assms by (intro that [of "p div 2"]) auto

lemma distinct_event_ops: "distinct (event_ops evs)"
proof -
  have "distinct (map fst (event_ops evs))"
    by (simp add: event_ops_def comp_def split_beta distinct_filter distinct_product)
  then show ?thesis
    by (simp add: distinct_map)
qed

lemma distinct_seq_ops: "distinct (seq_ops xs)"
  by (simp add: seq_ops_def distinct_map inj_on_def)

lemma set_event_ops:
  "((p, q), i, ret) \<in> set (event_ops evs) \<longleftrightarrow> p < length evs \<and> q < length evs
     \<and> is_call (ev_Value (evs ! p)) \<and> \<not> is_call (ev_Value (evs ! q)) \<and> ev_Id (evs ! p) = ev_Id (evs ! q)
     \<and> i = call_input (ev_Value (evs ! p)) \<and> ret = return_output (ev_Value (evs ! q))"
  by (auto simp: event_ops_def image_iff)

lemma seq_positions:
  assumes "distinct (map fst xs)" and "p < 2 * length xs" and "q < 2 * length xs"
    and "is_call (ev_Value (seq_events xs ! p))" and "\<not> is_call (ev_Value (seq_events xs ! q))"
    and "ev_Id (seq_events xs ! p) = ev_Id (seq_events xs ! q)"
  shows "\<exists>k < length xs. p = 2 * k \<and> q = Suc (2 * k)"
proof -
  obtain k where k: "k < length xs" "p = 2 * k \<or> p = Suc (2 * k)"
    by (rule two_times_cases [OF assms(2)])
  obtain l where l: "l < length xs" "q = 2 * l \<or> q = Suc (2 * l)"
    by (rule two_times_cases [OF assms(3)])
  note nth = seq_events_nth [OF k(1)] seq_events_nth [OF l(1)]
  have p: "p = 2 * k" and q: "q = Suc (2 * l)"
    using k(2) l(2) nth assms(4,5) by auto
  then have "map fst xs ! k = map fst xs ! l"
    using nth assms(6) k(1) l(1) by simp
  then have "k = l"
    using nth_eq_iff_index_eq [OF assms(1)] k(1) l(1) by simp
  then show ?thesis
    using p q k(1) by blast
qed

lemma event_ops_seq:
  assumes "distinct (map fst xs)"
  shows "mset (event_ops (seq_events xs)) = mset (seq_ops xs)"
proof -
  have "x \<in> set (event_ops (seq_events xs)) \<longleftrightarrow> x \<in> set (seq_ops xs)" for x
  proof -
    obtain p q i ret where x: "x = ((p, q), i, ret)"
      by (metis surj_pair)
    show ?thesis
      unfolding x set_event_ops seq_ops_def
      using seq_positions [OF assms, of p q] seq_events_nth [of _ xs] by (auto simp: image_iff prod_eq_iff)
  qed
  then show ?thesis
    using distinct_event_ops distinct_seq_ops set_eq_iff_mset_eq_distinct by blast
qed

text \<open>The only order of sequential operations that respects time is the order of the list.\<close>

lemma respects_seq: "respects_time (seq_ops xs)"
  by (auto simp: respects_time_def seq_ops_def)

lemma respects_unique:
  assumes "mset ops = mset (seq_ops xs)" and "respects_time ops"
  shows "ops = seq_ops xs"
proof -
  let ?f = "\<lambda>k. ((2 * k, Suc (2 * k)), seq_step (xs ! k))"
  have set: "x \<in> set ops \<Longrightarrow> x = ?f (fst (fst x) div 2)" for x
    using mset_eq_setD [OF assms(1)] by (auto simp: seq_ops_def)
  have len: "length ops = length xs"
    using mset_eq_length [OF assms(1)] by (simp add: seq_ops_def)
  have dist: "distinct ops"
    using assms(1) distinct_seq_ops mset_eq_imp_distinct_iff by blast
  let ?key = "\<lambda>x :: lin_op. fst (fst x) div 2"
  have less: "?key (ops ! i) < ?key (ops ! j)" if "i < j" "j < length ops" for i j
  proof (rule ccontr)
    assume neg: "\<not> ?key (ops ! i) < ?key (ops ! j)"
    have i: "ops ! i = ?f (?key (ops ! i))" and j: "ops ! j = ?f (?key (ops ! j))"
      using set that by simp_all
    have "ops ! i \<noteq> ops ! j"
      using dist that by (simp add: nth_eq_iff_index_eq)
    then have "?key (ops ! j) < ?key (ops ! i)"
      using neg i j by (metis linorder_neqE_nat)
    then have "snd (fst (ops ! j)) < fst (fst (ops ! i))"
      by (subst i, subst j) simp
    then show False
      using assms(2) that unfolding respects_time_def by (meson less_trans less_asym)
  qed
  have "sorted_wrt (<) (map ?key ops)"
    using less by (simp add: sorted_wrt_iff_nth_less)
  moreover have "set (map ?key ops) = {0..<length xs}"
    using mset_eq_setD [OF assms(1)] by (auto simp: seq_ops_def image_iff)
  ultimately have "map ?key ops = [0..<length xs]"
    by (metis sorted_list_of_set_range strict_sorted_equal_Uniq sorted_wrt_upt set_upt sorted_list_of_set.strict_sorted_key_list_of_set
      strict_sorted_equal)
  then have "map (?f \<circ> ?key) ops = seq_ops xs"
    by (simp add: seq_ops_def flip: map_map)
  moreover have "map (?f \<circ> ?key) ops = ops"
    using set by (intro map_idI) simp
  ultimately show ?thesis
    by simp
qed

lemma run_events_seq: "run_events st (seq_events xs) = run_steps st (map seq_step xs)"
  by (induction xs arbitrary: st) (auto simp: seq_pair_def seq_step_def split: prod.split bool.split)

lemma seq_ops_steps: "map snd (seq_ops xs) = map seq_step xs"
  by (rule nth_equalityI) (simp_all add: seq_ops_def)

lemma linearizable_seq:
  assumes "distinct (map fst xs)"
  shows "linearizable (seq_events xs) \<longleftrightarrow> run_events KVModel_Init (seq_events xs) \<noteq> None"
proof -
  have "linearizable (seq_events xs) \<longleftrightarrow> run_steps KVModel_Init (map snd (seq_ops xs)) \<noteq> None"
    unfolding linearizable_def event_ops_seq [OF assms] using respects_unique respects_seq by blast
  then show ?thesis
    by (simp add: run_events_seq seq_ops_steps)
qed

lemma op_events_seq: "op_events p = seq_events (kept_ops p)"
  by (simp add: op_events_def kept_ops_def seq_pair_def split: option.split)

lemma seq_events_concat: "concat (map (seq_events \<circ> f) ps) = seq_events (concat (map f ps))"
  by (induction ps) (simp_all add: seq_events_def)

lemma convert_seq: "convertToPorcupineEvents h = seq_events (concat (map kept_ops (enumerate 0 h)))"
  by (simp add: convertToPorcupineEvents_def op_events_seq [abs_def] comp_def flip: seq_events_concat)

lemma distinct_kept: "distinct (map fst (concat (map kept_ops (enumerate n h))))"
proof (induction h arbitrary: n)
  case (Cons op h)
  have "m \<in> set (map fst (concat (map kept_ops (enumerate (Suc n) h)))) \<Longrightarrow> n < m" for m
    by (auto simp: kept_ops_def in_set_enumerate_eq split: option.splits)
  then show ?case
    using Cons.IH [of "Suc n"] by (auto simp: kept_ops_def split: option.split)
qed simp

section \<open>Property\<close>

text \<open>C16: What the checker decides. The search looks for an order of the operations that respects real time, but the
  conversion gives every operation a return right after its call, so the search answers the question whether the model
  accepts the operations in the order of the recording: the times of the operations play no part.\<close>

theorem checker_decides_recorded_order:
  "(linearizable (convertToPorcupineEvents h) \<longleftrightarrow> accepted_state h \<noteq> None)
   \<and> (linearizable (convertToPorcupineEvents h) \<longleftrightarrow> linearizable (convertToPorcupineEvents (map timeless h)))"
proof -
  have lin: "linearizable (convertToPorcupineEvents h) \<longleftrightarrow> accepted_state h \<noteq> None" for h
    by (simp add: accepted_state_def convert_seq linearizable_seq [OF distinct_kept])
  have "op_events (n, timeless op) = op_events (n, op)" for n op
    by (simp add: op_events_def timeless_def op_kind_def op_input_def op_output_def)
  then have "convertToPorcupineEvents (map timeless h) = convertToPorcupineEvents h"
    by (simp add: convertToPorcupineEvents_def enumerate_eq_zip zip_map2 comp_def split_beta)
  with lin show ?thesis
    by simp
qed

end
