(* ===== verification/Checker.thy ===== *)
theory Checker
  imports API_Spec Linearizability Go_Flag Go_OS
begin

text \<open>
  \<open>test/correctness/porcupine/checker.go\<close>: the program that reads a history, from a file or from the API of a server, and
  checks it. The search and the visualization are the library's (\<open>check\<close>, \<open>visualize\<close>); the reply to the \<open>GET\<close> of an address,
  with what reading its body gives, and the parser of a time are arguments. What the program prints is left out: the
  result is its exit code and the file system. A time is parsed from the decoded string.
\<close>

section \<open>Decoding a history\<close>

text \<open>The zero time is the start of the year 1, in nanoseconds before 1970.\<close>

definition zero_Operation :: Operation where
  "zero_Operation =
     \<lparr>op_Type = [], op_Key = [], op_Value = [], op_ClientID = [], op_OpID = 0, op_StartTime = - 62135596800 * 10 ^ 9,
      op_EndTime = - 62135596800 * 10 ^ 9, op_Result = [], op_Success = False\<rparr>"

fun into_bool :: "bool \<Rightarrow> json \<Rightarrow> bool option" where
  "into_bool cur (JBool b) = Some b"
| "into_bool cur JNull = Some cur"
| "into_bool cur _ = None"

text \<open>A literal of JSON is parsed as a 64-bit integer; one with a fraction or an exponent is an error.\<close>

fun into_int64 :: "i64 \<Rightarrow> json \<Rightarrow> i64 option" where
  "into_int64 cur (JNum l) = (case Atoi l of Inl _ \<Rightarrow> None | Inr n \<Rightarrow> Some n)"
| "into_int64 cur JNull = Some cur"
| "into_int64 cur _ = None"

fun into_time :: "(string \<Rightarrow> int option) \<Rightarrow> int \<Rightarrow> json \<Rightarrow> int option" where
  "into_time ParseTime cur (JStr s) = ParseTime s"
| "into_time ParseTime cur JNull = Some cur"
| "into_time ParseTime cur _ = None"

definition operation_field :: "(string \<Rightarrow> int option) \<Rightarrow> string \<times> json \<Rightarrow> Operation \<Rightarrow> Operation option" where
  "operation_field ParseTime kv op =
     (if field_match ''type'' (fst kv) then map_option (\<lambda>x. op\<lparr>op_Type := x\<rparr>) (into_string (op_Type op) (snd kv))
      else if field_match ''key'' (fst kv) then map_option (\<lambda>x. op\<lparr>op_Key := x\<rparr>) (into_string (op_Key op) (snd kv))
      else if field_match ''value'' (fst kv) then map_option (\<lambda>x. op\<lparr>op_Value := x\<rparr>) (into_string (op_Value op) (snd kv))
      else if field_match ''client_id'' (fst kv) then
        map_option (\<lambda>x. op\<lparr>op_ClientID := x\<rparr>) (into_string (op_ClientID op) (snd kv))
      else if field_match ''op_id'' (fst kv) then map_option (\<lambda>x. op\<lparr>op_OpID := x\<rparr>) (into_int64 (op_OpID op) (snd kv))
      else if field_match ''start_time'' (fst kv) then
        map_option (\<lambda>x. op\<lparr>op_StartTime := x\<rparr>) (into_time ParseTime (op_StartTime op) (snd kv))
      else if field_match ''end_time'' (fst kv) then
        map_option (\<lambda>x. op\<lparr>op_EndTime := x\<rparr>) (into_time ParseTime (op_EndTime op) (snd kv))
      else if field_match ''result'' (fst kv) then map_option (\<lambda>x. op\<lparr>op_Result := x\<rparr>) (into_string (op_Result op) (snd kv))
      else if field_match ''success'' (fst kv) then
        map_option (\<lambda>x. op\<lparr>op_Success := x\<rparr>) (into_bool (op_Success op) (snd kv))
      else Some op)"

definition into_operation :: "(string \<Rightarrow> int option) \<Rightarrow> json \<Rightarrow> Operation option" where
  "into_operation ParseTime j =
     (case j of
        JNull \<Rightarrow> Some zero_Operation
      | JObj kvs \<Rightarrow> fold_opt (operation_field ParseTime) kvs zero_Operation
      | _ \<Rightarrow> None)"

definition unmarshal_history :: "(string \<Rightarrow> int option) \<Rightarrow> bytes \<Rightarrow> Operation list option" where
  "unmarshal_history ParseTime b =
     Option.bind (json_unmarshal b) (\<lambda>j.
       case j of
         JNull \<Rightarrow> Some []
       | JArr vs \<Rightarrow> those (map (into_operation ParseTime) vs)
       | _ \<Rightarrow> None)"

section \<open>Loading\<close>

definition decoded_history :: "(string \<Rightarrow> int option) \<Rightarrow> bytes \<Rightarrow> Operation list res" where
  "decoded_history ParseTime b = (case unmarshal_history ParseTime b of None \<Rightarrow> Inl ErrJSON | Some h \<Rightarrow> Inr h)"

definition loadHistoryFromFile :: "(string \<Rightarrow> int option) \<Rightarrow> string \<Rightarrow> fs \<Rightarrow> Operation list res \<times> fs" where
  "loadHistoryFromFile ParseTime p s =
     (case ReadFile (path_of p) s of
        (Inl e, s) \<Rightarrow> (Inl e, s)
      | (Inr data, s) \<Rightarrow> (decoded_history ParseTime data, s))"

definition fetchHistoryFromAPI ::
    "(string \<Rightarrow> int option) \<Rightarrow> (string \<Rightarrow> (nat \<times> bytes res) res) \<Rightarrow> string \<Rightarrow> Operation list res" where
  "fetchHistoryFromAPI ParseTime get url =
     (case get url of
        Inl e \<Rightarrow> Inl e
      | Inr (status, body) \<Rightarrow>
          if status \<noteq> StatusOK then Inl (Errorf (''API returned status '' @ dec status))
          else (case body of Inl e \<Rightarrow> Inl e | Inr b \<Rightarrow> decoded_history ParseTime b))"

section \<open>The program\<close>

record checker_flags =
  kf_file :: string
  kf_url :: string
  kf_output :: string
  kf_verbose :: bool

definition default_checker_flags :: checker_flags where
  "default_checker_flags = \<lparr>kf_file = [], kf_url = [], kf_output = [], kf_verbose = False\<rparr>"

definition set_checker_flag :: "string \<Rightarrow> string \<Rightarrow> checker_flags \<Rightarrow> checker_flags option" where
  "set_checker_flag name v f =
     (if name = ''file'' then Some (f\<lparr>kf_file := v\<rparr>)
      else if name = ''url'' then Some (f\<lparr>kf_url := v\<rparr>)
      else if name = ''output'' then Some (f\<lparr>kf_output := v\<rparr>)
      else if name = ''verbose'' then map_option (\<lambda>b. f\<lparr>kf_verbose := b\<rparr>) (ParseBool v)
      else None)"

definition checker_flag_set :: "checker_flags flag_set" where
  "checker_flag_set =
     \<lparr>fg_bool = (\<lambda>name. if name = ''verbose'' then Some True
        else if name \<in> {''file'', ''url'', ''output''} then Some False else None),
      fg_set = set_checker_flag\<rparr>"

text \<open>A file is preferred to an address; with neither, the program ends.\<close>

definition load_history ::
    "(string \<Rightarrow> int option) \<Rightarrow> (string \<Rightarrow> (nat \<times> bytes res) res) \<Rightarrow> checker_flags \<Rightarrow> fs \<Rightarrow> Operation list res \<times> fs" where
  "load_history ParseTime get f s =
     (if kf_file f \<noteq> [] then
        (case loadHistoryFromFile ParseTime (kf_file f) s of
           (Inl e, s) \<Rightarrow> (Inl (Wrap ''Failed to load history from file'' e), s)
         | (Inr h, s) \<Rightarrow> (Inr h, s))
      else if kf_url f \<noteq> [] then
        (case fetchHistoryFromAPI ParseTime get (kf_url f) of
           Inl e \<Rightarrow> (Inl (Wrap ''Failed to fetch history from API'' e), s)
         | Inr h \<Rightarrow> (Inr h, s))
      else (Inl (Errorf ''Must specify either --file or --url''), s))"

datatype check_result = Check_Ok | Check_Illegal | Check_Unknown

text \<open>Errors of the visualization are only logged.\<close>

definition save_visualization :: "(Event list \<Rightarrow> bytes res) \<Rightarrow> checker_flags \<Rightarrow> Event list \<Rightarrow> fs \<Rightarrow> fs" where
  "save_visualization visualize f events s =
     (if kf_output f = [] then s
      else (case visualize events of Inl _ \<Rightarrow> s | Inr b \<Rightarrow> snd (WriteFile (path_of (kf_output f)) b s)))"

definition checker_main ::
    "(string \<Rightarrow> int option) \<Rightarrow> (string \<Rightarrow> (nat \<times> bytes res) res) \<Rightarrow> (Event list \<Rightarrow> check_result) \<Rightarrow> (Event list \<Rightarrow> bytes res)
       \<Rightarrow> string list \<Rightarrow> fs \<Rightarrow> nat \<times> fs" where
  "checker_main ParseTime get check visualize args s =
     (case flag_parse checker_flag_set args default_checker_flags of
        Inl code \<Rightarrow> (code, s)
      | Inr f \<Rightarrow>
          (case load_history ParseTime get f s of
             (Inl _, s) \<Rightarrow> (1, s)
           | (Inr history, s) \<Rightarrow>
               if history = [] then (0, s)
               else let events = convertToPorcupineEvents history in
                    (case check events of
                       Check_Ok \<Rightarrow> (0, s)
                     | Check_Illegal \<Rightarrow> (1, save_visualization visualize f events s)
                     | Check_Unknown \<Rightarrow> (2, s))))"

section \<open>Specification\<close>

text \<open>The search without a time limit gives the right answer.\<close>

definition decides_linearizable :: "(Event list \<Rightarrow> check_result) \<Rightarrow> bool" where
  "decides_linearizable check \<longleftrightarrow> (\<forall>evs. check evs = (if linearizable evs then Check_Ok else Check_Illegal))"

text \<open>An operation whose strings are text and whose number, the time of the recording in nanoseconds, is not negative.\<close>

definition printable_op :: "Operation \<Rightarrow> bool" where
  "printable_op op \<longleftrightarrow>
     valid_utf8 (op_Type op) \<and> valid_utf8 (op_Key op) \<and> valid_utf8 (op_Value op) \<and> valid_utf8 (op_ClientID op)
     \<and> valid_utf8 (op_Result op) \<and> 0 \<le> sint (op_OpID op)"

text \<open>Times are written as valid text and parsed back.\<close>

definition time_format :: "(int \<Rightarrow> string) \<Rightarrow> (string \<Rightarrow> int option) \<Rightarrow> bool" where
  "time_format time ParseTime \<longleftrightarrow> (\<forall>t. valid_utf8 (time t) \<and> ParseTime (time t) = Some t)"

text \<open>A server behind an address: its reply to \<open>GET /history\<close>.\<close>

definition history_request :: http_request where
  "history_request = \<lparr>rq_Method = ''GET'', rq_Path = ''/history'', rq_Body = Inr [], rq_RemoteAddr = []\<rparr>"

definition serves_history :: "(string \<Rightarrow> (nat \<times> bytes res) res) \<Rightarrow> string \<Rightarrow> (int \<Rightarrow> string) \<Rightarrow> 'r RaftNode \<Rightarrow> bool" where
  "serves_history get url time rn \<longleftrightarrow>
     get url = (let r = handleHistory time history_request rn in Inr (rs_Status r, Inr (rs_Body r)))"

text \<open>A format of times for the concrete runs: negative times get the odd numbers.\<close>

definition sample_time :: "int \<Rightarrow> string" where
  "sample_time t = dec (if 0 \<le> t then 2 * nat t else Suc (2 * nat (- t)))"

definition sample_ParseTime :: "string \<Rightarrow> int option" where
  "sample_ParseTime s = map_option (\<lambda>n. if even n then int (n div 2) else - int (n div 2)) (digits_val 0 s)"

definition exact_check :: "Event list \<Rightarrow> check_result" where
  "exact_check evs = (if linearizable evs then Check_Ok else Check_Illegal)"

definition sample_read_node :: "unit RaftNode" where
  "sample_read_node = snd (handleGet (\<lambda>_. 0) (sample_request ''GET'' ''k'' JNull) ''k'' sample_node)"

definition sample_get_reply :: "string \<Rightarrow> (nat \<times> bytes res) res" where
  "sample_get_reply url = (let r = handleHistory sample_time history_request sample_read_node in Inr (rs_Status r, Inr (rs_Body r)))"

section \<open>Lemmas\<close>

lemma operation_field_names [simp]:
  "field_match ''type'' ''type''" "field_match ''client_id'' ''client_id''" "field_match ''op_id'' ''op_id''"
  "field_match ''start_time'' ''start_time''" "field_match ''end_time'' ''end_time''" "field_match ''result'' ''result''"
  "field_match ''success'' ''success''"
  by (simp_all add: field_match_def)

lemma operation_field_step:
  "operation_field PT (''type'', JStr x) op = Some (op\<lparr>op_Type := x\<rparr>)"
  "operation_field PT (''key'', JStr x) op = Some (op\<lparr>op_Key := x\<rparr>)"
  "operation_field PT (''value'', JStr x) op = Some (op\<lparr>op_Value := x\<rparr>)"
  "operation_field PT (''client_id'', JStr x) op = Some (op\<lparr>op_ClientID := x\<rparr>)"
  "operation_field PT (''op_id'', JNum l) op = map_option (\<lambda>x. op\<lparr>op_OpID := x\<rparr>) (into_int64 (op_OpID op) (JNum l))"
  "operation_field PT (''start_time'', JStr x) op = map_option (\<lambda>x. op\<lparr>op_StartTime := x\<rparr>) (PT x)"
  "operation_field PT (''end_time'', JStr x) op = map_option (\<lambda>x. op\<lparr>op_EndTime := x\<rparr>) (PT x)"
  "operation_field PT (''result'', JStr x) op = Some (op\<lparr>op_Result := x\<rparr>)"
  "operation_field PT (''success'', JBool b) op = Some (op\<lparr>op_Success := b\<rparr>)"
  by (simp_all add: operation_field_def field_match_def fold_name_def fold_rune_def byte_val_def)

lemma Atoi_dec:
  assumes "n < 2 ^ 63"
  shows "Atoi (dec n) = Inr (of_nat n)"
proof -
  obtain c r where d: "dec n = c # r" and c: "is_digit c"
    using int_lit_dec [of n] by (cases "dec n") (auto simp: int_lit_def)
  have "c \<noteq> CHR ''-''" "c \<noteq> CHR ''+''"
    using c by (auto simp: is_digit_def byte_val_def)
  then show ?thesis
    using assms digits_val_dec [of n] d by (simp add: Atoi_def)
qed

lemma op_id_text:
  assumes "0 \<le> sint (n :: i64)"
  shows "into_int64 cur (JNum (dec (nat (sint n)))) = Some n"
proof -
  have "sint n < 2 ^ 63"
    using sint_less [of n] by simp
  then have "Atoi (dec (nat (sint n))) = Inr (of_nat (nat (sint n)))"
    using assms by (intro Atoi_dec) (simp add: nat_less_iff)
  moreover have "(of_nat (nat (sint n)) :: i64) = n"
    using assms by (simp add: of_nat_nat)
  ultimately show ?thesis
    by simp
qed

lemma into_operation_json:
  assumes "printable_op op" and "time_format time PT"
  shows "into_operation PT (operation_json time op) = Some op"
  using assms op_id_text [of "op_OpID op"]
  by (cases op; cases "op_Value op = []"; cases "op_Result op = []")
    (simp_all add: into_operation_def operation_json_def operation_field_step zero_Operation_def printable_op_def
      time_format_def Let_def del: into_int64.simps)

lemma operation_json_ok:
  assumes "printable_op op" and "time_format time PT"
  shows "json_ok (operation_json time op)" and "json_depth (operation_json time op) \<le> 1"
  using assms
  by (auto simp: operation_json_def printable_op_def time_format_def Let_def int_lit_dec byte_val_def)

lemma unmarshal_history_text:
  assumes "list_all printable_op h" and "time_format time PT"
  shows "unmarshal_history PT (json_text (JArr (map (operation_json time) h)) @ [CHR 0x0A]) = Some h"
proof -
  let ?v = "JArr (map (operation_json time) h)"
  have "json_ok ?v" "json_depth ?v \<le> maxNestingDepth"
    using assms operation_json_ok(1) order_trans [OF operation_json_ok(2), of _ time PT 9999]
    by (auto simp: list_all_iff maxNestingDepth_def foldr_max_le_iff)
  then have "json_unmarshal (json_text ?v @ [CHR 0x0A]) = Some ?v"
    using json_decode_text [of ?v "[CHR 0x0A]"] by (simp add: json_unmarshal_def skip_ws_Cons del: json_text.simps)
  moreover have "those (map (into_operation PT) (map (operation_json time) h)) = Some h"
    using assms(1) by (induction h) (simp_all add: into_operation_json assms(2))
  ultimately show ?thesis
    by (simp add: unmarshal_history_def del: json_text.simps)
qed

lemma fetch_served:
  assumes "serves_history get url time rn" and "time_format time PT" and "list_all printable_op (GetHistory (rn_store rn))"
  shows "fetchHistoryFromAPI PT get url = Inr (GetHistory (rn_store rn))"
  using assms unmarshal_history_text [OF assms(3,2)]
  by (simp add: fetchHistoryFromAPI_def serves_history_def handleHistory_def history_request_def http_methods json_reply_def
      decoded_history_def del: json_text.simps)

lemma checker_main_exit:
  assumes "flag_parse checker_flag_set args default_checker_flags = Inr f" and "kf_file f = []" and "kf_url f \<noteq> []"
    and "fetchHistoryFromAPI PT get (kf_url f) = Inr h" and "decides_linearizable check"
  shows "fst (checker_main PT get check visualize args s) = (if accepted_state h \<noteq> None then 0 else 1)"
proof -
  have "linearizable (convertToPorcupineEvents h) \<longleftrightarrow> accepted_state h \<noteq> None"
    by (simp add: accepted_state_def convert_seq linearizable_seq [OF distinct_kept])
  moreover have "accepted_state [] \<noteq> None"
    by (simp add: accepted_state_def convertToPorcupineEvents_def)
  ultimately show ?thesis
    using assms by (simp add: checker_main_def load_history_def Let_def decides_linearizable_def)
qed

lemma sample_time_format: "time_format sample_time sample_ParseTime"
proof -
  have "valid_utf8 (dec n)" for n
    using int_lit_dec [of n]
    by (intro ascii_valid_utf8) (auto simp: int_lit_def ascii_str_def list_all_iff is_digit_def)
  then show ?thesis
    by (simp add: time_format_def sample_time_def sample_ParseTime_def digits_val_dec)
qed

lemma sample_read_history:
  "GetHistory (rn_store sample_read_node) =
     [request_op (\<lambda>_. 0) (sample_request ''GET'' ''k'' JNull) OpGet ''k'' [] False]"
  by (simp add: sample_read_node_def handleGet_def sample_node_def KV_Get_def kv_lookup_def NewKVStore_def GetHistory_def record_op_def
      RecordOperation_def)

lemma sample_read_printable: "list_all printable_op (GetHistory (rn_store sample_read_node))"
  by (simp add: sample_read_history printable_op_def request_op_def OpGet_def sample_request_def byte_val_def)

lemma sample_serves: "serves_history sample_get_reply url sample_time sample_read_node"
  by (simp add: serves_history_def sample_get_reply_def)

lemma sample_checker_flags:
  "flag_parse checker_flag_set [''--url'', ''http://kv-0/history''] default_checker_flags
     = Inr (default_checker_flags\<lparr>kf_url := ''http://kv-0/history''\<rparr>)"
  by (simp add: flag_text_def split_flag_def checker_flag_set_def set_checker_flag_def)

section \<open>Properties\<close>

text \<open>The history travels unharmed: what a server answers to \<open>GET /history\<close>, printed as JSON and decoded by the checker, is
  the recorded history, operation by operation, when its strings are valid text and its numbers are not negative.\<close>

theorem history_roundtrip:
  assumes "serves_history get url time rn" and "time_format time PT" and "list_all printable_op (GetHistory (rn_store rn))"
  shows "fetchHistoryFromAPI PT get url = Inr (GetHistory (rn_store rn))"
  using assms by (rule fetch_served)

theorem history_roundtrip_witness:
  "fetchHistoryFromAPI sample_ParseTime sample_get_reply ''http://kv-0/history''
     = Inr [request_op (\<lambda>_. 0) (sample_request ''GET'' ''k'' JNull) OpGet ''k'' [] False]"
  using history_roundtrip [OF sample_serves sample_time_format sample_read_printable] by (simp add: sample_read_history)



end
