(* ===== verification/LoadGen.thy ===== *)
theory LoadGen
  imports API_Spec Go_Flag "HOL-Library.Multiset"
begin

text \<open>
  \<open>test/bench/loadgen.go\<close>: the load generator. The counters are 64-bit integers; the latencies, which are only stored and
  compared, are integers in nanoseconds. Random numbers, the clock and the HTTP client are arguments. The workers, the
  rate limiter and the end of the run are steps in any order. The reporter, the report and \<open>main\<close> are in \<open>LoadReport\<close>.
\<close>

section \<open>Configuration\<close>

text \<open>The ratio of reads is a number \<open>'f\<close> of the language; a duration is in nanoseconds.\<close>

record 'f LoadConfig =
  lg_URLs :: "string list"
  lg_QPS :: int
  lg_Duration :: int
  lg_KeySpace :: int
  lg_ValueSize :: int
  lg_ReadRatio :: 'f
  lg_Workers :: int
  lg_Timeout :: int
  lg_ReportInterval :: int
  lg_OutputFile :: string

text \<open>The parsers of the library for the values of the flags.\<close>

record 'f value_parsers =
  vp_Int :: "string \<Rightarrow> int option"
  vp_Duration :: "string \<Rightarrow> int option"
  vp_Float :: "string \<Rightarrow> 'f option"

definition load_defaults :: "'f \<Rightarrow> 'f LoadConfig" where
  "load_defaults half =
     \<lparr>lg_URLs = [''http://localhost:8080''], lg_QPS = 100, lg_Duration = 60 * 10 ^ 9, lg_KeySpace = 1000, lg_ValueSize = 100,
      lg_ReadRatio = half, lg_Workers = 10, lg_Timeout = 5 * 10 ^ 9, lg_ReportInterval = 5 * 10 ^ 9, lg_OutputFile = []\<rparr>"

text \<open>The value of \<open>-urls\<close> becomes the one element of the list of addresses.\<close>

definition load_set_flag :: "'f value_parsers \<Rightarrow> string \<Rightarrow> string \<Rightarrow> 'f LoadConfig \<Rightarrow> 'f LoadConfig option" where
  "load_set_flag V name v c =
     (if name = ''urls'' then Some (c\<lparr>lg_URLs := [v]\<rparr>)
      else if name = ''qps'' then map_option (\<lambda>n. c\<lparr>lg_QPS := n\<rparr>) (vp_Int V v)
      else if name = ''duration'' then map_option (\<lambda>n. c\<lparr>lg_Duration := n\<rparr>) (vp_Duration V v)
      else if name = ''keys'' then map_option (\<lambda>n. c\<lparr>lg_KeySpace := n\<rparr>) (vp_Int V v)
      else if name = ''value-size'' then map_option (\<lambda>n. c\<lparr>lg_ValueSize := n\<rparr>) (vp_Int V v)
      else if name = ''read-ratio'' then map_option (\<lambda>x. c\<lparr>lg_ReadRatio := x\<rparr>) (vp_Float V v)
      else if name = ''workers'' then map_option (\<lambda>n. c\<lparr>lg_Workers := n\<rparr>) (vp_Int V v)
      else if name = ''timeout'' then map_option (\<lambda>n. c\<lparr>lg_Timeout := n\<rparr>) (vp_Duration V v)
      else if name = ''report-interval'' then map_option (\<lambda>n. c\<lparr>lg_ReportInterval := n\<rparr>) (vp_Duration V v)
      else if name = ''output'' then Some (c\<lparr>lg_OutputFile := v\<rparr>)
      else None)"

definition load_flag_set :: "'f value_parsers \<Rightarrow> 'f LoadConfig flag_set" where
  "load_flag_set V =
     \<lparr>fg_bool = (\<lambda>name.
        if name \<in> {''urls'', ''qps'', ''duration'', ''keys'', ''value-size'', ''read-ratio'', ''workers'', ''timeout'',
          ''report-interval'', ''output''} then Some False else None),
      fg_set = load_set_flag V\<rparr>"

definition parseFlags :: "'f value_parsers \<Rightarrow> 'f \<Rightarrow> string list \<Rightarrow> nat + 'f LoadConfig" where
  "parseFlags V half args = flag_parse (load_flag_set V) args (load_defaults half)"

section \<open>Statistics\<close>

record Result =
  re_Op :: string
  re_Latency :: int
  re_Success :: bool
  re_Timestamp :: int
  re_Error :: string

record Stats =
  sa_TotalOps :: i64
  sa_SuccessfulOps :: i64
  sa_FailedOps :: i64
  sa_TotalLatency :: i64
  sa_MinLatency :: int
  sa_MaxLatency :: int
  sa_Latencies :: "int list"

definition NewStats :: Stats where
  "NewStats =
     \<lparr>sa_TotalOps = 0, sa_SuccessfulOps = 0, sa_FailedOps = 0, sa_TotalLatency = 0, sa_MinLatency = 0, sa_MaxLatency = 0,
      sa_Latencies = []\<rparr>"

definition Stats_Record :: "Result \<Rightarrow> Stats \<Rightarrow> Stats" where
  "Stats_Record r s =
     (let l = re_Latency r;
          s = s\<lparr>sa_TotalOps := sa_TotalOps s + 1, sa_TotalLatency := sa_TotalLatency s + of_int l\<rparr>;
          s = (if re_Success r then s\<lparr>sa_SuccessfulOps := sa_SuccessfulOps s + 1\<rparr>
               else s\<lparr>sa_FailedOps := sa_FailedOps s + 1\<rparr>);
          s = s\<lparr>sa_Latencies := sa_Latencies s @ [l]\<rparr>;
          s = (if sa_MinLatency s = 0 \<or> l < sa_MinLatency s then s\<lparr>sa_MinLatency := l\<rparr> else s)
      in if sa_MaxLatency s < l then s\<lparr>sa_MaxLatency := l\<rparr> else s)"

text \<open>The two loops of the sort, by index.\<close>

definition swap :: "nat \<Rightarrow> nat \<Rightarrow> 'a list \<Rightarrow> 'a list" where
  "swap i j xs = xs[i := xs ! j, j := xs ! i]"

lemma length_swap [simp, termination_simp]: "length (swap i j xs) = length xs"
  by (simp add: swap_def)

function sort_inner :: "nat \<Rightarrow> nat \<Rightarrow> int list \<Rightarrow> int list" where
  "sort_inner i j xs =
     (if j < length xs then sort_inner i (Suc j) (if xs ! j < xs ! i then swap i j xs else xs) else xs)"
  by pat_completeness auto
termination
  by (relation "measure (\<lambda>(i, j, xs). length xs - j)") auto

declare sort_inner.simps [simp del]

lemma length_sort_inner [simp, termination_simp]: "length (sort_inner i j xs) = length xs"
proof (induction i j xs rule: sort_inner.induct)
  case (1 i j xs)
  then show ?case
    by (subst sort_inner.simps) simp
qed

function sort_outer :: "nat \<Rightarrow> int list \<Rightarrow> int list" where
  "sort_outer i xs = (if i < length xs then sort_outer (Suc i) (sort_inner i (Suc i) xs) else xs)"
  by pat_completeness auto
termination
  by (relation "measure (\<lambda>(i, xs). length xs - i)") auto

declare sort_outer.simps [simp del]

text \<open>
  \<open>index n\<close> is \<open>int(float64(n) * p / 100.0)\<close>, for the percentile \<open>p\<close>; a negative index panics.
\<close>

definition GetPercentile :: "(nat \<Rightarrow> int) \<Rightarrow> Stats \<Rightarrow> int option" where
  "GetPercentile index s =
     (let n = length (sa_Latencies s) in
      if n = 0 then Some 0
      else let sorted = sort_outer 0 (sa_Latencies s);
               idx = (if int n \<le> index n then int n - 1 else index n)
           in if idx < 0 then None else Some (sorted ! nat idx))"

section \<open>Requests\<close>

text \<open>\<open>rand.Intn\<close> of the number of addresses, when there are several.\<close>

definition selectURL :: "nat \<Rightarrow> string list \<Rightarrow> string" where
  "selectURL pick urls = (if length urls = 1 then urls ! 0 else urls ! pick)"

definition charset :: string where
  "charset = ''abcdefghijklmnopqrstuvwxyzABCDEFGHIJKLMNOPQRSTUVWXYZ0123456789''"

definition generateValue :: "(nat \<Rightarrow> nat) \<Rightarrow> nat \<Rightarrow> string" where
  "generateValue pick n = map (\<lambda>i. charset ! pick i) [0..<n]"

text \<open>A client: the reply to a method, an address and a body, with the readings of the clock before and after.\<close>

record load_client =
  lc_do :: "string \<Rightarrow> string \<Rightarrow> bytes \<Rightarrow> http_response res"
  lc_start :: int
  lc_latency :: int
  lc_error :: "goerr \<Rightarrow> string"

definition client_result :: "load_client \<Rightarrow> string \<Rightarrow> (nat \<Rightarrow> bool) \<Rightarrow> http_response res \<Rightarrow> Result" where
  "client_result c op ok resp =
     (let r = \<lparr>re_Op = op, re_Latency = lc_latency c, re_Success = False, re_Timestamp = lc_start c, re_Error = []\<rparr> in
      case resp of
        Inl e \<Rightarrow> r\<lparr>re_Error := lc_error c e\<rparr>
      | Inr resp \<Rightarrow> r\<lparr>re_Success := ok (rs_Status resp)\<rparr>)"

definition load_key :: "nat \<Rightarrow> string" where
  "load_key n = ''key-'' @ dec n"

definition doGet :: "load_client \<Rightarrow> string list \<Rightarrow> nat \<Rightarrow> nat \<Rightarrow> Result" where
  "doGet c urls n pick =
     client_result c ''GET'' (\<lambda>status. status = StatusOK \<or> status = StatusNotFound)
       (lc_do c MethodGet (selectURL pick urls @ ''/kv/'' @ load_key n) [])"

definition doPut :: "load_client \<Rightarrow> string list \<Rightarrow> nat \<Rightarrow> nat \<Rightarrow> string \<Rightarrow> Result" where
  "doPut c urls n pick value =
     client_result c ''PUT'' (\<lambda>status. status = StatusOK)
       (lc_do c MethodPost (selectURL pick urls @ ''/kv/'' @ load_key n) (json_text (JObj [(''value'', JStr value)])))"

section \<open>Workers and rate limiter\<close>

datatype worker = AtLoop | AtLimit | AtWork | Finished

text \<open>
  \<open>ld_limit\<close> is the capacity of the channel of tokens, \<open>None\<close> for no limiter; \<open>ld_ticks\<close> counts the ticks.
\<close>

record load_state =
  ld_limit :: "nat option"
  ld_tokens :: nat
  ld_closed :: bool
  ld_cancelled :: bool
  ld_workers :: "worker list"
  ld_stats :: Stats
  ld_ticks :: nat

definition load_start :: "int \<Rightarrow> nat \<Rightarrow> load_state" where
  "load_start qps workers =
     \<lparr>ld_limit = (if qps \<le> 0 then None else Some (nat qps)), ld_tokens = 0, ld_closed = False, ld_cancelled = False,
      ld_workers = replicate workers AtLoop, ld_stats = NewStats, ld_ticks = 0\<rparr>"

text \<open>The interval of the ticker, in nanoseconds.\<close>

definition limiter_interval :: "int \<Rightarrow> int" where
  "limiter_interval qps = (let d = 1000000000 div qps in if d \<le> 0 then 1000 else d)"

text \<open>
  The steps: the ticker fires; the deadline passes or a signal arrives; the limiter closes its channel; a worker goes on.
  A worker at the limiter that could take a token although the run is over may do either (\<open>prefer_token\<close>); one that can do
  neither waits. A worker at work ends with a result.
\<close>

datatype load_event = Tick | Cancel | CloseTokens | Worker nat bool Result

definition worker_step :: "bool \<Rightarrow> Result \<Rightarrow> nat \<Rightarrow> load_state \<Rightarrow> load_state" where
  "worker_step prefer_token r i s =
     (let goto = (\<lambda>w s. s\<lparr>ld_workers := (ld_workers s)[i := w]\<rparr>) in
      case ld_workers s ! i of
        AtLoop \<Rightarrow>
          if ld_cancelled s then goto Finished s
          else if ld_limit s = None then goto AtWork s
          else goto AtLimit s
      | AtLimit \<Rightarrow>
          if 0 < ld_tokens s \<and> (prefer_token \<or> \<not> ld_cancelled s) then goto AtWork (s\<lparr>ld_tokens := ld_tokens s - 1\<rparr>)
          else if ld_cancelled s \<or> ld_closed s \<and> ld_tokens s = 0 then goto Finished s
          else s
      | AtWork \<Rightarrow> goto AtLoop (s\<lparr>ld_stats := Stats_Record r (ld_stats s)\<rparr>)
      | Finished \<Rightarrow> s)"

fun load_step :: "load_event \<Rightarrow> load_state \<Rightarrow> load_state" where
  "load_step Tick s =
     (if ld_closed s \<or> ld_limit s = None then s
      else let s = s\<lparr>ld_ticks := Suc (ld_ticks s)\<rparr> in
           if ld_tokens s < the (ld_limit s) then s\<lparr>ld_tokens := Suc (ld_tokens s)\<rparr> else s)"
| "load_step Cancel s = s\<lparr>ld_cancelled := True\<rparr>"
| "load_step CloseTokens s = (if ld_cancelled s then s\<lparr>ld_closed := True\<rparr> else s)"
| "load_step (Worker i p r) s = (if i < length (ld_workers s) then worker_step p r i s else s)"

section \<open>Specification\<close>

text \<open>How many steps of its own a worker is from its end, once the run is over, and which events are steps of it.\<close>

fun worker_rank :: "worker \<Rightarrow> nat" where
  "worker_rank Finished = 0"
| "worker_rank AtLoop = 1"
| "worker_rank AtWork = 2"
| "worker_rank AtLimit = 3"

definition steps_left :: "nat \<Rightarrow> load_state \<Rightarrow> nat" where
  "steps_left i s = (if i < length (ld_workers s) then worker_rank (ld_workers s ! i) else 0)"

fun turn_of :: "nat \<Rightarrow> load_event \<Rightarrow> nat" where
  "turn_of i (Worker j p r) = (if i = j then 1 else 0)"
| "turn_of i _ = 0"

definition worker_turns :: "nat \<Rightarrow> load_event list \<Rightarrow> nat" where
  "worker_turns i evs = sum_list (map (turn_of i) evs)"

text \<open>Tokens: those in the channel, those taken by workers at work, and those spent on recorded operations.\<close>

definition load_inv :: "load_state \<Rightarrow> bool" where
  "load_inv s \<longleftrightarrow>
     (case ld_limit s of
        None \<Rightarrow> True
      | Some n \<Rightarrow> ld_tokens s \<le> n
          \<and> ld_tokens s + count_list (ld_workers s) AtWork + length (sa_Latencies (ld_stats s)) \<le> ld_ticks s)"

text \<open>The request that a put of the load generator sends.\<close>

definition load_request :: "nat \<Rightarrow> string \<Rightarrow> string \<Rightarrow> http_request" where
  "load_request n value addr =
     \<lparr>rq_Method = MethodPost, rq_Path = ''/kv/'' @ load_key n, rq_Body = Inr (json_text (JObj [(''value'', JStr value)])),
      rq_RemoteAddr = addr\<rparr>"

definition sample_client :: "http_response \<Rightarrow> load_client" where
  "sample_client resp = \<lparr>lc_do = (\<lambda>_ _ _. Inr resp), lc_start = 0, lc_latency = 7, lc_error = (\<lambda>_. [])\<rparr>"

definition sample_result :: "int \<Rightarrow> Result" where
  "sample_result l = \<lparr>re_Op = ''GET'', re_Latency = l, re_Success = l < 100, re_Timestamp = 0, re_Error = []\<rparr>"

section \<open>Lemmas: sorting\<close>

lemma mset_swap [simp]: "i < length xs \<Longrightarrow> j < length xs \<Longrightarrow> mset (swap i j xs) = mset xs"
  by (simp add: swap_def mset_swap)

lemma sort_inner_mset: "i < length xs \<Longrightarrow> mset (sort_inner i j xs) = mset xs"
proof (induction i j xs rule: sort_inner.induct)
  case (1 i j xs)
  then show ?case
    by (subst sort_inner.simps) simp
qed

lemma sort_inner_prefix: "i < j \<Longrightarrow> k < i \<Longrightarrow> sort_inner i j xs ! k = xs ! k"
proof (induction i j xs rule: sort_inner.induct)
  case (1 i j xs)
  then show ?case
    by (subst sort_inner.simps) (simp add: swap_def)
qed

lemma sort_inner_least:
  "i < j \<Longrightarrow> i < length xs \<Longrightarrow> (\<And>k. i < k \<Longrightarrow> k < j \<Longrightarrow> k < length xs \<Longrightarrow> xs ! i \<le> xs ! k)
     \<Longrightarrow> i < k \<Longrightarrow> k < length xs \<Longrightarrow> sort_inner i j xs ! i \<le> sort_inner i j xs ! k"
proof (induction i j xs arbitrary: k rule: sort_inner.induct)
  case (1 i j xs)
  let ?ys = "if xs ! j < xs ! i then swap i j xs else xs"
  show ?case
  proof (cases "j < length xs")
    case True
    have "?ys ! i \<le> ?ys ! m" if "i < m" "m < Suc j" "m < length ?ys" for m
    proof (cases "m = j")
      case False
      then have "xs ! i \<le> xs ! m"
        using "1.prems"(3) [of m] that True by simp
      then show ?thesis
        using "1.prems"(1,2) True that False by (auto simp: swap_def)
    qed (use "1.prems"(1,2) True in \<open>auto simp: swap_def\<close>)
    then have "sort_inner i (Suc j) ?ys ! i \<le> sort_inner i (Suc j) ?ys ! k"
      using 1 True by (intro "1.IH") auto
    then show ?thesis
      using True by (subst (1 2) sort_inner.simps) simp
  next
    case False
    then show ?thesis
      using "1.prems" by (subst (1 2) sort_inner.simps) simp
  qed
qed

lemma sort_outer_sorted:
  assumes "\<And>k m. k < m \<Longrightarrow> k < i \<Longrightarrow> m < length xs \<Longrightarrow> xs ! k \<le> xs ! m"
  shows "sorted (sort_outer i xs) \<and> mset (sort_outer i xs) = mset xs"
  using assms
proof (induction i xs rule: sort_outer.induct)
  case (1 i xs)
  show ?case
  proof (cases "i < length xs")
    case True
    let ?ys = "sort_inner i (Suc i) xs"
    have ms: "mset ?ys = mset xs"
      using True by (rule sort_inner_mset)
    have below: "xs ! k \<le> ?ys ! m" if k: "k < i" and m: "i \<le> m" "m < length xs" for k m
    proof -
      have "mset (drop i ?ys) = mset (drop i xs)"
      proof -
        have "take i ?ys = take i xs"
          using True by (intro nth_equalityI) (auto simp: sort_inner_prefix)
        then show ?thesis
          using ms by (metis append_take_drop_id mset_append add_left_cancel)
      qed
      then have "set (drop i ?ys) = set (drop i xs)"
        by (rule mset_eq_setD)
      moreover have "?ys ! m \<in> set (drop i ?ys)"
        using m by (auto simp: in_set_conv_nth intro!: exI [of _ "m - i"])
      ultimately obtain l where "l < length xs - i" "?ys ! m = xs ! (i + l)"
        by (auto simp: in_set_conv_nth)
      then show ?thesis
        using "1.prems" [of k "i + l"] k by simp
    qed
    have "?ys ! k \<le> ?ys ! m" if "k < m" "k < Suc i" "m < length ?ys" for k m
    proof (cases "k = i")
      case True
      then show ?thesis
        using that sort_inner_least [of i "Suc i" xs m] by auto
    next
      case False
      then have "?ys ! k = xs ! k"
        using that by (intro sort_inner_prefix) auto
      moreover have "xs ! k \<le> ?ys ! m"
        using below [of k m] "1.prems" [of k m] that False sort_inner_prefix [of i "Suc i" m xs] by (cases "i \<le> m") auto
      ultimately show ?thesis
        by simp
    qed
    then have "sorted (sort_outer (Suc i) ?ys) \<and> mset (sort_outer (Suc i) ?ys) = mset ?ys"
      using True by (intro "1.IH") auto
    then show ?thesis
      using True ms by (subst (1 2) sort_outer.simps) simp
  next
    case False
    then show ?thesis
      using "1.prems" by (subst (1 2) sort_outer.simps) (simp add: sorted_iff_nth_mono_less)
  qed
qed

lemma sort_outer_sort: "sort_outer 0 xs = sort xs"
  using sort_outer_sorted [of 0 xs] by (metis properties_for_sort not_less_zero)

section \<open>Lemmas: statistics\<close>

lemma Record_counts:
  "sa_TotalOps (fold Stats_Record rs NewStats) = of_nat (length rs)"
  "sa_SuccessfulOps (fold Stats_Record rs NewStats) = of_nat (length (filter re_Success rs))"
  "sa_FailedOps (fold Stats_Record rs NewStats) = of_nat (length (filter (\<lambda>r. \<not> re_Success r) rs))"
  "sa_TotalLatency (fold Stats_Record rs NewStats) = of_int (sum_list (map re_Latency rs))"
  "sa_Latencies (fold Stats_Record rs NewStats) = map re_Latency rs"
  by (induction rs rule: rev_induct) (simp_all add: NewStats_def Stats_Record_def Let_def)

lemma Record_min_max:
  "sa_MinLatency (Stats_Record r s) = (if sa_MinLatency s = 0 \<or> re_Latency r < sa_MinLatency s then re_Latency r else sa_MinLatency s)"
  "sa_MaxLatency (Stats_Record r s) = max (sa_MaxLatency s) (re_Latency r)"
  by (simp_all add: Stats_Record_def Let_def max_def)

lemma Record_extremes:
  assumes "rs \<noteq> []" and "list_all (\<lambda>r. 0 < re_Latency r) rs"
  shows "sa_MinLatency (fold Stats_Record rs NewStats) = Min (re_Latency ` set rs)
    \<and> sa_MaxLatency (fold Stats_Record rs NewStats) = Max (re_Latency ` set rs)"
  using assms
proof (induction rs rule: rev_induct)
  case (snoc r rs)
  show ?case
  proof (cases "rs = []")
    case True
    then show ?thesis
      using snoc.prems by (simp add: Record_min_max) (simp add: NewStats_def)
  next
    case False
    then have IH: "sa_MinLatency (fold Stats_Record rs NewStats) = Min (re_Latency ` set rs)"
      "sa_MaxLatency (fold Stats_Record rs NewStats) = Max (re_Latency ` set rs)"
      using snoc by auto
    have pos: "0 < Min (re_Latency ` set rs)"
      using False snoc.prems by (simp add: list_all_iff)
    have new: "Min (re_Latency ` set (rs @ [r])) = min (re_Latency r) (Min (re_Latency ` set rs))"
      "Max (re_Latency ` set (rs @ [r])) = max (re_Latency r) (Max (re_Latency ` set rs))"
      using False by simp_all
    show ?thesis
      unfolding new using pos by (auto simp del: Min_gr_iff Max_less_iff Min_less_iff simp: Record_min_max IH)
  qed
qed simp

lemma GetPercentile_sort:
  assumes "sa_Latencies s \<noteq> []" and "0 \<le> index (length (sa_Latencies s))"
  shows "GetPercentile index s = Some (sort (sa_Latencies s) !
    min (nat (index (length (sa_Latencies s)))) (length (sa_Latencies s) - 1))"
proof -
  have "nat (int (length xs) - 1) = length xs - 1" for xs :: "int list"
    by linarith
  then show ?thesis
    using assms by (auto simp: GetPercentile_def Let_def sort_outer_sort min_def)
qed

lemma sort_nth_between:
  assumes "k < length xs"
  shows "Min (set xs) \<le> sort xs ! k" and "sort xs ! k \<le> Max (set xs)"
proof -
  have "sort xs ! k \<in> set xs"
    using assms nth_mem [of k "sort xs"] by simp
  then show "Min (set xs) \<le> sort xs ! k" "sort xs ! k \<le> Max (set xs)"
    by simp_all
qed

section \<open>Lemmas: workers\<close>

lemma count_list_update:
  "i < length xs \<Longrightarrow> count_list (xs[i := x]) y + (if xs ! i = y then 1 else 0) = count_list xs y + (if x = y then 1 else 0)"
proof (induction xs arbitrary: i)
  case (Cons z xs)
  show ?case
  proof (cases i)
    case (Suc k)
    then show ?thesis
      using Cons.IH [of k] Cons.prems by (cases "z = y") auto
  qed simp
qed simp

lemma load_inv_start: "load_inv (load_start qps n)"
  by (simp add: load_inv_def load_start_def NewStats_def)

lemma Latencies_Record [simp]: "sa_Latencies (Stats_Record r s) = sa_Latencies s @ [re_Latency r]"
  by (simp add: Stats_Record_def Let_def)

lemma load_limit_step [simp]: "ld_limit (load_step ev s) = ld_limit s"
  by (cases ev) (auto simp: Let_def worker_step_def split: worker.split)

lemma load_inv_step:
  assumes "load_inv s"
  shows "load_inv (load_step ev s)"
proof (cases ev)
  case (Worker i p r)
  show ?thesis
  proof (cases "i < length (ld_workers s)")
    case True
    note count = count_list_update [OF True, of _ AtWork]
    show ?thesis
      using assms True count [of AtLoop] count [of AtWork] count [of AtLimit] count [of Finished] Worker
      by (cases "ld_workers s ! i") (auto simp: load_inv_def worker_step_def Let_def split: option.splits)
  qed (use assms Worker in simp)
qed (use assms in \<open>auto simp: load_inv_def Let_def split: option.splits\<close>)

lemma load_steps_limit: "ld_limit (fold load_step evs s) = ld_limit s"
  by (induction evs arbitrary: s) simp_all

interpretation limiter: stepping load_step load_inv
  by unfold_locales (rule load_inv_step)

lemma load_workers_length [simp]: "length (ld_workers (load_step ev s)) = length (ld_workers s)"
  by (cases ev) (auto simp: Let_def worker_step_def split: worker.split)

lemma cancelled_step:
  assumes "ld_cancelled s"
  shows "ld_cancelled (load_step ev s)" and "steps_left i (load_step ev s) \<le> steps_left i s - turn_of i ev"
  using assms
  by (cases ev; auto simp: Let_def worker_step_def steps_left_def nth_list_update split: worker.split)+

interpretation cancelled: winding_down load_step ld_cancelled steps_left turn_of
  by unfold_locales (simp_all add: cancelled_step)

lemma load_steps_length [simp]: "length (ld_workers (fold load_step evs s)) = length (ld_workers s)"
  by (induction evs arbitrary: s) simp_all

section \<open>Lemmas: requests\<close>

lemma load_key_utf8: "valid_utf8 (load_key n)"
  using int_lit_dec [of n]
  by (intro ascii_valid_utf8) (auto simp: load_key_def int_lit_def ascii_str_def list_all_iff is_digit_def byte_val_def)

lemma charset_ascii: "list_all (\<lambda>c. byte_val c < 0x80) charset" and length_charset: "length charset = 62"
  by (simp_all add: charset_def byte_val_def)

lemma generated_utf8:
  assumes "\<forall>i < n. pick i < 62"
  shows "valid_utf8 (generateValue pick n)"
proof -
  have "byte_val (charset ! pick i) < 0x80" if "i < n" for i
    using assms that charset_ascii length_charset by (auto simp: list_all_length)
  then show ?thesis
    by (intro ascii_valid_utf8) (auto simp: ascii_str_def generateValue_def list_all_iff)
qed

lemma load_put_served:
  assumes "can_propose L i (entry_data (load_key n) value) rn" and "kv_ok (rn_store rn)" and "valid_utf8 value"
  obtains rn' where "API_serve L lib time (loop_wait L C [next_entry t (entry_data (load_key n) value) rn]) i clock
        (load_request n value addr) rn
      = Some (json_reply (JObj [(''key'', JStr (load_key n)), (''status'', JStr ''ok'')]), rn')"
    and "kv_lookup (rn_store rn') = (kv_lookup (rn_store rn))(load_key n \<mapsto> value)"
proof -
  let ?r = "load_request n value addr"
  have body: "rq_Body ?r = Inr (json_text (JObj [(''value'', JStr value)]))"
    by (simp add: load_request_def)
  have serve: "API_serve L lib time w i clock ?r rn = handlePut L lib w i clock ?r (load_key n) rn" for w
    by (simp add: API_serve_def handleKV_def load_request_def http_methods Let_def load_key_def)
  show ?thesis
    using handlePut_next [OF assms(1,2) load_key_utf8 unmarshal_put_text [OF assms(3)] body, where C = C] that
    unfolding serve by metis
qed

section \<open>Properties\<close>



text \<open>C30: The limiter holds. In every interleaving of ticks, workers and the end of the run, the channel never holds more
  tokens than the rate, and no more operations have been recorded, nor are under way, than the ticker has ticked.\<close>

theorem rate_limited:
  assumes "0 < qps"
  shows "ld_tokens (fold load_step evs (load_start qps n)) \<le> nat qps
    \<and> length (sa_Latencies (ld_stats (fold load_step evs (load_start qps n))))
        + count_list (ld_workers (fold load_step evs (load_start qps n))) AtWork
        \<le> ld_ticks (fold load_step evs (load_start qps n))"
  using limiter.run_inv [OF load_inv_start, of evs qps n] load_steps_limit [of evs "load_start qps n"] assms
  by (simp add: load_inv_def load_start_def split: option.splits)

theorem rate_limited_witness:
  "length (sa_Latencies (ld_stats (fold load_step
     [Worker 0 True (sample_result 5), Tick, Worker 0 True (sample_result 5), Worker 0 True (sample_result 5),
      Worker 0 True (sample_result 5), Worker 0 True (sample_result 5)] (load_start 2 1)))) \<le> 1"
proof -
  let ?w = "Worker 0 True (sample_result 5)"
  have "ld_ticks (fold load_step [?w, Tick, ?w, ?w, ?w, ?w] (load_start 2 1)) = 1"
    by (simp add: load_start_def worker_step_def)
  with rate_limited [of 2 "[?w, Tick, ?w, ?w, ?w, ?w]" 1] show ?thesis
    by linarith
qed

text \<open>The run ends. Once it is cancelled, every worker that goes on three more times has returned, whatever the other
  workers, the ticker and the limiter do in between, so \<open>main\<close> gets past its wait for them.\<close>

theorem workers_finish:
  assumes "\<forall>i < length (ld_workers s). 3 \<le> worker_turns i evs"
  shows "list_all (\<lambda>w. w = Finished) (ld_workers (fold load_step (Cancel # evs) s))"
proof -
  have "ld_workers (fold load_step evs (load_step Cancel s)) ! i = Finished" if i: "i < length (ld_workers s)" for i
  proof -
    have "steps_left i (load_step Cancel s) \<le> 3"
      by (cases "ld_workers s ! i") (simp_all add: steps_left_def)
    then have "steps_left i (fold load_step evs (load_step Cancel s)) = 0"
      using assms i by (intro cancelled.run_stops) (auto simp: worker_turns_def)
    then show ?thesis
      using i by (cases "ld_workers (fold load_step evs (load_step Cancel s)) ! i") (simp_all add: steps_left_def)
  qed
  then show ?thesis
    by (simp add: list_all_length)
qed

theorem workers_finish_witness:
  "list_all (\<lambda>w. w = Finished) (ld_workers (fold load_step
     (Cancel # [Worker 0 True (sample_result 5), Worker 1 False (sample_result 5), Tick, Worker 0 True (sample_result 5),
        Worker 1 True (sample_result 5), CloseTokens, Worker 0 True (sample_result 5), Worker 1 True (sample_result 5)])
     (load_start 2 2)))"
  by (rule workers_finish) (auto simp: load_start_def less_Suc_eq numeral_2_eq_2 worker_turns_def)

text \<open>A put of the load generator against a leader: the server decodes the generated value from its request, and when the
  proposal is the next entry applied, the load generator counts a success and the store holds the value under the key.\<close>

theorem load_put_applied:
  assumes "can_propose L i (entry_data (load_key n) value) rn" and "kv_ok (rn_store rn)"
    and "\<forall>j < size_of_value. pick j < 62" and "value = generateValue pick size_of_value"
    and "API_serve L lib time (loop_wait L C [next_entry t (entry_data (load_key n) value) rn]) i clock
           (load_request n value addr) rn = Some (resp, rn')"
    and "lc_do c MethodPost (url @ rq_Path (load_request n value addr)) (projr (rq_Body (load_request n value addr))) = Inr resp"
  shows "re_Success (doPut c [url] n k value) \<and> kv_lookup (rn_store rn') (load_key n) = Some value"
proof -
  have v: "valid_utf8 value"
    using generated_utf8 [OF assms(3)] assms(4) by simp
  obtain rn2 where "API_serve L lib time (loop_wait L C [next_entry t (entry_data (load_key n) value) rn]) i clock
        (load_request n value addr) rn
      = Some (json_reply (JObj [(''key'', JStr (load_key n)), (''status'', JStr ''ok'')]), rn2)"
    "kv_lookup (rn_store rn2) = (kv_lookup (rn_store rn))(load_key n \<mapsto> value)"
    by (rule load_put_served [OF assms(1,2) v])
  then have resp: "resp = json_reply (JObj [(''key'', JStr (load_key n)), (''status'', JStr ''ok'')])"
    and kv: "kv_lookup (rn_store rn') = (kv_lookup (rn_store rn))(load_key n \<mapsto> value)"
    using assms(5) by simp_all
  have "lc_do c MethodPost (url @ ''/kv/'' @ load_key n) (json_text (JObj [(''value'', JStr value)])) = Inr resp"
    using assms(6) by (simp add: load_request_def del: json_text.simps)
  then have "re_Success (doPut c [url] n k value)"
    by (simp add: doPut_def selectURL_def client_result_def resp json_reply_def del: json_text.simps)
  then show ?thesis
    by (simp add: kv)
qed

theorem load_put_applied_witness:
  "\<exists>resp rn'. re_Success (doPut (sample_client resp) [''http://kv-0:8080''] 4 0 (generateValue (\<lambda>_. 1) 2))
     \<and> kv_lookup (rn_store (rn' :: unit RaftNode)) (load_key 4) = Some ''bb''"
proof -
  have val: "generateValue (\<lambda>_. 1) 2 = ''bb''"
    by (simp add: generateValue_def charset_def upt_rec)
  let ?resp = "json_reply (JObj [(''key'', JStr (load_key 4)), (''status'', JStr ''ok'')])"
  have "valid_utf8 ''bb''"
    by (simp add: byte_val_def)
  then obtain rn' where "API_serve sample_lib (\<lambda>_. []) (\<lambda>_. [])
      (loop_wait sample_lib sample_codec [next_entry 1 (entry_data (load_key 4) ''bb'') sample_node]) 3 (\<lambda>_. 0)
      (load_request 4 ''bb'' []) sample_node
      = Some (json_reply (JObj [(''key'', JStr (load_key 4)), (''status'', JStr ''ok'')]), rn')"
    by (rule load_put_served [OF sample_can_propose])
  from load_put_applied [OF sample_can_propose _ val [symmetric] this, where c = "sample_client ?resp" and url = "''http://kv-0:8080''" and k = 0]
  have "re_Success (doPut (sample_client ?resp) [''http://kv-0:8080''] 4 0 ''bb'') \<and> kv_lookup (rn_store rn') (load_key 4) = Some ''bb''"
    by (simp add: sample_client_def)
  then show ?thesis
    unfolding val by blast
qed

end
