(* ===== verification/Go_JSON_Indent.thy ===== *)
theory Go_JSON_Indent
  imports Go_JSON
begin

text \<open>
  \<open>json.MarshalIndent\<close> with no prefix and two spaces: the indented text of a JSON value, and that it reads back as the value.
  Numbers are all literals of the JSON grammar, with sign, fraction and exponent. Empty arrays and objects stay on one line.
\<close>

section \<open>Indented encoder\<close>

definition new_line :: "nat \<Rightarrow> string" where
  "new_line k = CHR 0x0A # replicate (2 * k) (CHR '' '')"

fun json_indent :: "nat \<Rightarrow> json \<Rightarrow> string" where
  "json_indent k (JArr vs) =
     (if vs = [] then ''[]''
      else CHR ''['' # join_with (CHR '','') (map (\<lambda>v. new_line (Suc k) @ json_indent (Suc k) v) vs) @ new_line k @ '']'')"
| "json_indent k (JObj kvs) =
     (if kvs = [] then ''{}''
      else CHR ''{'' # join_with (CHR '','')
        (map (\<lambda>kv. new_line (Suc k) @ json_quote (fst kv) @ '': '' @ json_indent (Suc k) (snd kv)) kvs) @ new_line k @ ''}'')"
| "json_indent k v = json_text v"

definition MarshalIndent :: "json \<Rightarrow> bytes" where
  "MarshalIndent v = json_indent 0 v"

section \<open>Specification\<close>

text \<open>The literals of numbers, and the values made of them and of valid strings.\<close>

definition num_lit :: "string \<Rightarrow> bool" where
  "num_lit l \<longleftrightarrow> parse_num l = Some (JNum l, [])"

fun json_wf :: "json \<Rightarrow> bool" where
  "json_wf (JNum l) = num_lit l"
| "json_wf (JStr s) = valid_utf8 s"
| "json_wf (JArr vs) = list_all json_wf vs"
| "json_wf (JObj kvs) = list_all (\<lambda>kv. valid_utf8 (fst kv) \<and> json_wf (snd kv)) kvs"
| "json_wf _ = True"

text \<open>A text reads as a value, after white space and before what may follow a number.\<close>

definition reads_as :: "string \<Rightarrow> json \<Rightarrow> bool" where
  "reads_as t v \<longleftrightarrow>
     (\<forall>d n w r. json_depth v \<le> d \<longrightarrow> length t \<le> n \<longrightarrow> list_all is_ws w \<longrightarrow> num_end r
        \<longrightarrow> parse_val d n (w @ t @ r) = Some (v, r))"

definition indented_member :: "nat \<Rightarrow> string \<times> json \<Rightarrow> string" where
  "indented_member k kv = new_line k @ json_quote (fst kv) @ '': '' @ json_indent k (snd kv)"

section \<open>Lemmas: number literals\<close>

lemma take_digits_ended: "num_end r \<Longrightarrow> take_digits (s @ r) = apsnd (\<lambda>t. t @ r) (take_digits s)"
  by (induction s) (cases r; auto simp: take_digits_def num_end_def)+

lemma num_int_ended: "num_int s = Some (i, t) \<Longrightarrow> num_end r \<Longrightarrow> num_int (s @ r) = Some (i, t @ r)"
  using take_digits_ended [of r s]
  by (cases s) (auto simp: num_int_def begins_with_def take_digits_def [of "[]"] split: if_splits prod.splits)

lemma num_frac_ended: "num_frac s = Some (f, t) \<Longrightarrow> num_end r \<Longrightarrow> num_frac (s @ r) = Some (f, t @ r)"
  using take_digits_ended [of r "tl s"] num_end_frac_exp [of r]
  by (cases s) (auto simp: num_frac_def begins_with_def split: if_splits prod.splits)

lemma num_exp_ended:
  assumes "num_exp s = Some (e, t)" and "num_end r"
  shows "num_exp (s @ r) = Some (e, t @ r)"
proof (cases s)
  case Nil
  then show ?thesis
    using assms num_end_frac_exp [of r] by (simp add: num_exp_def)
next
  case (Cons c s')
  then show ?thesis
    using assms take_digits_ended [OF assms(2), of s'] take_digits_ended [OF assms(2), of "tl s'"]
    by (cases s') (auto simp: num_exp_def begins_with_def Let_def take_digits_def [of "[]"] split: if_splits prod.splits)
qed

lemma parse_num_ended:
  assumes "parse_num s = Some (v, t)" and "num_end r"
  shows "parse_num (s @ r) = Some (v, t @ r)"
proof -
  let ?g = "if begins_with (CHR ''-'') s then ''-'' else []"
  from assms(1) obtain i f e r1 r2 where p: "num_int (drop (length ?g) s) = Some (i, r1)" "num_frac r1 = Some (f, r2)"
    "num_exp r2 = Some (e, t)" "v = JNum (?g @ i @ f @ e)"
    by (auto simp: parse_num_def Let_def split: option.splits prod.splits)
  have "s \<noteq> []"
    using p(1) by (auto simp: num_int_def begins_with_def take_digits_def)
  then have "begins_with (CHR ''-'') (s @ r) = begins_with (CHR ''-'') s" "drop (length ?g) (s @ r) = drop (length ?g) s @ r"
    by (cases s; simp add: begins_with_def)+
  then show ?thesis
    using assms(2) num_int_ended [OF p(1)] num_frac_ended [OF p(2)] num_exp_ended [OF p(3)] p(4)
    by (simp add: parse_num_def Let_def)
qed

lemma num_lit_head:
  assumes "num_lit l"
  obtains c l' where "l = c # l'" and "c = CHR ''-'' \<or> is_digit c"
proof (cases l)
  case (Cons c l')
  have "num_int (c # l') = None" if "\<not> is_digit c"
    using that by (auto simp: num_int_def begins_with_def take_digits_def)
  then show ?thesis
    using that Cons assms by (fastforce simp: num_lit_def parse_num_def begins_with_def)
qed (use assms in \<open>simp add: num_lit_def parse_num_def num_int_def begins_with_def take_digits_def\<close>)

lemma num_lit_head_lits:
  assumes "num_lit l"
  obtains c l' where "l = c # l'" and "\<not> is_ws c" and "c \<notin> {CHR ''n'', CHR ''t'', CHR ''f'', CHR ''{'', CHR ''['', quote_char, CHR '']''}"
proof -
  obtain c l' where "l = c # l'" "c = CHR ''-'' \<or> is_digit c"
    using assms by (rule num_lit_head)
  then show ?thesis
    using that [of c l'] digit_not_lit [of c] by (auto simp: is_ws_def byte_val_def quote_char_def)
qed

lemma parse_lit_num:
  assumes "num_lit l" and "num_end r"
  shows "parse_lit (l @ r) = Some (JNum l, r)"
proof -
  obtain c l' where "l = c # l'" "c \<notin> {CHR ''n'', CHR ''t'', CHR ''f'', CHR ''{'', CHR ''['', quote_char, CHR '']''}"
    using assms(1) by (rule num_lit_head_lits)
  moreover have "parse_num (l @ r) = Some (JNum l, r)"
    using parse_num_ended [OF assms(1) [unfolded num_lit_def] assms(2)] by simp
  ultimately show ?thesis
    by (simp add: parse_lit_def)
qed

lemma num_lit_nat: "int_lit l \<Longrightarrow> num_lit l" and num_lit_minus: "int_lit l \<Longrightarrow> num_lit (CHR ''-'' # l)"
proof -
  assume l: "int_lit l"
  have n: "parse_num l = Some (JNum l, [])"
    using parse_num_int_lit [OF l, of "[]"] by simp
  then show "num_lit l"
    by (simp add: num_lit_def)
  from l obtain x l' where "l = x # l'" "is_digit x"
    by (cases l) (auto simp: int_lit_def)
  then have "\<not> begins_with (CHR ''-'') l"
    by (auto simp: begins_with_def)
  then show "num_lit (CHR ''-'' # l)"
    using n by (auto simp: num_lit_def parse_num_def begins_with_def Let_def split: option.splits prod.splits)
qed

lemma num_lit_show_int: "num_lit (show_int n)"
  by (simp add: show_int_def num_lit_nat num_lit_minus int_lit_dec)

section \<open>Lemmas: white space\<close>

lemma skip_ws_append: "list_all is_ws w \<Longrightarrow> skip_ws (w @ s) = skip_ws s"
  by (simp add: skip_ws_def list_all_iff dropWhile_append1)

lemma new_line_ws [simp]: "list_all is_ws (new_line k)"
  by (simp add: new_line_def list_all_iff is_ws_def byte_val_def)

lemma parse_val_ws: "list_all is_ws w \<Longrightarrow> parse_val d n (w @ s) = parse_val d n s"
  by (cases n) (simp_all add: skip_ws_append)

lemma num_end_new_line [simp]: "num_end (new_line k @ s)"
  by (simp add: new_line_def)

lemma reads_asD:
  "reads_as t v \<Longrightarrow> json_depth v \<le> d \<Longrightarrow> length t \<le> n \<Longrightarrow> list_all is_ws w \<Longrightarrow> num_end r
    \<Longrightarrow> parse_val d n (w @ t @ r) = Some (v, r)"
  by (simp add: reads_as_def)

section \<open>Lemmas: arrays and objects\<close>

lemma parse_elems_indent:
  assumes "vs \<noteq> []" and "\<forall>v \<in> set vs. reads_as (json_indent k v) v \<and> json_depth v \<le> d"
    and "length (join_with (CHR '','') (map (\<lambda>v. new_line k @ json_indent k v) vs)) < n"
  shows "parse_elems d n (join_with (CHR '','') (map (\<lambda>v. new_line k @ json_indent k v) vs) @ new_line j @ CHR '']'' # r)
    = Some (vs, r)"
  using assms
proof (induction vs arbitrary: n rule: list_nonempty_induct)
  case (single v)
  then obtain m where n: "n = Suc m" "length (json_indent k v) \<le> m"
    by (cases n) auto
  with single have "parse_val d m (new_line k @ json_indent k v @ new_line j @ CHR '']'' # r) = Some (v, new_line j @ CHR '']'' # r)"
    by (intro reads_asD) simp_all
  with n show ?case
    by (simp add: skip_ws_append skip_ws_Cons)
next
  case (cons v vs)
  let ?ts = "map (\<lambda>v. new_line k @ json_indent k v) vs"
  let ?t = "join_with (CHR '','') ?ts @ new_line j @ CHR '']'' # r"
  from cons have join: "join_with (CHR '','') (map (\<lambda>v. new_line k @ json_indent k v) (v # vs))
      = (new_line k @ json_indent k v) @ CHR '','' # join_with (CHR '','') ?ts"
    by (cases vs) simp_all
  from cons.prems obtain m where n: "n = Suc m" "length (json_indent k v) \<le> m" "length (join_with (CHR '','') ?ts) < m"
    unfolding join by (cases n) auto
  with cons.prems have "parse_val d m (new_line k @ json_indent k v @ CHR '','' # ?t) = Some (v, CHR '','' # ?t)"
    by (intro reads_asD) simp_all
  moreover have "parse_elems d m ?t = Some (vs, r)"
    using cons n by simp
  ultimately show ?case
    unfolding join using n(1) by (simp add: skip_ws_Cons)
qed

lemma indented_member_eq:
  "indented_member k kv
     = new_line k @ quote_char # concat (map esc_rune (runes (fst kv))) @ quote_char # CHR '':'' # '' '' @ json_indent k (snd kv)"
  by (simp add: indented_member_def json_quote_def)

lemma skip_to_member:
  "skip_ws (indented_member k kv @ s)
     = quote_char # concat (map esc_rune (runes (fst kv))) @ quote_char # CHR '':'' # '' '' @ json_indent k (snd kv) @ s"
  by (simp add: indented_member_eq skip_ws_append skip_ws_Cons)

lemma parse_indented_member:
  assumes "valid_utf8 (fst kv)" and "reads_as (json_indent k (snd kv)) (snd kv)" and "json_depth (snd kv) \<le> d"
    and "length (indented_member k kv) \<le> n" and "num_end s"
  shows "parse_members d (Suc n) (indented_member k kv @ s)
    = (case skip_ws s of
         [] \<Rightarrow> None
       | c # s2 \<Rightarrow>
           if c = CHR '','' then map_option (apfst ((#) kv)) (parse_members d n s2)
           else if c = CHR ''}'' then Some ([kv], s2)
           else None)"
proof -
  have "parse_val d n ('' '' @ json_indent k (snd kv) @ s) = Some (snd kv, s)"
    using assms by (intro reads_asD) (simp_all add: indented_member_def is_ws_def)
  then show ?thesis
    using parse_str_json_quote [OF assms(1), of "CHR '':'' # '' '' @ json_indent k (snd kv) @ s"]
    by (cases "skip_ws s") (simp_all add: skip_to_member begins_with_def skip_ws_Cons del: parse_val.simps)
qed

lemma parse_members_indent:
  assumes "kvs \<noteq> []"
    and "\<forall>kv \<in> set kvs. valid_utf8 (fst kv) \<and> reads_as (json_indent k (snd kv)) (snd kv) \<and> json_depth (snd kv) \<le> d"
    and "length (join_with (CHR '','') (map (indented_member k) kvs)) < n"
  shows "parse_members d n (join_with (CHR '','') (map (indented_member k) kvs) @ new_line j @ CHR ''}'' # r) = Some (kvs, r)"
  using assms
proof (induction kvs arbitrary: n rule: list_nonempty_induct)
  case (single kv)
  then obtain m where "n = Suc m" "length (indented_member k kv) \<le> m"
    by (cases n) auto
  with single show ?case
    by (simp add: parse_indented_member skip_ws_append skip_ws_Cons del: parse_members.simps)
next
  case (cons kv kvs)
  let ?t = "join_with (CHR '','') (map (indented_member k) kvs) @ new_line j @ CHR ''}'' # r"
  from cons have join: "join_with (CHR '','') (map (indented_member k) (kv # kvs))
      = indented_member k kv @ CHR '','' # join_with (CHR '','') (map (indented_member k) kvs)"
    by (cases kvs) simp_all
  from cons.prems obtain m where n: "n = Suc m" "length (indented_member k kv) \<le> m"
    "length (join_with (CHR '','') (map (indented_member k) kvs)) < m"
    unfolding join by (cases n) auto
  moreover have "parse_members d m ?t = Some (kvs, r)"
    using cons n by simp
  ultimately show ?case
    unfolding join using cons.prems by (simp add: parse_indented_member skip_ws_Cons del: parse_members.simps)
qed

lemma json_indent_head:
  assumes "json_wf v"
  shows "\<exists>c t. json_indent k v = c # t \<and> \<not> is_ws c \<and> c \<noteq> CHR '']''"
proof (cases v)
  case (JNum l)
  with assms show ?thesis
    by (auto elim: num_lit_head_lits)
qed (auto simp: json_quote_def)

lemma join_new_lines:
  "xs \<noteq> [] \<Longrightarrow> \<exists>x t. x \<in> set xs \<and> join_with sep (map (\<lambda>x. new_line k @ f x) xs) = new_line k @ f x @ t"
  by (cases xs; cases "tl xs") auto

lemma reads_as_JArr:
  assumes "\<And>v. v \<in> set vs \<Longrightarrow> json_wf v \<and> reads_as (json_indent (Suc k) v) v"
  shows "reads_as (json_indent k (JArr vs)) (JArr vs)"
  unfolding reads_as_def
proof (intro allI impI)
  fix d n w r
  assume d: "json_depth (JArr vs) \<le> d" and n: "length (json_indent k (JArr vs)) \<le> n" and "list_all is_ws w"
  then have w: "parse_val d n (w @ s) = parse_val d n s" for s
    by (simp add: parse_val_ws)
  from d n obtain d' m where dm: "d = Suc d'" "n = Suc m"
    by (cases "vs = []") (auto dest!: Suc_le_D)
  show "parse_val d n (w @ json_indent k (JArr vs) @ r) = Some (JArr vs, r)"
  proof (cases "vs = []")
    case True
    with dm show ?thesis
      unfolding w by (simp add: skip_ws_Cons begins_with_def)
  next
    case False
    let ?t = "join_with (CHR '','') (map (\<lambda>v. new_line (Suc k) @ json_indent (Suc k) v) vs)"
    obtain v t where "v \<in> set vs" "?t = new_line (Suc k) @ json_indent (Suc k) v @ t"
      using join_new_lines [OF False] by metis
    then have "\<not> begins_with (CHR '']'') (skip_ws (?t @ s))" for s
      using assms json_indent_head [of v "Suc k"] by (auto simp: skip_ws_append skip_ws_Cons begins_with_def)
    moreover have "parse_elems d' m (?t @ new_line k @ CHR '']'' # r) = Some (vs, r)"
      using assms d n dm False by (intro parse_elems_indent) (auto simp: foldr_max_le_iff)
    ultimately show ?thesis
      unfolding w using dm False by (simp add: skip_ws_Cons)
  qed
qed

lemma json_indent_JObj:
  "kvs \<noteq> [] \<Longrightarrow> json_indent k (JObj kvs)
     = CHR ''{'' # join_with (CHR '','') (map (indented_member (Suc k)) kvs) @ new_line k @ ''}''"
  by (simp add: indented_member_def [abs_def])

lemma reads_as_JObj:
  assumes "\<And>kv. kv \<in> set kvs \<Longrightarrow> valid_utf8 (fst kv) \<and> reads_as (json_indent (Suc k) (snd kv)) (snd kv)"
  shows "reads_as (json_indent k (JObj kvs)) (JObj kvs)"
  unfolding reads_as_def
proof (intro allI impI)
  fix d n w r
  assume d: "json_depth (JObj kvs) \<le> d" and n: "length (json_indent k (JObj kvs)) \<le> n" and "list_all is_ws w"
  then have w: "parse_val d n (w @ s) = parse_val d n s" for s
    by (simp add: parse_val_ws)
  from d n obtain d' m where dm: "d = Suc d'" "n = Suc m"
    by (cases "kvs = []") (auto dest!: Suc_le_D)
  show "parse_val d n (w @ json_indent k (JObj kvs) @ r) = Some (JObj kvs, r)"
  proof (cases "kvs = []")
    case True
    with dm show ?thesis
      unfolding w by (simp add: skip_ws_Cons begins_with_def)
  next
    case False
    let ?t = "join_with (CHR '','') (map (indented_member (Suc k)) kvs)"
    have "\<exists>t. ?t = indented_member (Suc k) (hd kvs) @ t"
      using False by (cases kvs; cases "tl kvs") simp_all
    then have "\<not> begins_with (CHR ''}'') (skip_ws (?t @ s))" for s
      by (auto simp: skip_to_member begins_with_def)
    moreover have "parse_members d' m (?t @ new_line k @ CHR ''}'' # r) = Some (kvs, r)"
      using assms d n [unfolded json_indent_JObj [OF False]] dm False
      by (intro parse_members_indent) (auto simp: foldr_max_le_iff)
    ultimately show ?thesis
      unfolding w json_indent_JObj [OF False] using dm by (simp add: skip_ws_Cons)
  qed
qed

section \<open>The indented text reads back\<close>

lemma reads_as_num:
  assumes "num_lit l"
  shows "reads_as l (JNum l)"
proof -
  obtain c l' where "l = c # l'" "\<not> is_ws c" "c \<notin> {CHR ''n'', CHR ''t'', CHR ''f'', CHR ''{'', CHR ''['', quote_char, CHR '']''}"
    using assms by (rule num_lit_head_lits)
  with parse_lit_num [OF assms] show ?thesis
    by (auto simp: reads_as_def skip_ws_append skip_ws_Cons dest!: Suc_le_D)
qed

lemma reads_as_indent: "json_wf v \<Longrightarrow> reads_as (json_indent k v) v"
proof (induction k v rule: json_indent.induct)
  case (1 k vs)
  then show ?case
    by (intro reads_as_JArr) (cases vs; auto simp: list_all_iff)
next
  case (2 k kvs)
  then show ?case
    by (intro reads_as_JObj) (cases kvs; auto simp: list_all_iff)
qed (simp_all add: reads_as_num, auto simp: reads_as_def skip_ws_append skip_ws_Cons parse_lit_def json_quote_def
    parse_str_json_quote dest!: Suc_le_D)

lemma Unmarshal_MarshalIndent:
  assumes "json_wf v" and "json_depth v \<le> maxNestingDepth"
  shows "json_unmarshal (MarshalIndent v) = Some v"
  using reads_asD [OF reads_as_indent [OF assms(1), of 0] assms(2), of "Suc (2 * length (json_indent 0 v))" "[]" "[]"]
  by (simp add: json_unmarshal_def json_decode_def MarshalIndent_def del: parse_val.simps)

end
