(* ===== verification/LoadReport.thy ===== *)
theory LoadReport
  imports LoadGen Go_JSON_Indent Go_OS
begin

text \<open>
  \<open>test/bench/loadgen.go\<close>, continued: the progress reporter, the report, the results file and \<open>main\<close>. A run is a sequence of
  events: the steps of the workers and the limiter of \<open>LoadGen\<close>, an interrupt, and the turns of the reporter. A panic in any
  goroutine ends the process. The floating-point numbers \<open>'f\<close> with their printers are an argument.
\<close>

section \<open>Numbers\<close>

text \<open>
  The operations on \<open>float64\<close> that the program uses: conversions, multiplication and division, \<open>%.nf\<close>, the literal in JSON
  (\<open>None\<close> for a NaN or an infinity, which \<open>encoding/json\<close> refuses), and for a \<open>time.Duration\<close> its \<open>Seconds\<close> and its text.
\<close>

record 'f float_lib =
  fl_of_int :: "int \<Rightarrow> 'f"
  fl_trunc :: "'f \<Rightarrow> int"
  fl_mul :: "'f \<Rightarrow> 'f \<Rightarrow> 'f"
  fl_div :: "'f \<Rightarrow> 'f \<Rightarrow> 'f"
  fl_fixed :: "nat \<Rightarrow> 'f \<Rightarrow> string"
  fl_json :: "'f \<Rightarrow> string option"
  fl_seconds :: "int \<Rightarrow> 'f"
  fl_duration :: "int \<Rightarrow> string"
  fl_error :: "goerr \<Rightarrow> string"

definition load_max :: "i64 \<Rightarrow> i64 \<Rightarrow> i64" where
  "load_max a b = (if sint b < sint a then a else b)"

text \<open>Division of 64-bit integers truncates; the divisor is positive wherever the program divides.\<close>

definition div64 :: "i64 \<Rightarrow> i64 \<Rightarrow> i64" where
  "div64 a b = word_of_int (sint a sdiv sint b)"

text \<open>\<open>int(float64(n) * p / 100.0)\<close>.\<close>

definition percentile_index :: "'f float_lib \<Rightarrow> int \<Rightarrow> nat \<Rightarrow> int" where
  "percentile_index F p n = fl_trunc F (fl_div F (fl_mul F (fl_of_int F (int n)) (fl_of_int F p)) (fl_of_int F 100))"

section \<open>Progress\<close>

text \<open>The goroutine of the reporter: before its start, in its loop with \<open>lastOps\<close> and \<open>lastTime\<close>, and after its end.\<close>

datatype reporter = NotStarted | Reporting i64 int | Stopped

definition progress_line :: "'f float_lib \<Rightarrow> int \<Rightarrow> i64 \<Rightarrow> int \<Rightarrow> Stats \<Rightarrow> string" where
  "progress_line F now lastOps lastTime s =
     (let currentOps = sa_TotalOps s;
          currentQPS = fl_div F (fl_of_int F (sint (currentOps - lastOps))) (fl_seconds F (now - lastTime)) in
      ''Progress: '' @ show_int (sint currentOps) @ '' ops, '' @ fl_fixed F 1 currentQPS @ '' QPS, ''
      @ show_int (sint (sa_SuccessfulOps s)) @ '' successes, '' @ show_int (sint (sa_FailedOps s)) @ '' failures'')"

section \<open>Report\<close>

definition out_line :: "string \<Rightarrow> string" where
  "out_line s = s @ [CHR 0x0A]"

definition percent :: "'f float_lib \<Rightarrow> i64 \<Rightarrow> i64 \<Rightarrow> string" where
  "percent F part whole =
     fl_fixed F 2 (fl_mul F (fl_div F (fl_of_int F (sint part)) (fl_of_int F (sint whole))) (fl_of_int F 100))"

text \<open>The three percentiles; \<open>None\<close> is a panic.\<close>

definition percentiles :: "'f float_lib \<Rightarrow> Stats \<Rightarrow> (int \<times> int \<times> int) option" where
  "percentiles F s =
     (case (GetPercentile (percentile_index F 50) s, GetPercentile (percentile_index F 95) s,
            GetPercentile (percentile_index F 99) s) of
        (Some p50, Some p95, Some p99) \<Rightarrow> Some (p50, p95, p99)
      | _ \<Rightarrow> None)"

definition printFinalResults :: "'f float_lib \<Rightarrow> Stats \<Rightarrow> 'f LoadConfig \<Rightarrow> string option" where
  "printFinalResults F s c =
     (let totalOps = sa_TotalOps s;
          head = [CHR 0x0A] @ out_line ''=== FINAL RESULTS ===''
            @ out_line (''Total operations: '' @ show_int (sint totalOps))
            @ out_line (''Successful: '' @ show_int (sint (sa_SuccessfulOps s)) @ '' ('' @ percent F (sa_SuccessfulOps s) totalOps @ ''%)'')
            @ out_line (''Failed: '' @ show_int (sint (sa_FailedOps s)) @ '' ('' @ percent F (sa_FailedOps s) totalOps @ ''%)'')
            @ out_line (''Actual QPS: '' @ fl_fixed F 2 (fl_div F (fl_of_int F (sint totalOps)) (fl_seconds F (lg_Duration c))))
            @ out_line [] in
      if 0 < sint totalOps then
        map_option (\<lambda>(p50, p95, p99).
          head
          @ out_line (''Average latency: '' @ fl_duration F (sint (div64 (sa_TotalLatency s) totalOps)))
          @ out_line (''Min latency: '' @ fl_duration F (sa_MinLatency s))
          @ out_line (''Max latency: '' @ fl_duration F (sa_MaxLatency s))
          @ out_line (''P50 latency: '' @ fl_duration F p50)
          @ out_line (''P95 latency: '' @ fl_duration F p95)
          @ out_line (''P99 latency: '' @ fl_duration F p99)) (percentiles F s)
      else Some head)"

text \<open>The results as JSON, the keys of each map in order. \<open>duration\<close> and \<open>ratio\<close> are the literals of the two floats.\<close>

definition json_int :: "int \<Rightarrow> json" where
  "json_int n = JNum (show_int n)"

definition average_latency :: "Stats \<Rightarrow> i64" where
  "average_latency s = div64 (sa_TotalLatency s) (load_max (sa_TotalOps s) 1)"

definition results_json :: "string \<Rightarrow> string \<Rightarrow> 'f LoadConfig \<Rightarrow> Stats \<Rightarrow> int \<times> int \<times> int \<Rightarrow> json" where
  "results_json duration ratio c s ps =
     JObj [(''config'', JObj
         [(''duration'', JNum duration), (''key_space'', json_int (lg_KeySpace c)), (''qps'', json_int (lg_QPS c)),
          (''read_ratio'', JNum ratio), (''workers'', json_int (lg_Workers c))]),
       (''stats'', JObj
         [(''avg_latency_ns'', json_int (sint (average_latency s))), (''failed_ops'', json_int (sint (sa_FailedOps s))),
          (''max_latency_ns'', json_int (sa_MaxLatency s)), (''min_latency_ns'', json_int (sa_MinLatency s)),
          (''p50_latency_ns'', json_int (fst ps)), (''p95_latency_ns'', json_int (fst (snd ps))),
          (''p99_latency_ns'', json_int (snd (snd ps))), (''success_ops'', json_int (sint (sa_SuccessfulOps s))),
          (''total_ops'', json_int (sint (sa_TotalOps s)))])]"

definition saveResults :: "'f float_lib \<Rightarrow> Stats \<Rightarrow> 'f LoadConfig \<Rightarrow> fs \<Rightarrow> (unit res \<times> fs) option" where
  "saveResults F s c d =
     map_option (\<lambda>ps.
       case (fl_json F (fl_seconds F (lg_Duration c)), fl_json F (lg_ReadRatio c)) of
         (Some duration, Some ratio) \<Rightarrow> WriteFile (path_of (lg_OutputFile c)) (MarshalIndent (results_json duration ratio c s ps)) d
       | _ \<Rightarrow> (Inl ErrJSON, d)) (percentiles F s)"

section \<open>The process\<close>

record load_process =
  lp_load :: load_state
  lp_reporter :: reporter
  lp_log :: "string list"
  lp_panic :: bool

datatype process_event = Run load_event | Interrupt | ReporterStart int | ReporterTick int | ReporterStop

text \<open>The lines that \<open>main\<close> logs first; \<open>%v\<close> of the list of addresses.\<close>

definition load_banner :: "'f float_lib \<Rightarrow> 'f LoadConfig \<Rightarrow> string list" where
  "load_banner F c =
     [''Starting load generator'', ''Target URLs: ['' @ join_with (CHR '' '') (lg_URLs c) @ '']'', ''QPS: '' @ show_int (lg_QPS c),
      ''Duration: '' @ fl_duration F (lg_Duration c), ''Workers: '' @ show_int (lg_Workers c),
      ''Key space: '' @ show_int (lg_KeySpace c), ''Value size: '' @ show_int (lg_ValueSize c) @ '' bytes'',
      ''Read ratio: '' @ fl_fixed F 2 (lg_ReadRatio c)]"

definition load_boot :: "'f float_lib \<Rightarrow> 'f LoadConfig \<Rightarrow> load_process" where
  "load_boot F c =
     \<lparr>lp_load = load_start (lg_QPS c) (nat (lg_Workers c)), lp_reporter = NotStarted, lp_log = load_banner F c, lp_panic = False\<rparr>"

text \<open>
  A worker at work panics in \<open>rand.Intn\<close> without keys, and for a put in \<open>make\<close> with a negative size of the value. The reporter
  panics in \<open>time.NewTicker\<close> unless its interval is positive.
\<close>

definition work_panics :: "'f LoadConfig \<Rightarrow> load_event \<Rightarrow> load_state \<Rightarrow> bool" where
  "work_panics c ev s \<longleftrightarrow>
     (case ev of
        Worker i p r \<Rightarrow> i < length (ld_workers s) \<and> ld_workers s ! i = AtWork
          \<and> (lg_KeySpace c \<le> 0 \<or> re_Op r = ''PUT'' \<and> lg_ValueSize c < 0)
      | _ \<Rightarrow> False)"

fun process_step :: "'f float_lib \<Rightarrow> 'f LoadConfig \<Rightarrow> process_event \<Rightarrow> load_process \<Rightarrow> load_process" where
  "process_step F c (Run ev) p =
     (if lp_panic p then p
      else if work_panics c ev (lp_load p) then p\<lparr>lp_panic := True\<rparr>
      else p\<lparr>lp_load := load_step ev (lp_load p)\<rparr>)"
| "process_step F c Interrupt p =
     (if lp_panic p then p
      else p\<lparr>lp_log := lp_log p @ [''Received interrupt signal, shutting down...''], lp_load := load_step Cancel (lp_load p)\<rparr>)"
| "process_step F c (ReporterStart now) p =
     (if lp_panic p \<or> lp_reporter p \<noteq> NotStarted then p
      else if lg_ReportInterval c \<le> 0 then p\<lparr>lp_panic := True\<rparr>
      else p\<lparr>lp_reporter := Reporting 0 now\<rparr>)"
| "process_step F c (ReporterTick now) p =
     (if lp_panic p then p
      else case lp_reporter p of
             Reporting lastOps lastTime \<Rightarrow>
               let s = ld_stats (lp_load p) in
               p\<lparr>lp_log := lp_log p @ [progress_line F now lastOps lastTime s], lp_reporter := Reporting (sa_TotalOps s) now\<rparr>
           | _ \<Rightarrow> p)"
| "process_step F c ReporterStop p =
     (if \<not> lp_panic p \<and> ld_cancelled (lp_load p) \<and> lp_reporter p \<noteq> NotStarted then p\<lparr>lp_reporter := Stopped\<rparr> else p)"

datatype load_outcome = LoadExit nat | LoadPanic | LoadRunning | LoadDone string "string list"

text \<open>What \<open>main\<close> does after its wait for the workers.\<close>

definition load_finish :: "'f float_lib \<Rightarrow> 'f LoadConfig \<Rightarrow> load_process \<Rightarrow> fs \<Rightarrow> load_outcome \<times> fs" where
  "load_finish F c p d =
     (case printFinalResults F (ld_stats (lp_load p)) c of
        None \<Rightarrow> (LoadPanic, d)
      | Some out \<Rightarrow>
          if lg_OutputFile c = [] then (LoadDone out (lp_log p), d)
          else (case saveResults F (ld_stats (lp_load p)) c d of
                  None \<Rightarrow> (LoadPanic, d)
                | Some (Inl e, d) \<Rightarrow> (LoadDone out (lp_log p @ [''Failed to save results: '' @ fl_error F e]), d)
                | Some (Inr _, d) \<Rightarrow> (LoadDone out (lp_log p), d)))"

definition load_main :: "'f float_lib \<Rightarrow> 'f value_parsers \<Rightarrow> 'f \<Rightarrow> string list \<Rightarrow> process_event list \<Rightarrow> fs \<Rightarrow> load_outcome \<times> fs" where
  "load_main F V half args evs d =
     (case parseFlags V half args of
        Inl code \<Rightarrow> (LoadExit code, d)
      | Inr c \<Rightarrow>
          let p = fold (process_step F c) evs (load_boot F c) in
          if lp_panic p then (LoadPanic, d)
          else if list_all (\<lambda>w. w = Finished) (ld_workers (lp_load p)) then load_finish F c p d
          else (LoadRunning, d))"

section \<open>Specification\<close>

text \<open>The steps of a run, an interrupt being one more way to cancel it, and the results that the workers record in them.\<close>

fun load_events :: "process_event list \<Rightarrow> load_event list" where
  "load_events [] = []"
| "load_events (Run ev # evs) = ev # load_events evs"
| "load_events (Interrupt # evs) = Cancel # load_events evs"
| "load_events (_ # evs) = load_events evs"

fun result_of :: "load_event \<Rightarrow> load_state \<Rightarrow> Result list" where
  "result_of (Worker i p r) s = (if i < length (ld_workers s) \<and> ld_workers s ! i = AtWork then [r] else [])"
| "result_of _ s = []"

fun recorded :: "load_event list \<Rightarrow> load_state \<Rightarrow> Result list" where
  "recorded [] s = []"
| "recorded (ev # evs) s = result_of ev s @ recorded evs (load_step ev s)"

text \<open>A configuration under which no goroutine panics.\<close>

definition safe_config :: "'f LoadConfig \<Rightarrow> bool" where
  "safe_config c \<longleftrightarrow> 0 < lg_KeySpace c \<and> 0 \<le> lg_ValueSize c \<and> 0 < lg_ReportInterval c"

text \<open>Whole numbers in place of the floating-point numbers, and parsers that read every number as one.\<close>

definition sample_floats :: "int float_lib" where
  "sample_floats =
     \<lparr>fl_of_int = (\<lambda>n. n), fl_trunc = (\<lambda>n. n), fl_mul = (*), fl_div = (div), fl_fixed = (\<lambda>_. show_int),
      fl_json = (\<lambda>n. Some (show_int n)), fl_seconds = (\<lambda>n. n div 10 ^ 9), fl_duration = show_int, fl_error = (\<lambda>_. [])\<rparr>"

definition sample_parsers :: "int value_parsers" where
  "sample_parsers = \<lparr>vp_Int = (\<lambda>_. Some 1), vp_Duration = (\<lambda>_. Some 1), vp_Float = (\<lambda>_. Some 1)\<rparr>"

section \<open>Lemmas\<close>

lemma step_stats: "ld_stats (load_step ev s) = fold Stats_Record (result_of ev s) (ld_stats s)"
  by (cases ev) (auto simp: worker_step_def Let_def split: worker.splits)

lemma run_stats: "ld_stats (fold load_step evs s) = fold Stats_Record (recorded evs s) (ld_stats s)"
  by (induction evs arbitrary: s) (simp_all add: step_stats)

lemma load_events_Cons: "load_events (ev # evs) = load_events [ev] @ load_events evs"
  by (cases ev) simp_all

lemma process_step_runs:
  assumes "safe_config c" and "\<not> lp_panic p"
  shows "\<not> lp_panic (process_step F c ev p) \<and> lp_load (process_step F c ev p) = fold load_step (load_events [ev]) (lp_load p)"
proof (cases ev)
  case (Run e)
  then show ?thesis
    using assms by (cases e) (simp_all add: safe_config_def work_panics_def)
next
  case (ReporterTick now)
  then show ?thesis
    using assms(2) by (cases "lp_reporter p") (simp_all add: Let_def)
qed (use assms in \<open>simp_all add: safe_config_def\<close>)

lemma process_run:
  assumes "safe_config c" and "\<not> lp_panic p"
  shows "\<not> lp_panic (fold (process_step F c) evs p)
    \<and> lp_load (fold (process_step F c) evs p) = fold load_step (load_events evs) (lp_load p)"
  using assms(2)
proof (induction evs arbitrary: p)
  case (Cons ev evs)
  note step = process_step_runs [OF assms(1) Cons.prems, of F ev]
  from Cons.IH [of "process_step F c ev p"] step show ?case
    unfolding load_events_Cons [of ev evs] by simp
qed simp

lemma GetPercentile_Some: "(\<And>n. 0 \<le> index n) \<Longrightarrow> \<exists>x. GetPercentile index s = Some x"
  using GetPercentile_sort [of s index] by (cases "sa_Latencies s = []") (simp_all add: GetPercentile_def [of _ s])

lemma percentiles_Some:
  assumes "\<And>p n. 0 \<le> p \<Longrightarrow> 0 \<le> percentile_index F p n"
  shows "\<exists>ps. percentiles F s = Some ps"
proof -
  have "\<exists>x. GetPercentile (percentile_index F p) s = Some x" if "0 \<le> p" for p
    using assms [OF that] by (rule GetPercentile_Some)
  from this [of 50] this [of 95] this [of 99] show ?thesis
    by (auto simp: percentiles_def)
qed

lemma printFinalResults_Some: "percentiles F s = Some ps \<Longrightarrow> \<exists>out. printFinalResults F s c = Some out"
  by (cases "0 < sint (sa_TotalOps s)") (simp_all add: printFinalResults_def Let_def)

lemma load_ends:
  assumes "safe_config c" and "load_events evs = before @ Cancel # after" and "\<forall>i < nat (lg_Workers c). 3 \<le> worker_turns i after"
    and "parseFlags V half args = Inr c"
  shows "load_main F V half args evs d = load_finish F c (fold (process_step F c) evs (load_boot F c)) d"
    and "ld_stats (lp_load (fold (process_step F c) evs (load_boot F c)))
      = fold Stats_Record (recorded (load_events evs) (load_start (lg_QPS c) (nat (lg_Workers c)))) NewStats"
proof -
  let ?s = "load_start (lg_QPS c) (nat (lg_Workers c))" and ?p = "fold (process_step F c) evs (load_boot F c)"
  have boot: "\<not> lp_panic (load_boot F c)" "lp_load (load_boot F c) = ?s" "ld_stats ?s = NewStats"
    "length (ld_workers ?s) = nat (lg_Workers c)"
    by (simp_all add: load_boot_def load_start_def)
  note run = process_run [OF assms(1) boot(1), of F evs, unfolded boot(2)]
  have "\<forall>i < length (ld_workers (fold load_step before ?s)). 3 \<le> worker_turns i after"
    using assms(3) by (simp add: boot(4))
  from workers_finish [OF this] have "list_all (\<lambda>w. w = Finished) (ld_workers (fold load_step (load_events evs) ?s))"
    by (simp add: assms(2))
  with run show "load_main F V half args evs d = load_finish F c ?p d"
    by (simp add: load_main_def assms(4))
  show "ld_stats (lp_load ?p) = fold Stats_Record (recorded (load_events evs) ?s) NewStats"
    using run by (simp add: run_stats boot(3))
qed

lemma results_json_ok:
  assumes "num_lit duration" and "num_lit ratio"
  shows "json_wf (results_json duration ratio c s ps)" and "json_depth (results_json duration ratio c s ps) = 2"
  using assms by (simp_all add: results_json_def json_int_def num_lit_show_int ascii_str_def byte_val_def)

lemma average_word:
  assumes "0 \<le> t" and "t < 2 ^ 63" and "0 < n" and "n < 2 ^ 63"
  shows "sint (div64 (of_int t) (load_max (of_int n) 1)) = t div n"
proof -
  have w: "sint (word_of_int k :: i64) = k" if "0 \<le> k" "k < 2 ^ 63" for k
    using that by (simp add: signed_of_int signed_take_bit_int_eq_self)
  have "sint (load_max (of_int n) 1) = n"
    using assms(3,4) w [of n] by (simp add: load_max_def)
  moreover have "t sdiv n = t div n"
    using assms by (simp add: signed_divide_int_def sgn_if)
  moreover have "t div n \<le> t div 1"
    using assms by (intro zdiv_mono2) simp_all
  moreover have "0 \<le> t div n"
    using assms by (simp add: pos_imp_zdiv_nonneg_iff)
  ultimately show ?thesis
    using assms w [of t] w [of "t div n"] by (simp add: div64_def)
qed

lemma sum_latencies:
  assumes "list_all (\<lambda>r. a \<le> re_Latency r \<and> re_Latency r \<le> b) rs"
  shows "a * int (length rs) \<le> sum_list (map re_Latency rs)" and "sum_list (map re_Latency rs) \<le> b * int (length rs)"
  using assms by (induction rs) (auto simp: algebra_simps)

section \<open>Properties\<close>

text \<open>C32: The average in the results is an average. As long as the sum of the latencies fits 64 bits, the average that is
  written is their sum divided by their number, rounded down, and lies between the least and the greatest latency.\<close>

theorem average_bounds:
  assumes "rs \<noteq> []" and "list_all (\<lambda>r. 0 < re_Latency r) rs" and "sum_list (map re_Latency rs) < 2 ^ 63"
    and "s = fold Stats_Record rs NewStats"
  shows "sint (average_latency s) = sum_list (map re_Latency rs) div int (length rs)
    \<and> sa_MinLatency s \<le> sint (average_latency s) \<and> sint (average_latency s) \<le> sa_MaxLatency s"
proof -
  let ?t = "sum_list (map re_Latency rs)" and ?n = "int (length rs)"
  have n: "0 < ?n"
    using assms(1) by simp
  have "list_all (\<lambda>r. 1 \<le> re_Latency r \<and> re_Latency r \<le> Max (re_Latency ` set rs)) rs"
    using assms(2) by (auto simp: list_all_iff)
  from sum_latencies(1) [OF this] have "?n \<le> ?t"
    by simp
  then have avg: "sint (average_latency s) = ?t div ?n"
    using average_word [of ?t ?n] n assms(3) by (simp add: average_latency_def assms(4) Record_counts)
  have "list_all (\<lambda>r. sa_MinLatency s \<le> re_Latency r \<and> re_Latency r \<le> sa_MaxLatency s) rs"
    using Record_extremes [OF assms(1,2)] by (simp add: assms(4) list_all_iff)
  note bounds = sum_latencies [OF this]
  have "sa_MinLatency s \<le> ?t div ?n"
    using zdiv_mono1 [OF bounds(1) n] n by simp
  moreover have "?t div ?n \<le> sa_MaxLatency s"
    using zdiv_mono1 [OF bounds(2) n] n by simp
  ultimately show ?thesis
    by (simp add: avg)
qed

theorem average_bounds_witness:
  "sint (average_latency (fold Stats_Record (map sample_result [30, 10, 201]) NewStats)) = 80"
  using average_bounds [OF _ _ _ refl, of "map sample_result [30, 10, 201]"]
  by (simp add: sample_result_def del: fold.simps)



end
