(* ===== verification/Spec2Isabelle.thy ===== *)
theory Spec2Isabelle
  imports ServerMain Replication Crash EventLoop Cluster AdminPB Controller_Types DeepCopy OperatorMain Checker LoadReport
begin

text \<open>
  \<^bold>\<open>A replicated key-value store and its Kubernetes operator.\<close>

  The program has two halves. The \<^emph>\<open>server\<close> (\<open>src/server\<close>) is one replica of a key-value store: clients talk HTTP to
  the API (\<open>pkg/server/api.go\<close>), which proposes every write to the Raft node (\<open>pkg/raftnode\<close>) and waits until the
  node's event loop has applied it to the store (\<open>pkg/kvstore\<close>). The node drives the Raft library of etcd; what the
  library hands it in a \<open>Ready\<close> it writes to the log (\<open>pkg/storage/wal.go\<close>), saves as a snapshot
  (\<open>pkg/storage/snapshot.go\<close>), sends to its peers (\<open>pkg/transport\<close>) and applies. \<open>cmd/server/main.go\<close> builds all of
  it from the command line (\<open>pkg/config\<close>), and the administrative service (\<open>pkg/server/admin.go\<close>) changes the
  membership. The \<^emph>\<open>operator\<close> (\<open>src/operator\<close>) reconciles a cluster resource: it creates the stateful set and the
  services, renders the server's arguments, and walks a cluster whose size changes through the steps of a
  reconfiguration; \<open>pkg/adminclient\<close> is its client of the administrative service, and \<open>cmd/operator/main.go\<close> starts it
  inside a controller manager. Two test programs go with them: a checker (\<open>src/test/correctness\<close>), which tests the
  histories that the API records for linearizability, and a load generator (\<open>src/test/bench\<close>).

  \<^bold>\<open>Ground.\<close>

    \<^item> \<open>Go_Prelude\<close>: results, wrapped errors, machine integers, Go maps as association lists in insertion order; the
      interfaces \<open>stepping\<close> and \<open>winding_down\<close> of state machines that run over events, interpreted for the server process and
      the load generator.
    \<^item> \<open>Go_Strings\<close>: what is used of \<open>strings\<close>, \<open>strconv\<close> and \<open>fmt\<close>, and the runes of a string.
    \<^item> \<open>Go_JSON\<close>, \<open>Go_JSON_UTF8\<close>, \<open>Go_JSON_Prefix\<close>: \<open>encoding/json\<close> on bytes; a printed value is read back, every decoded
      string is valid UTF-8, and the text of an object that was cut short is not decoded. \<open>Go_JSON_Indent\<close>:
      \<open>json.MarshalIndent\<close>, which is read back too.
    \<^item> \<open>Go_Flag\<close>: \<open>flag.Parse\<close> over a set of flags, with the exit codes; shared by the four programs.
    \<^item> \<open>Go_OS\<close>: a file system with directories, inodes and open files, in which any call may fail or be cut short.
    \<^item> \<open>Go_HTTP\<close>: requests, replies, a client as a parameter.

  \<^bold>\<open>The server's components.\<close>

    \<^item> \<open>Config\<close> (\<open>config.go\<close>): the peer list parser and the mode predicates. The table it makes is a map without empty
      identifiers or addresses.
    \<^item> \<open>KVStore\<close> (\<open>kvstore.go\<close>): the store with its nil map, snapshots and history. Restoring a snapshot gives the
      contents back. Interface \<open>kv_store\<close>, interpreted as \<open>kv\<close>.
    \<^item> \<open>Raftpb\<close>: the data exchanged with the Raft library; \<open>Sample_Codec\<close> is a concrete encoding of it that fulfils the
      hypotheses, for the concrete runs.
    \<^item> \<open>WAL\<close>, \<open>WAL_Log\<close> (\<open>wal.go\<close>): the operations, their invariant, and the refinement of an abstract durable log
      (interface \<open>durable_log\<close>, interpreted as \<open>wal\<close>): after any sequence of saves, compactions and reopenings, reading
      the log gives the abstract one. Under failing calls compacting is all or nothing.
    \<^item> \<open>Snapshotter\<close>, \<open>Snapshotter_Spec\<close> (\<open>snapshot.go\<close>): the same for snapshots (interface \<open>snapshot_store\<close>, interpreted
      as \<open>snap\<close>): loading returns the newest saved snapshot, old ones are kept or dropped as promised, and a failed save
      leaves the others readable.
    \<^item> \<open>Transport\<close> (\<open>transport.go\<close>): the peer table refines a map, a batch of messages becomes exactly the posts to the
      known peers, and a posted message is the one delivered.
    \<^item> \<open>RaftNode\<close>, \<open>RaftNode_Spec\<close> (\<open>raftnode.go\<close>): the node's state, every method, one turn of the event loop
      (\<open>handle_ready\<close>); applying committed entries refines a fold of assignments over a map.
    \<^item> \<open>Storage_Frame\<close>, \<open>RaftNode_Durable\<close>, \<open>RaftNode_Runs\<close>: log and snapshots in one file system, the invariant between
      the node's memory and its disk, and all runs of a server process with crashes, shutdowns and starts (\<open>node_run\<close>):
      a start recovers what was saved, and no turn panics.
    \<^item> \<open>EventLoop\<close> (\<open>run\<close> in \<open>raftnode.go\<close>): the loop over ticks, \<open>Ready\<close> values and what happens to the node between them; when
      it returns, that it does not panic, and what becomes of a \<open>Ready\<close> after the stop.
    \<^item> \<open>Crash\<close>: a crash or a failure at any byte of a save. What reading the log gives afterwards, and that a cut inside a
      record keeps the server from starting.
    \<^item> \<open>Replication\<close>: a set of members with their disks, each fed the same committed log by the library (\<open>replica_run\<close>), with
      restarts and snapshots passed between them. The contents of a member are a function of the log and its applied
      index, so members agree, and a read sees a prefix of the log.
    \<^item> \<open>Proposals\<close>: \<open>ProposeAndWait\<close> as goroutines interleaved with the event loop (\<open>sys_run\<close>): which calls are
      answered, what an answer means, and that two calls that read the same index starve one of them.
    \<^item> \<open>API\<close>, \<open>API_Spec\<close> (\<open>api.go\<close>): the handlers, what they record, and that a sequential history of reads and writes is
      accepted by the checker's model.
    \<^item> \<open>Admin\<close>, \<open>Admin_Spec\<close> (\<open>admin.go\<close>): the administrative handlers and their effect once the change is applied.
    \<^item> \<open>AdminPB\<close> (\<open>admin.pb.go\<close>): the placeholder of the generated service. Registered, the handlers are what the clients reach;
      the placeholder registers nothing, so no leader is ever found.
    \<^item> \<open>Server\<close>, \<open>ServerMain\<close> (\<open>cmd/server/main.go\<close>): the command line, the configuration, start and shutdown; then the
      process with the goroutines of its two servers. Every shutdown completes, and however the process ends, the same
      command line starts it again on its files.

  \<^bold>\<open>The operator's components.\<close>

    \<^item> \<open>Controller\<close>, \<open>Controller_Spec\<close> (\<open>raftcluster_controller.go\<close>, \<open>raftcluster_types.go\<close>): \<open>Reconcile\<close> and everything
      it calls; the workflow completes when the API obliges, a failed update repeats the step, joint states follow the
      steps.
    \<^item> \<open>Controller_Types\<close> (the enumerations of \<open>raftcluster_types.go\<close>): every status that the operator sends has a declared
      phase, joint state, step and roles, so a server that validates them rejects no update.
    \<^item> \<open>AdminClient\<close> (\<open>client.go\<close>): the client and the pool; the search for a leader over the interface
      \<open>status_service\<close>, interpreted (\<open>direct\<close>, in \<open>Admin_Spec\<close>) on the server's own handlers.
    \<^item> \<open>DeepCopy\<close> (\<open>zz_generated.deepcopy.go\<close>): the copies of the API objects over an explicit memory: what they copy, what
      they separate and what they share.
    \<^item> \<open>OperatorMain\<close> (\<open>cmd/operator/main.go\<close>, \<open>SetupWithManager\<close>, the registration of the types): the calls on the manager and
      their order, whatever fails.
    \<^item> \<open>Cluster\<close>: both halves together. The arguments that the operator renders, parsed by the server, give every node
      exactly the addresses of the others, and the messages of a node arrive at the pods they are meant for.

  \<^bold>\<open>The test programs.\<close>

    \<^item> \<open>Porcupine\<close>, \<open>Linearizability\<close>, \<open>Checker\<close> (\<open>model.go\<close>, \<open>checker.go\<close>): the model, the conversion of a history into events,
      what it means for events to be linearizable and that the conversion reduces this to the recorded order; loading a
      history, and the checker's \<open>main\<close>. A history served by the API is decoded unchanged, and the checker's exit code
      says whether the model accepts it.
    \<^item> \<open>LoadGen\<close> (\<open>loadgen.go\<close>): flags, requests, statistics with their hand-written sort, which equals \<open>sort\<close>, and the
      workers with the rate limiter in any interleaving: the rate is kept, and the run ends.
    \<^item> \<open>LoadReport\<close> (\<open>loadgen.go\<close>): the progress lines, the report, the results file and \<open>main\<close> with its goroutines and panics.
      A run that is cancelled ends, the results file reads back as the figures of the recorded operations, and the
      average is one.

  \<^bold>\<open>How the code is represented.\<close> A struct is a record, a method a function that takes the receiver and returns it
  updated; the file system is passed along. An error is a value (\<open>Inl\<close>); a panic, or a call that does not return, is
  \<open>None\<close>. Methods that hold a mutex throughout are one step; \<open>ProposeAndWait\<close>, which does not, is a sequence of steps.
  Indices, terms and identifiers are 64-bit words. Errors that the code only logs are dropped where it drops them.

  \<^bold>\<open>Fuel and termination.\<close> The JSON parser spends fuel; it is called with twice the length of the input, and
  \<open>parse_fuel\<close> shows that more never changes the result. Reading the records of a log recurs on the rest of the file,
  which gets shorter; the two loops of the load generator's sort are by index, with the distance to the end as measure. All
  other loops are over lists. Waiting for a channel is a step that may never come: that a call
  returns is proved about runs that go on.

  \<^bold>\<open>Parameters.\<close> Code outside the repository is an argument. The Raft library is a record of functions over a state of
  its own (\<open>raft_lib\<close>), nothing is assumed of it except, for recovery, that its storage takes what it is given without
  an error (\<open>lib_storage_ok\<close>); its encodings are \<open>raft_codec\<close> and \<open>msg_codec\<close> with the hypotheses that what is written is read
  back (\<open>codec_ok\<close>, \<open>msg_codec_ok\<close>). The HTTP client, the Kubernetes API (\<open>kube_api\<close>), the network of the operator's
  clients (\<open>admin_net\<close>), the controller manager (\<open>ctrl_lib\<close>), the copies made by the Kubernetes libraries (\<open>k8s_copies\<close>), the
  search of the checker, the clock, random numbers, floating-point numbers with their printers (\<open>float_lib\<close>),
  \<open>time.ParseDuration\<close> and \<open>strconv.ParseInt\<close> with base 0 are functions too.
  Every theorem with such a hypothesis has a concrete instance next to it.

  \<^bold>\<open>Where the code does otherwise than intended.\<close> Some theorems state defects: two concurrent writes may share the
  index they wait for, and a call may be answered for another entry (\<open>Proposals\<close>); a deletion stores the empty value
  and is not recorded (\<open>API_Spec\<close>); reads are answered by members that lag behind (\<open>Replication\<close>); a snapshot received
  from the leader is not written to disk, and replaced entries stay in the log (\<open>RaftNode_Runs\<close>); a record that a crash
  cut short keeps the server from starting (\<open>Crash\<close>); what the loop handles after the stop is not saved (\<open>EventLoop\<close>); a
  compaction drops entries that a failed save had written (\<open>WAL_Log\<close>); a save on a full disk leaves a file with the
  newest index that cannot be loaded (\<open>Snapshotter_Spec\<close>); a learner is dialled under its name instead of its address
  (\<open>Admin_Spec\<close>); a cluster that becomes ready keeps its joint state (\<open>Controller_Spec\<close>); deep copies share conditions and
  heartbeat times with the original (\<open>DeepCopy\<close>); the administrative server is never stopped
  (\<open>ServerMain\<close>), and with the checked-in placeholder of its service it refuses every call (\<open>AdminPB\<close>).

  \<^bold>\<open>Not modelled.\<close> What the HTTP and gRPC libraries do between a connection and a handler, with the redirects of the
  multiplexer; log lines (but for the load generator's), the text that the checker prints, and response headers; the logger that the node hands to the library; the
  generated client of the gRPC service, which is not checked in; \<open>test_init.go\<close>, an experiment with the library; the search of the checker, which
  is a library. Failing disk calls and crashes inside a call are covered for the log and the snapshots; the runs of \<open>node_run\<close>
  assume that disk calls succeed and that a crash falls between two turns.
\<close>

end
